(* ===== verification/Prelude.thy ===== *)
theory Prelude
  imports Main "HOL-Library.State_Monad" "HOL-Library.Sublist" "HOL-Library.AList"
    "HOL-Library.Multiset"
begin

text \<open>
  What every component shares: the types of bytes and Go maps, the two loop shapes of the
  program in the state monad (a loop that threads an accumulator and never stops early, and a
  loop that stops at the first error), and the generic facts about them.

  A Go \<^verbatim>\<open>string\<close> and a Go \<^verbatim>\<open>[]byte\<close> are both sequences of bytes, which is what
  \<^typ>\<open>string\<close> is here: a list of 8-bit characters.  A Go map is an association list with
  distinct keys; the order of the list is the order in which the next \<^verbatim>\<open>range\<close> loop meets the
  entries.  Go leaves that order open, so a theorem about every list covers every order.
\<close>

type_synonym bytes = string

type_synonym 'v gomap = "(string \<times> 'v) list"

text \<open>
  \<open>run_simps\<close> collects the equations that run a program one step, \<open>log_simps\<close> the facts on
  the commands a program sends.
\<close>

named_theorems run_simps
named_theorems log_simps

lemma run_bind_pair [run_simps]:
  "run_state (m \<bind> f) w = (let (a, w') = run_state m w in run_state (f a) w')"
  by (simp add: Let_def)

subsection \<open>Go maps\<close>

text \<open>\<open>m[k] = v\<close> on a Go map.\<close>

definition map_put :: "string \<Rightarrow> 'v \<Rightarrow> 'v gomap \<Rightarrow> 'v gomap" where
  "map_put k v m = AList.update k v m"

definition map_keys :: "'v gomap \<Rightarrow> string list" where
  "map_keys m = map fst m"

definition wf_gomap :: "'v gomap \<Rightarrow> bool" where
  "wf_gomap m = distinct (map_keys m)"

lemma map_of_put [simp]: "map_of (map_put k v m) = (map_of m)(k \<mapsto> v)"
  by (simp add: map_put_def update_conv')

lemma map_put_Nil [simp]: "map_put k v [] = [(k, v)]"
  by (simp add: map_put_def)

lemma set_map_keys_put [simp]: "set (map_keys (map_put k v m)) = insert k (set (map_keys m))"
  by (simp add: map_keys_def map_put_def dom_update)

lemma set_map_keys_Nil [simp]: "map_keys [] = []"
  by (simp add: map_keys_def)

lemma wf_gomap_Nil [simp, intro]: "wf_gomap []"
  by (simp add: wf_gomap_def)

lemma wf_gomap_put [intro]: "wf_gomap m \<Longrightarrow> wf_gomap (map_put k v m)"
  by (simp add: wf_gomap_def map_keys_def map_put_def distinct_update)

lemma wf_gomap_mset_of:
  assumes "wf_gomap m" "mset m = mset m'"
  shows "map_of m = map_of m'"
proof -
  have "distinct (map fst m')"
    using assms by (metis wf_gomap_def map_keys_def mset_map mset_eq_imp_distinct_iff)
  then show ?thesis
    using assms by (metis wf_gomap_def map_keys_def map_of_inject_set mset_eq_setD)
qed

subsection \<open>Loops\<close>

text \<open>
  \<open>for_each\<close> is \<^verbatim>\<open>for _, x := range xs\<close> with a body that updates \<open>s\<close> and never leaves the
  loop early (\<^verbatim>\<open>continue\<close> is the body returning).
\<close>

fun for_each :: "('a \<Rightarrow> 's \<Rightarrow> ('w, 's) state) \<Rightarrow> 'a list \<Rightarrow> 's \<Rightarrow> ('w, 's) state" where
  "for_each f [] s = State_Monad.return s"
| "for_each f (x # xs) s = do { s' \<leftarrow> f x s; for_each f xs s' }"

text \<open>
  \<open>until_error\<close> is the same loop with a body that may return an error, which ends the loop and
  the function around it.  \<^term>\<open>None\<close> is Go's nil error.
\<close>

fun until_error :: "('a \<Rightarrow> ('w, 'e option) state) \<Rightarrow> 'a list \<Rightarrow> ('w, 'e option) state" where
  "until_error f [] = State_Monad.return None"
| "until_error f (x # xs) = do {
     e \<leftarrow> f x;
     (case e of None \<Rightarrow> until_error f xs | Some err \<Rightarrow> State_Monad.return (Some err)) }"

text \<open>
  \<open>first_ok\<close> returns at the first element whose body succeeds; \<^term>\<open>None\<close> when the loop falls
  through.
\<close>

fun first_ok :: "('a \<Rightarrow> ('w, 'b option) state) \<Rightarrow> 'a list \<Rightarrow> ('w, 'b option) state" where
  "first_ok f [] = State_Monad.return None"
| "first_ok f (x # xs) = do {
     r \<leftarrow> f x;
     (case r of None \<Rightarrow> first_ok f xs | Some b \<Rightarrow> State_Monad.return (Some b)) }"

text \<open>An invariant of accumulator and world that every pass keeps, the loop keeps.\<close>

lemma for_each_inv:
  assumes "I s w"
    and "\<And>x s w. x \<in> set xs \<Longrightarrow> I s w \<Longrightarrow>
      I (fst (run_state (f x s) w)) (snd (run_state (f x s) w))"
  shows "I (fst (run_state (for_each f xs s) w)) (snd (run_state (for_each f xs s) w))"
  using assms
proof (induction xs arbitrary: s w)
  case Nil
  then show ?case by simp
next
  case (Cons x xs)
  obtain s' w' where r: "run_state (f x s) w = (s', w')" by fastforce
  have "I s' w'" using Cons.prems(1) Cons.prems(2)[of x s w] r by simp
  then show ?case using Cons.IH[of s' w'] Cons.prems(2) r by simp
qed

lemma for_each_acc_inv:
  assumes "I s" and "\<And>x s w. x \<in> set xs \<Longrightarrow> I s \<Longrightarrow> I (fst (run_state (f x s) w))"
  shows "I (fst (run_state (for_each f xs s) w))"
  by (rule for_each_inv[where I = "\<lambda>s w. I s"]) (use assms in auto)

lemma first_ok_Some:
  assumes "fst (run_state (first_ok f xs) w) = Some b"
  shows "\<exists>x \<in> set xs. \<exists>w'. fst (run_state (f x) w') = Some b"
  using assms
proof (induction xs arbitrary: w)
  case Nil
  then show ?case by simp
next
  case (Cons x xs)
  obtain r w' where r: "run_state (f x) w = (r, w')" by fastforce
  show ?case
  proof (cases r)
    case None
    then have "fst (run_state (first_ok f xs) w') = Some b" using Cons.prems r by simp
    then show ?thesis using Cons.IH by auto
  next
    case (Some b')
    then have "fst (run_state (f x) w) = Some b" using Cons.prems r by simp
    then show ?thesis by auto
  qed
qed

subsection \<open>Where an element of a concatenation lies\<close>

lemma split_in_tail:
  assumes "a @ d = es @ x # es'" "x \<notin> set a"
  shows "\<exists>d1. es = a @ d1 \<and> d = d1 @ x # es'"
proof -
  obtain us where "a = es @ us \<and> us @ d = x # es' \<or> a @ us = es \<and> d = us @ x # es'"
    using assms(1) by (auto simp: append_eq_append_conv2)
  then show ?thesis using assms(2) by (cases us) auto
qed

lemma split_in_head:
  assumes "a @ d = es @ x # es'" "x \<notin> set d"
  shows "\<exists>a2. a = es @ x # a2 \<and> es' = a2 @ d"
proof -
  obtain us where "a = es @ us \<and> us @ d = x # es' \<or> a @ us = es \<and> d = us @ x # es'"
    using assms(1) by (auto simp: append_eq_append_conv2)
  then show ?thesis using assms(2) by (cases us) auto
qed

lemma set_put_subset: "set (map_put k v m) \<subseteq> insert (k, v) (set m)"
  unfolding map_put_def by (induction m) auto

text \<open>The loop invariant once more, for runs written as equations.\<close>

lemma for_each_run_inv:
  assumes "run_state (for_each f xs s) w = (s', w')" "I s w"
    and step: "\<And>x s w s' w'. x \<in> set xs \<Longrightarrow> I s w \<Longrightarrow> run_state (f x s) w = (s', w') \<Longrightarrow> I s' w'"
  shows "I s' w'"
  using for_each_inv[of I s w xs f] assms(1,2) step by (metis fst_conv prod.collapse snd_conv)

end
