(* ===== verification/Go_Strings.thy ===== *)
theory Go_Strings
  imports Prelude "HOL-Library.List_Lexorder" "HOL-Library.Char_ord"
begin

text \<open>
  The parts of Go's standard library the program computes with: \<^verbatim>\<open>strings\<close> (Contains, HasPrefix,
  TrimPrefix, Split, Join, TrimSpace, Fields), \<^verbatim>\<open>strconv.Atoi\<close>, the \<^verbatim>\<open>%d\<close> verb of \<^verbatim>\<open>fmt\<close>,
  \<^verbatim>\<open>sort.Strings\<close> (\<^const>\<open>sort\<close> in the byte order of strings) and \<^verbatim>\<open>path/filepath\<close>'s Base, Clean
  and Dir for slash-separated paths.  Strings are bytes: \<open>TrimSpace\<close> and \<open>Fields\<close> recognise the
  UTF-8 encodings of the white space code points, as \<^verbatim>\<open>unicode.IsSpace\<close> does.
\<close>

abbreviation NL :: string where "NL \<equiv> [CHR 0x0A]"

abbreviation SQ :: string where "SQ \<equiv> [CHR 0x27]"

abbreviation DQ :: string where "DQ \<equiv> [CHR 0x22]"

subsection \<open>Substrings\<close>

definition Contains :: "string \<Rightarrow> string \<Rightarrow> bool" where
  "Contains s substr = sublist substr s"

definition HasPrefix :: "string \<Rightarrow> string \<Rightarrow> bool" where
  "HasPrefix s p = prefix p s"

definition TrimPrefix :: "string \<Rightarrow> string \<Rightarrow> string" where
  "TrimPrefix s p = (if prefix p s then drop (length p) s else s)"

lemma TrimPrefix_append [simp]: "TrimPrefix (p @ s) p = s"
  by (simp add: TrimPrefix_def)

text \<open>\<^verbatim>\<open>strings.Split\<close> for a separator of one byte, and \<^verbatim>\<open>strings.Join\<close>.\<close>

fun Split :: "string \<Rightarrow> char \<Rightarrow> string list" where
  "Split [] c = [[]]"
| "Split (x # xs) c =
     (if x = c then [] # Split xs c
      else (case Split xs c of [] \<Rightarrow> [[x]] | y # ys \<Rightarrow> (x # y) # ys))"

fun Join :: "string list \<Rightarrow> string \<Rightarrow> string" where
  "Join [] sep = []"
| "Join [x] sep = x"
| "Join (x # y # ys) sep = x @ sep @ Join (y # ys) sep"

lemma Split_not_Nil [simp]: "Split s c \<noteq> []"
  by (induction s) (auto split: list.splits)

lemma Split_no_sep: "c \<notin> set s \<Longrightarrow> Split s c = [s]"
  by (induction s) auto

lemma Split_append_sep: "Split (s @ c # t) c = Split s c @ Split t c"
proof (induction s)
  case Nil
  then show ?case by simp
next
  case (Cons x s)
  then show ?case by (cases "Split s c") auto
qed

lemma Split_parts: "p \<in> set (Split s c) \<Longrightarrow> c \<notin> set p"
proof (induction s arbitrary: p)
  case Nil
  then show ?case by simp
next
  case (Cons x s)
  then show ?case by (cases "Split s c") (auto split: if_splits)
qed

lemma Join_Split: "Join (Split s c) [c] = s"
proof (induction s)
  case Nil
  then show ?case by simp
next
  case (Cons x s)
  then show ?case by (cases "Split s c" rule: list.exhaust; cases "tl (Split s c)") auto
qed

lemma Split_Join:
  "ps \<noteq> [] \<Longrightarrow> \<forall>p \<in> set ps. c \<notin> set p \<Longrightarrow> Split (Join ps [c]) c = ps"
proof (induction ps "[c]" rule: Join.induct)
  case (3 x y ys)
  then show ?case by (simp add: Split_append_sep Split_no_sep)
qed (auto simp: Split_no_sep)

subsection \<open>White space\<close>

text \<open>
  The UTF-8 encodings of the code points with the White Space property that Go's
  \<^verbatim>\<open>unicode.IsSpace\<close> accepts: tab to carriage return, space, U+0085, U+00A0, U+1680, U+2000 to
  U+200A, U+2028, U+2029, U+202F, U+205F and U+3000.
\<close>

definition ws_runes :: "string list" where
  "ws_runes =
    [[CHR 0x20], [CHR 0x0A], [CHR 0x09], [CHR 0x0B], [CHR 0x0C], [CHR 0x0D],
     [CHR 0xC2, CHR 0x85], [CHR 0xC2, CHR 0xA0], [CHR 0xE1, CHR 0x9A, CHR 0x80],
     [CHR 0xE2, CHR 0x80, CHR 0x80], [CHR 0xE2, CHR 0x80, CHR 0x81],
     [CHR 0xE2, CHR 0x80, CHR 0x82], [CHR 0xE2, CHR 0x80, CHR 0x83],
     [CHR 0xE2, CHR 0x80, CHR 0x84], [CHR 0xE2, CHR 0x80, CHR 0x85],
     [CHR 0xE2, CHR 0x80, CHR 0x86], [CHR 0xE2, CHR 0x80, CHR 0x87],
     [CHR 0xE2, CHR 0x80, CHR 0x88], [CHR 0xE2, CHR 0x80, CHR 0x89],
     [CHR 0xE2, CHR 0x80, CHR 0x8A], [CHR 0xE2, CHR 0x80, CHR 0xA8],
     [CHR 0xE2, CHR 0x80, CHR 0xA9], [CHR 0xE2, CHR 0x80, CHR 0xAF],
     [CHR 0xE2, CHR 0x81, CHR 0x9F], [CHR 0xE3, CHR 0x80, CHR 0x80]]"

text \<open>The length of the white space rune at the front (at the back) of a string, 0 for none.\<close>

definition lead_ws :: "string \<Rightarrow> nat" where
  "lead_ws s = (case find (\<lambda>u. prefix u s) ws_runes of None \<Rightarrow> 0 | Some u \<Rightarrow> length u)"

definition trail_ws :: "string \<Rightarrow> nat" where
  "trail_ws s = (case find (\<lambda>u. suffix u s) ws_runes of None \<Rightarrow> 0 | Some u \<Rightarrow> length u)"

lemma ws_runes_nonempty: "u \<in> set ws_runes \<Longrightarrow> u \<noteq> []"
  by (auto simp: ws_runes_def)

lemma lead_ws_le: "lead_ws s \<le> length s"
  by (auto simp: lead_ws_def find_Some_iff dest: prefix_length_le split: option.splits)

lemma trail_ws_le: "trail_ws s \<le> length s"
  by (auto simp: trail_ws_def find_Some_iff suffix_def split: option.splits)

function trim_left :: "string \<Rightarrow> string" where
  "trim_left s = (if lead_ws s = 0 then s else trim_left (drop (lead_ws s) s))"
  by pat_completeness auto
termination
proof (relation "measure length")
  fix s :: string
  assume "lead_ws s \<noteq> 0"
  then show "(drop (lead_ws s) s, s) \<in> measure length"
    using lead_ws_le[of s] by auto
qed simp

function trim_right :: "string \<Rightarrow> string" where
  "trim_right s = (if trail_ws s = 0 then s else trim_right (take (length s - trail_ws s) s))"
  by pat_completeness auto
termination
proof (relation "measure length")
  fix s :: string
  assume "trail_ws s \<noteq> 0"
  then show "(take (length s - trail_ws s) s, s) \<in> measure length"
    using trail_ws_le[of s] by auto
qed simp

declare trim_left.simps [simp del] trim_right.simps [simp del]

definition TrimSpace :: "string \<Rightarrow> string" where
  "TrimSpace s = trim_right (trim_left s)"

text \<open>
  \<^verbatim>\<open>strings.Fields\<close>: the maximal runs of bytes between white space runes.  \<open>cur\<close> holds the
  current run in reverse.
\<close>

function fields_from :: "string \<Rightarrow> string \<Rightarrow> string list" where
  "fields_from cur s =
     (if s = [] then (if cur = [] then [] else [rev cur])
      else if lead_ws s = 0 then fields_from (hd s # cur) (tl s)
      else (if cur = [] then [] else [rev cur]) @ fields_from [] (drop (lead_ws s) s))"
  by pat_completeness auto
termination
proof (relation "measure (\<lambda>(cur, s). length s)")
  fix cur s :: string
  assume "s \<noteq> []" "lead_ws s \<noteq> 0"
  then show "(([], drop (lead_ws s) s), cur, s) \<in> measure (\<lambda>(cur, s). length s)"
    by auto
qed auto

declare fields_from.simps [simp del]

definition Fields :: "string \<Rightarrow> string list" where
  "Fields s = fields_from [] s"

text \<open>
  \<open>graphic\<close> bytes are the visible ASCII ones.  No white space rune starts or ends with one, so a
  string that starts and ends with one is already trimmed, and a run of them is one field.
\<close>

definition graphic :: "char \<Rightarrow> bool" where
  "graphic c \<longleftrightarrow> 33 \<le> (of_char c :: nat) \<and> (of_char c :: nat) \<le> 126"

lemma ws_runes_not_graphic:
  "\<forall>u \<in> set ws_runes. \<not> graphic (hd u) \<and> \<not> graphic (last u)"
  by (simp add: ws_runes_def graphic_def)

lemma lead_ws_graphic: "graphic c \<Longrightarrow> lead_ws (c # s) = 0"
proof -
  assume c: "graphic c"
  have "find (\<lambda>u. prefix u (c # s)) ws_runes = None"
    unfolding find_None_iff
    using c ws_runes_not_graphic ws_runes_nonempty by (metis list.sel(1) prefix_Cons)
  then show ?thesis by (simp add: lead_ws_def)
qed

lemma trail_ws_graphic: "graphic c \<Longrightarrow> trail_ws (s @ [c]) = 0"
proof -
  assume c: "graphic c"
  have "\<not> suffix u (s @ [c])" if "u \<in> set ws_runes" for u
    using that c ws_runes_not_graphic ws_runes_nonempty[OF that]
    by (metis last_appendR last_snoc suffix_def)
  then have "find (\<lambda>u. suffix u (s @ [c])) ws_runes = None"
    unfolding find_None_iff by blast
  then show ?thesis by (simp add: trail_ws_def)
qed

lemma lead_ws_Nil [simp]: "lead_ws [] = 0"
  using lead_ws_le[of "[]"] by simp

lemma trail_ws_Nil [simp]: "trail_ws [] = 0"
  using trail_ws_le[of "[]"] by simp

lemma trim_Nil [simp]: "trim_left [] = []" "trim_right [] = []"
  by (simp_all add: trim_left.simps trim_right.simps)

lemma TrimSpace_Nil [simp]: "TrimSpace [] = []"
  by (simp add: TrimSpace_def)

lemma TrimSpace_graphic:
  assumes "s \<noteq> []" "graphic (hd s)" "graphic (last s)"
  shows "TrimSpace s = s"
proof -
  have "lead_ws s = 0" using assms lead_ws_graphic[of "hd s" "tl s"] by simp
  moreover have "trail_ws s = 0" using assms trail_ws_graphic[of "last s" "butlast s"] by simp
  ultimately show ?thesis by (simp add: TrimSpace_def trim_left.simps trim_right.simps)
qed

text \<open>A trailing newline never matters to \<open>TrimSpace\<close>.\<close>

lemma lead_ws_newline: "s \<noteq> [] \<Longrightarrow> lead_ws (s @ [CHR 0x0A]) = lead_ws s"
proof -
  assume s: "s \<noteq> []"
  have "prefix u (s @ [CHR 0x0A]) = prefix u s" if "u \<in> set ws_runes" for u
  proof -
    have "u \<noteq> s @ [CHR 0x0A]"
      using that s by (cases s rule: rev_cases) (auto simp: ws_runes_def append_eq_Cons_conv)
    then show ?thesis by (simp add: prefix_snoc)
  qed
  then show ?thesis
    unfolding lead_ws_def by (simp cong: find_cong)
qed

lemma trail_ws_newline: "trail_ws (s @ [CHR 0x0A]) = 1"
  by (simp add: trail_ws_def ws_runes_def suffix_to_prefix)

lemma trim_right_newline: "trim_right (s @ [CHR 0x0A]) = trim_right s"
  by (subst trim_right.simps) (simp add: trail_ws_newline)

lemma trim_left_newline:
  "trim_left (s @ [CHR 0x0A]) = (if trim_left s = [] then [] else trim_left s @ [CHR 0x0A])"
proof (induction s rule: trim_left.induct)
  case (1 s)
  show ?case
  proof (cases "s = []")
    case True
    have "lead_ws [CHR 0x0A] = 1" by (simp add: lead_ws_def ws_runes_def)
    then show ?thesis using True by (simp add: trim_left.simps[of "[CHR 0x0A]"])
  next
    case False
    show ?thesis
    proof (cases "lead_ws s = 0")
      case True
      then show ?thesis
        using False by (simp add: trim_left.simps[of s] trim_left.simps[of "s @ _"] lead_ws_newline)
    next
      case nz: False
      have "trim_left (s @ [CHR 0x0A]) = trim_left (drop (lead_ws s) s @ [CHR 0x0A])"
        using nz False lead_ws_le[of s]
        by (simp add: trim_left.simps[of "s @ _"] lead_ws_newline)
      then show ?thesis using 1 nz by (simp add: trim_left.simps[of s])
    qed
  qed
qed

lemma TrimSpace_newline [simp]: "TrimSpace (s @ [CHR 0x0A]) = TrimSpace s"
  by (simp add: TrimSpace_def trim_left_newline trim_right_newline)

text \<open>The fields of a line that starts with a graphic word.\<close>

lemma fields_from_word:
  "\<forall>c \<in> set u. graphic c \<Longrightarrow> fields_from cur (u @ s) = fields_from (rev u @ cur) s"
proof (induction u arbitrary: cur)
  case Nil
  then show ?case by simp
next
  case (Cons c u)
  have "fields_from cur (c # u @ s) = fields_from (c # cur) (u @ s)"
    using Cons.prems by (subst fields_from.simps) (simp add: lead_ws_graphic)
  then show ?case using Cons by simp
qed

lemma Fields_word: "u \<noteq> [] \<Longrightarrow> \<forall>c \<in> set u. graphic c \<Longrightarrow> Fields u = [u]"
  using fields_from_word[of u "[]" "[]"] by (simp add: Fields_def fields_from.simps)

lemma Fields_word_space:
  assumes "u \<noteq> []" "\<forall>c \<in> set u. graphic c"
  shows "Fields (u @ CHR 0x20 # s) = u # fields_from [] s"
proof -
  have "lead_ws (CHR 0x20 # s) = 1" by (simp add: lead_ws_def ws_runes_def)
  then have "fields_from (rev u) (CHR 0x20 # s) = u # fields_from [] s"
    using assms by (subst fields_from.simps) simp
  then show ?thesis using fields_from_word[of u "[]" "CHR 0x20 # s"] assms by (simp add: Fields_def)
qed

lemma fields_from_nonempty: "u \<in> set (fields_from cur s) \<Longrightarrow> u \<noteq> []"
proof (induction cur s rule: fields_from.induct)
  case (1 cur s)
  then show ?case by (subst (asm) fields_from.simps) (auto split: if_splits)
qed

lemma Fields_nonempty: "u \<in> set (Fields s) \<Longrightarrow> u \<noteq> []"
  by (simp add: Fields_def fields_from_nonempty)

end
