(* ===== verification/Go_Format.thy ===== *)
theory Go_Format
  imports Go_Strings
begin

text \<open>
  Numbers and paths as text: the \<^verbatim>\<open>%d\<close> verb, \<^verbatim>\<open>strconv.Atoi\<close> and \<^verbatim>\<open>path/filepath\<close>'s Base,
  Clean and Dir.  The main fact is the round trip: \<open>Atoi\<close> reads back what \<^verbatim>\<open>%d\<close> wrote, white
  space around it included once it is trimmed.
\<close>

subsection \<open>Decimal numbers\<close>

definition digit :: "nat \<Rightarrow> char" where
  "digit n = char_of (48 + n)"

definition is_digit :: "char \<Rightarrow> bool" where
  "is_digit c \<longleftrightarrow> 48 \<le> (of_char c :: nat) \<and> (of_char c :: nat) \<le> 57"

definition digit_val :: "char \<Rightarrow> nat" where
  "digit_val c = of_char c - 48"

fun nat_str :: "nat \<Rightarrow> string" where
  "nat_str n = (if n < 10 then [digit n] else nat_str (n div 10) @ [digit (n mod 10)])"

declare nat_str.simps [simp del]

text \<open>The \<^verbatim>\<open>%d\<close> verb on an \<^verbatim>\<open>int\<close>.\<close>

definition itoa :: "int \<Rightarrow> string" where
  "itoa i = (if i < 0 then CHR ''-'' # nat_str (nat (- i)) else nat_str (nat i))"

definition digits_val :: "string \<Rightarrow> nat" where
  "digits_val ds = foldl (\<lambda>n c. 10 * n + digit_val c) 0 ds"

text \<open>
  \<^verbatim>\<open>strconv.Atoi\<close>: an optional sign, then one or more decimal digits, the value inside 64 bits;
  \<^term>\<open>None\<close> is any error (the callers only test for one).
\<close>

definition Atoi :: "string \<Rightarrow> int option" where
  "Atoi s =
     (let neg = (s \<noteq> [] \<and> hd s = CHR ''-'');
          ds = (if s \<noteq> [] \<and> (hd s = CHR ''-'' \<or> hd s = CHR ''+'') then tl s else s);
          n = int (digits_val ds)
      in if ds = [] \<or> \<not> list_all is_digit ds then None
         else if neg then (if n \<le> 2 ^ 63 then Some (- n) else None)
         else (if n < 2 ^ 63 then Some n else None))"

lemma digit_is_digit: "n < 10 \<Longrightarrow> is_digit (digit n)"
  by (simp add: digit_def is_digit_def)

lemma digit_val_digit: "n < 10 \<Longrightarrow> digit_val (digit n) = n"
  by (simp add: digit_def digit_val_def)

lemma nat_str_digits: "list_all is_digit (nat_str n)"
proof (induction n rule: nat_str.induct)
  case (1 n)
  then show ?case by (subst nat_str.simps) (auto simp: digit_is_digit)
qed

lemma nat_str_not_Nil [simp]: "nat_str n \<noteq> []"
  by (subst nat_str.simps) simp

lemma digits_val_nat_str: "digits_val (nat_str n) = n"
proof (induction n rule: nat_str.induct)
  case (1 n)
  then show ?case
    by (subst nat_str.simps) (auto simp: digits_val_def digit_val_digit)
qed

lemma nat_str_inj: "nat_str m = nat_str n \<Longrightarrow> m = n"
  by (metis digits_val_nat_str)

lemma is_digit_graphic: "is_digit c \<Longrightarrow> graphic c"
  by (simp add: is_digit_def graphic_def)

lemma nat_str_graphic: "\<forall>c \<in> set (nat_str n). graphic c"
  using nat_str_digits[of n] by (auto simp: list_all_iff is_digit_graphic)

lemma nat_str_hd: "hd (nat_str n) \<noteq> CHR ''-'' \<and> hd (nat_str n) \<noteq> CHR ''+''"
proof -
  have "is_digit (hd (nat_str n))"
    using nat_str_digits[of n] by (simp add: list_all_iff)
  then show ?thesis by (auto simp: is_digit_def)
qed

lemma itoa_of_nat: "itoa (int n) = nat_str n"
  by (simp add: itoa_def)

lemma itoa_graphic: "\<forall>c \<in> set (itoa i). graphic c"
  using nat_str_graphic by (auto simp: itoa_def graphic_def)

lemma itoa_not_Nil [simp]: "itoa i \<noteq> []"
  by (simp add: itoa_def)

lemma TrimSpace_itoa [simp]: "TrimSpace (itoa i) = itoa i"
  by (rule TrimSpace_graphic) (use itoa_graphic[of i] in auto)

text \<open>The round trip for every 64-bit value.\<close>

lemma Atoi_itoa: "- (2 ^ 63) \<le> i \<Longrightarrow> i < 2 ^ 63 \<Longrightarrow> Atoi (itoa i) = Some i"
  using nat_str_digits nat_str_hd
  by (auto simp: Atoi_def itoa_def digits_val_nat_str Let_def)

lemma Atoi_itoa_value: "Atoi (itoa i) = Some j \<Longrightarrow> j = i"
  using nat_str_digits nat_str_hd
  by (auto simp: Atoi_def itoa_def digits_val_nat_str Let_def split: if_splits)

lemma itoa_inj: "itoa i = itoa j \<Longrightarrow> i = j"
  using nat_str_hd
  by (auto simp: itoa_def split: if_splits dest: nat_str_inj)
    (metis list.sel(1))+

lemma Atoi_range: "Atoi s = Some i \<Longrightarrow> - (2 ^ 63) \<le> i \<and> i < 2 ^ 63"
  by (auto simp: Atoi_def Let_def split: if_splits)

subsection \<open>Paths\<close>

text \<open>\<^verbatim>\<open>filepath.Base\<close>, \<^verbatim>\<open>filepath.Clean\<close> and \<^verbatim>\<open>filepath.Dir\<close> on Unix.\<close>

definition Base :: "string \<Rightarrow> string" where
  "Base p =
     (if p = [] then ''.''
      else (let q = rev (dropWhile (\<lambda>c. c = CHR ''/'') (rev p))
            in if q = [] then ''/'' else last (Split q CHR ''/'')))"

definition clean_step :: "bool \<Rightarrow> string list \<Rightarrow> string \<Rightarrow> string list" where
  "clean_step rooted st c =
     (if c = ''..'' then
        (if st \<noteq> [] \<and> last st \<noteq> ''..'' then butlast st
         else if rooted then st else st @ [c])
      else st @ [c])"

definition Clean :: "string \<Rightarrow> string" where
  "Clean p =
     (if p = [] then ''.''
      else (let rooted = (hd p = CHR ''/'');
                parts = filter (\<lambda>c. c \<noteq> [] \<and> c \<noteq> ''.'') (Split p CHR ''/'');
                body = Join (foldl (clean_step rooted) [] parts) ''/''
            in if rooted then CHR ''/'' # body else if body = [] then ''.'' else body))"

definition Dir :: "string \<Rightarrow> string" where
  "Dir p = Clean (rev (dropWhile (\<lambda>c. c \<noteq> CHR ''/'') (rev p)))"

lemma Dir_examples:
  "Dir ''/etc/x-ui/xray.json'' = ''/etc/x-ui''"
  "Dir ''/a/../b//./c'' = ''/b''"
  "Dir ''name'' = ''.''"
  "Base ''/opt/3x-ui/db/x-ui.db'' = ''x-ui.db''"
  by code_simp+

end
