(* ===== verification/Go_Encoding.thy ===== *)
theory Go_Encoding
  imports Go_Format "HOL-Library.Word"
begin

text \<open>
  The byte encodings of Go's standard library that restore and transport rest on: hexadecimal,
  \<^verbatim>\<open>base64.StdEncoding\<close> and \<^verbatim>\<open>crypto/sha256\<close> (FIPS 180-4, over 32-bit words).  Base64 comes with
  its decoder, so that encoding is shown to lose nothing, and with its alphabet, which has no
  character a shell would treat specially.
\<close>

unbundle bit_operations_syntax

subsection \<open>Hexadecimal\<close>

definition hex_digit :: "nat \<Rightarrow> char" where
  "hex_digit n = ''0123456789abcdef'' ! n"

fun hex_encode :: "bytes \<Rightarrow> string" where
  "hex_encode [] = []"
| "hex_encode (c # cs) =
     (let n = of_char c :: nat in hex_digit (n div 16) # hex_digit (n mod 16) # hex_encode cs)"

subsection \<open>Base64\<close>

definition b64_alphabet :: string where
  "b64_alphabet = ''ABCDEFGHIJKLMNOPQRSTUVWXYZabcdefghijklmnopqrstuvwxyz0123456789+/''"

definition b64_digit :: "nat \<Rightarrow> char" where
  "b64_digit n = b64_alphabet ! n"

fun base64 :: "bytes \<Rightarrow> string" where
  "base64 [] = []"
| "base64 [a] =
     (let n = (of_char a :: nat)
      in [b64_digit (n div 4), b64_digit (n mod 4 * 16), CHR ''='', CHR ''=''])"
| "base64 [a, b] =
     (let n = (of_char a :: nat) * 256 + of_char b
      in [b64_digit (n div 1024), b64_digit (n div 16 mod 64), b64_digit (n mod 16 * 4), CHR ''=''])"
| "base64 (a # b # c # cs) =
     (let n = ((of_char a :: nat) * 256 + of_char b) * 256 + of_char c
      in b64_digit (n div 262144) # b64_digit (n div 4096 mod 64) # b64_digit (n div 64 mod 64)
         # b64_digit (n mod 64) # base64 cs)"

text \<open>The decoder of RFC 4648, for the texts \<open>base64\<close> produces.\<close>

definition b64_val :: "char \<Rightarrow> nat option" where
  "b64_val c = (case find (\<lambda>i. b64_alphabet ! i = c) [0..<64] of None \<Rightarrow> None | Some i \<Rightarrow> Some i)"

fun unbase64 :: "string \<Rightarrow> bytes option" where
  "unbase64 [] = Some []"
| "unbase64 (w # x # y # z # r) =
     (if z = CHR ''='' then
        (if r \<noteq> [] then None
         else if y = CHR ''='' then
           (case (b64_val w, b64_val x) of
              (Some i, Some j) \<Rightarrow> Some [char_of (i * 4 + j div 16)]
            | _ \<Rightarrow> None)
         else
           (case (b64_val w, b64_val x, b64_val y) of
              (Some i, Some j, Some k) \<Rightarrow>
                (let n = (i * 64 + j) * 64 + k in Some [char_of (n div 1024), char_of (n div 4 mod 256)])
            | _ \<Rightarrow> None))
      else
        (case (b64_val w, b64_val x, b64_val y, b64_val z) of
           (Some i, Some j, Some k, Some l) \<Rightarrow>
             (let n = ((i * 64 + j) * 64 + k) * 64 + l
              in map_option (\<lambda>cs. char_of (n div 65536) # char_of (n div 256 mod 256)
                                  # char_of (n mod 256) # cs) (unbase64 r))
         | _ \<Rightarrow> None))"
| "unbase64 _ = None"

subsection \<open>SHA-256\<close>

definition sha_k :: "32 word list" where
  "sha_k =
    [1116352408, 1899447441, 3049323471, 3921009573, 961987163, 1508970993, 2453635748, 2870763221,
     3624381080, 310598401, 607225278, 1426881987, 1925078388, 2162078206, 2614888103, 3248222580,
     3835390401, 4022224774, 264347078, 604807628, 770255983, 1249150122, 1555081692, 1996064986,
     2554220882, 2821834349, 2952996808, 3210313671, 3336571891, 3584528711, 113926993, 338241895,
     666307205, 773529912, 1294757372, 1396182291, 1695183700, 1986661051, 2177026350, 2456956037,
     2730485921, 2820302411, 3259730800, 3345764771, 3516065817, 3600352804, 4094571909, 275423344,
     430227734, 506948616, 659060556, 883997877, 958139571, 1322822218, 1537002063, 1747873779,
     1955562222, 2024104815, 2227730452, 2361852424, 2428436474, 2756734187, 3204031479, 3329325298]"

definition sha_h0 :: "32 word list" where
  "sha_h0 =
    [1779033703, 3144134277, 1013904242, 2773480762, 1359893119, 2600822924, 528734635, 1541459225]"

definition rotr :: "nat \<Rightarrow> 32 word \<Rightarrow> 32 word" where
  "rotr n x = drop_bit n x OR push_bit (32 - n) x"

definition be_bytes :: "nat \<Rightarrow> int \<Rightarrow> bytes" where
  "be_bytes k n = map (\<lambda>i. char_of (drop_bit (8 * i) n)) (rev [0..<k])"

definition sha_pad :: "bytes \<Rightarrow> bytes" where
  "sha_pad m =
     (let n = length m
      in m @ CHR 0x80 # replicate ((119 - n mod 64) mod 64) CHR 0x00
           @ be_bytes 8 (8 * int n mod 2 ^ 64))"

fun be_words :: "bytes \<Rightarrow> 32 word list" where
  "be_words (a # b # c # d # r) =
     word_of_int (((of_char a * 256 + of_char b) * 256 + of_char c) * 256 + of_char d) # be_words r"
| "be_words _ = []"

text \<open>The message schedule, kept newest word first while it is extended from 16 to 64 words.\<close>

fun sha_extend :: "nat \<Rightarrow> 32 word list \<Rightarrow> 32 word list" where
  "sha_extend 0 ws = ws"
| "sha_extend (Suc k) ws =
     (let w15 = ws ! 14; w2 = ws ! 1;
          s0 = rotr 7 w15 XOR rotr 18 w15 XOR drop_bit 3 w15;
          s1 = rotr 17 w2 XOR rotr 19 w2 XOR drop_bit 10 w2
      in sha_extend k ((ws ! 15 + s0 + ws ! 6 + s1) # ws))"

type_synonym sha_regs =
  "32 word \<times> 32 word \<times> 32 word \<times> 32 word \<times> 32 word \<times> 32 word \<times> 32 word \<times> 32 word"

fun sha_rounds :: "(32 word \<times> 32 word) list \<Rightarrow> sha_regs \<Rightarrow> sha_regs" where
  "sha_rounds [] r = r"
| "sha_rounds ((k, w) # kws) (a, b, c, d, e, f, g, h) =
     (let s1 = rotr 6 e XOR rotr 11 e XOR rotr 25 e;
          ch = (e AND f) XOR (NOT e AND g);
          t1 = h + s1 + ch + k + w;
          s0 = rotr 2 a XOR rotr 13 a XOR rotr 22 a;
          maj = (a AND b) XOR (a AND c) XOR (b AND c)
      in sha_rounds kws (t1 + (s0 + maj), a, b, c, d + t1, e, f, g))"

fun sha_block :: "sha_regs \<Rightarrow> 32 word list \<Rightarrow> sha_regs" where
  "sha_block (a, b, c, d, e, f, g, h) ws =
     (case sha_rounds (zip sha_k (rev (sha_extend 48 (rev ws)))) (a, b, c, d, e, f, g, h) of
        (a', b', c', d', e', f', g', h') \<Rightarrow>
          (a + a', b + b', c + c', d + d', e + e', f + f', g + g', h + h'))"

function sha_blocks :: "sha_regs \<Rightarrow> 32 word list \<Rightarrow> sha_regs" where
  "sha_blocks r ws =
     (if ws = [] then r else sha_blocks (sha_block r (take 16 ws)) (drop 16 ws))"
  by pat_completeness auto
termination
  by (relation "measure (\<lambda>(r, ws). length ws)") auto

declare sha_blocks.simps [simp del]

definition sha256 :: "bytes \<Rightarrow> bytes" where
  "sha256 m =
     (case sha_h0 of
        [a, b, c, d, e, f, g, h] \<Rightarrow>
          (case sha_blocks (a, b, c, d, e, f, g, h) (be_words (sha_pad m)) of
             (a', b', c', d', e', f', g', h') \<Rightarrow>
               concat (map (be_bytes 4 \<circ> uint) [a', b', c', d', e', f', g', h']))
      | _ \<Rightarrow> [])"

text \<open>\<^verbatim>\<open>hex.EncodeToString(sha256.Sum256(m)[:])\<close>.\<close>

definition sha256_hex :: "bytes \<Rightarrow> string" where
  "sha256_hex m = hex_encode (sha256 m)"

subsection \<open>Facts\<close>

lemma hex_digit_graphic:
  assumes "n < 16"
  shows "graphic (hex_digit n)"
proof -
  have "\<forall>c \<in> set ''0123456789abcdef''. graphic c" by (simp add: graphic_def)
  moreover have "hex_digit n \<in> set ''0123456789abcdef''"
    unfolding hex_digit_def using assms by (intro nth_mem) simp
  ultimately show ?thesis by blast
qed

lemma of_char_nat_lt: "(of_char c :: nat) < 256"
  by simp

lemma byte_digit_lt: "x < k \<Longrightarrow> b < 256 \<Longrightarrow> x * 256 + b < k * (256 :: nat)"
proof -
  assume "x < k" "b < 256"
  then have "x * 256 + b < (x + 1) * 256" by simp
  also have "\<dots> \<le> k * 256" using \<open>x < k\<close> by (intro mult_le_mono1) simp
  finally show ?thesis .
qed

lemma bytes2: "(of_char a :: nat) * 256 + of_char b < 256 * 256"
  by (intro byte_digit_lt of_char_nat_lt)

lemma bytes3: "((of_char a :: nat) * 256 + of_char b) * 256 + of_char c < 256 * 256 * 256"
  by (intro byte_digit_lt of_char_nat_lt)

lemma div_lt_64:
  "n < 256 \<Longrightarrow> n div 4 < (64 :: nat)"
  "n < 256 * 256 \<Longrightarrow> n div 1024 < (64 :: nat)"
  "n < 256 * 256 * 256 \<Longrightarrow> n div 262144 < (64 :: nat)"
  by (simp_all add: less_mult_imp_div_less)

text \<open>Cutting a number into 6-bit digits and putting it together again.\<close>

lemma digits_join: "n div (d * 64) * 64 + n div d mod 64 = n div (d :: nat)"
  by (simp add: div_mult2_eq)

lemma sextets:
  "n div 4 * 4 + n mod 4 * 16 div 16 = (n :: nat)"
  "((n div 1024 * 64 + n div 16 mod 64) * 64 + n mod 16 * 4) = (n :: nat) * 4"
  "(((n div 262144 * 64 + n div 4096 mod 64) * 64 + n div 64 mod 64) * 64 + n mod 64) = (n :: nat)"
proof -
  have "n div 16 * 64 + n mod 16 * 4 = (n div 16 * 16 + n mod 16) * 4" by (simp only: distrib_right)
  then have "n div 16 * 64 + n mod 16 * 4 = n * 4" by (simp only: div_mult_mod_eq)
  then show "((n div 1024 * 64 + n div 16 mod 64) * 64 + n mod 16 * 4) = n * 4"
    using digits_join[of n 16] by simp
  show "(((n div 262144 * 64 + n div 4096 mod 64) * 64 + n div 64 mod 64) * 64 + n mod 64) = n"
    using digits_join[of n 4096] digits_join[of n 64] digits_join[of n 1] by simp
qed simp

lemma byte_digit: "b < 256 \<Longrightarrow> (x * 256 + b) div 256 = (x :: nat)" "b < 256 \<Longrightarrow> (x * 256 + b) mod 256 = (b :: nat)"
  by simp_all

lemma octets2:
  "b < 256 \<Longrightarrow> (a * 256 + b) * 4 div 1024 = (a :: nat)"
  "b < 256 \<Longrightarrow> (a * 256 + b) * 4 div 4 mod 256 = (b :: nat)"
  using div_mult2_eq[of "(a * 256 + b) * 4" 4 256] byte_digit[of b a] by simp_all

lemma octets3:
  "b < 256 \<Longrightarrow> c < 256 \<Longrightarrow> ((a * 256 + b) * 256 + c) div 65536 = (a :: nat)"
  "b < 256 \<Longrightarrow> c < 256 \<Longrightarrow> ((a * 256 + b) * 256 + c) div 256 mod 256 = (b :: nat)"
  "b < 256 \<Longrightarrow> c < 256 \<Longrightarrow> ((a * 256 + b) * 256 + c) mod 256 = (c :: nat)"
  using div_mult2_eq[of "(a * 256 + b) * 256 + c" 256 256] byte_digit[of b a]
    byte_digit[of c "a * 256 + b"] by (simp_all only: byte_digit) simp

lemma hex_encode_graphic: "\<forall>c \<in> set (hex_encode m). graphic c"
proof (induction m)
  case Nil
  then show ?case by simp
next
  case (Cons c m)
  have "(of_char c :: nat) div 16 < 16"
    by (rule less_mult_imp_div_less) (simp add: of_char_nat_lt)
  then show ?case using Cons by (simp add: Let_def hex_digit_graphic)
qed

lemma length_hex_encode: "length (hex_encode m) = 2 * length m"
  by (induction m) (simp_all add: Let_def)

lemma length_sha256: "length (sha256 m) = 32"
  by (simp add: sha256_def sha_h0_def be_bytes_def split: prod.split)

lemma sha256_hex_graphic: "\<forall>c \<in> set (sha256_hex m). graphic c"
  by (simp add: sha256_hex_def hex_encode_graphic)

lemma length_sha256_hex: "length (sha256_hex m) = 64"
  by (simp add: sha256_hex_def length_hex_encode length_sha256)

lemma sha256_hex_not_Nil [simp]: "sha256_hex m \<noteq> []"
  using length_sha256_hex[of m] by auto

lemma length_b64_alphabet: "length b64_alphabet = 64"
  by (simp add: b64_alphabet_def)

lemma b64_digit_in: "n < 64 \<Longrightarrow> b64_digit n \<in> set b64_alphabet"
  by (simp add: b64_digit_def length_b64_alphabet)

text \<open>No base64 text holds a quote, a space or a newline.\<close>

lemma base64_alphabet: "set (base64 m) \<subseteq> insert CHR ''='' (set b64_alphabet)"
proof (induction m rule: base64.induct)
  case (4 a b c cs)
  then show ?case
    using div_lt_64(3)[OF bytes3] by (auto simp: Let_def b64_digit_in)
next
  case (3 a b)
  then show ?case
    using div_lt_64(2)[OF bytes2] by (auto simp: Let_def b64_digit_in)
next
  case (2 a)
  then show ?case
    using div_lt_64(1)[OF of_char_nat_lt] by (auto simp: Let_def b64_digit_in)
qed simp

lemma b64_val_digit:
  assumes "n < 64"
  shows "b64_val (b64_digit n) = Some n"
proof -
  have "\<forall>i \<in> set [0..<64]. b64_val (b64_digit i) = Some i" by code_simp
  then show ?thesis using assms by simp
qed

lemma b64_digit_not_pad: "n < 64 \<Longrightarrow> b64_digit n \<noteq> CHR ''=''"
proof
  assume "n < 64" "b64_digit n = CHR ''=''"
  then have "CHR ''='' \<in> set b64_alphabet" using b64_digit_in by metis
  then show False by (simp add: b64_alphabet_def)
qed

text \<open>The three groups of digits, decoded.\<close>

lemma unbase64_one:
  assumes "i < 64" "j < 64"
  shows "unbase64 [b64_digit i, b64_digit j, CHR ''='', CHR ''=''] = Some [char_of (i * 4 + j div 16)]"
  using assms by (simp add: b64_val_digit)

lemma unbase64_two:
  assumes "i < 64" "j < 64" "k < 64"
  shows "unbase64 [b64_digit i, b64_digit j, b64_digit k, CHR ''='']
    = (let n = (i * 64 + j) * 64 + k in Some [char_of (n div 1024), char_of (n div 4 mod 256)])"
  using assms by (simp add: b64_val_digit b64_digit_not_pad)

lemma unbase64_four:
  assumes "i < 64" "j < 64" "k < 64" "l < 64"
  shows "unbase64 (b64_digit i # b64_digit j # b64_digit k # b64_digit l # r)
    = (let n = ((i * 64 + j) * 64 + k) * 64 + l
       in map_option (\<lambda>cs. char_of (n div 65536) # char_of (n div 256 mod 256)
                           # char_of (n mod 256) # cs) (unbase64 r))"
  using assms by (simp add: b64_val_digit b64_digit_not_pad)

text \<open>The round trip: decoding gives back every byte sequence.\<close>

lemma unbase64_base64: "unbase64 (base64 m) = Some m"
proof (induction m rule: base64.induct)
  case 1
  then show ?case by simp
next
  case (2 a)
  have "n mod 4 * 16 < (64 :: nat)" for n by simp
  then show ?case
    using div_lt_64(1)[OF of_char_nat_lt[of a]]
    by (simp only: base64.simps Let_def unbase64_one sextets char_of_char)
next
  case (3 a b)
  have "n div 16 mod 64 < (64 :: nat)" "n mod 16 * 4 < (64 :: nat)" for n by simp_all
  then show ?case
    using div_lt_64(2)[OF bytes2[of a b]]
    by (simp only: base64.simps Let_def unbase64_two sextets octets2 of_char_nat_lt char_of_char)
next
  case (4 a b c cs)
  have "n div 4096 mod 64 < (64 :: nat)" "n div 64 mod 64 < (64 :: nat)" "n mod 64 < (64 :: nat)" for n
    by simp_all
  then show ?case
    using 4[OF refl] div_lt_64(3)[OF bytes3[of a b c]]
    by (simp only: base64.simps Let_def unbase64_four sextets octets3 of_char_nat_lt char_of_char option.map)
qed

lemma base64_inj: "base64 m = base64 m' \<Longrightarrow> m = m'"
  by (metis option.inject unbase64_base64)

end
