(* ===== verification/Runner.thy ===== *)
theory Runner
  imports Go_Encoding
begin

text \<open>
  \<^verbatim>\<open>pkg/sshutil/runner.go\<close> and \<^verbatim>\<open>internal/mocks/mock_sshutil.go\<close>: the interface every
  component talks to a server through, its implementation over the SSH library, and the mock
  the project's tests use.

  The state \<^typ>\<open>'w\<close> is the whole world behind the client.  \<^verbatim>\<open>golang.org/x/crypto/ssh\<close> and the
  file system of the local machine are not part of the repository: they are the fields of a
  record that the definitions take as an argument.
\<close>

type_synonym reply = "string \<times> string option"

text \<open>\<^verbatim>\<open>SSHRunner\<close>: the two methods.  An error is its text; \<^term>\<open>None\<close> is nil.\<close>

record 'w SSHRunner =
  Run :: "string \<Rightarrow> ('w, reply) state"
  Close :: "('w, string option) state"

subsection \<open>The SSH client\<close>

record 'key ClientConfig =
  cc_User :: string
  cc_Auth :: 'key
  cc_InsecureIgnoreHostKey :: bool
  cc_TimeoutSeconds :: int

record ('key, 'conn, 'sess, 'w) ssh_lib =
  ReadFile :: "string \<Rightarrow> ('w, string + bytes) state"
  ParsePrivateKey :: "bytes \<Rightarrow> string + 'key"
  Dial :: "string \<Rightarrow> string \<Rightarrow> 'key ClientConfig \<Rightarrow> ('w, string + 'conn) state"
  NewSession :: "'conn \<Rightarrow> ('w, string + 'sess) state"
  CombinedOutput :: "'sess \<Rightarrow> string \<Rightarrow> ('w, bytes \<times> string option) state"
  CloseSession :: "'sess \<Rightarrow> ('w, string option) state"
  CloseConn :: "'conn \<Rightarrow> ('w, string option) state"

definition ssh_addr :: "string \<Rightarrow> int \<Rightarrow> string" where
  "ssh_addr host port = host @ '':'' @ itoa port"

definition NewSSHClient ::
  "('key, 'conn, 'sess, 'w) ssh_lib \<Rightarrow> string \<Rightarrow> string \<Rightarrow> int \<Rightarrow> string \<Rightarrow> ('w, string + 'conn) state"
where
  "NewSSHClient lib user host port keyPath = do {
     r \<leftarrow> ReadFile lib keyPath;
     (case r of
        Inl err \<Rightarrow> State_Monad.return (Inl (''unable to read private key: '' @ err))
      | Inr key \<Rightarrow>
          (case ParsePrivateKey lib key of
             Inl err \<Rightarrow> State_Monad.return (Inl (''unable to parse private key: '' @ err))
           | Inr signer \<Rightarrow> do {
               d \<leftarrow> Dial lib ''tcp'' (ssh_addr host port)
                     \<lparr>cc_User = user, cc_Auth = signer, cc_InsecureIgnoreHostKey = True,
                      cc_TimeoutSeconds = 15\<rparr>;
               (case d of
                  Inl err \<Rightarrow> State_Monad.return (Inl (''failed to dial: '' @ err))
                | Inr conn \<Rightarrow> State_Monad.return (Inr conn)) })) }"

definition SSHClient_Run ::
  "('key, 'conn, 'sess, 'w) ssh_lib \<Rightarrow> 'conn \<Rightarrow> string \<Rightarrow> ('w, reply) state"
where
  "SSHClient_Run lib conn cmd = do {
     s \<leftarrow> NewSession lib conn;
     (case s of
        Inl err \<Rightarrow> State_Monad.return ([], Some err)
      | Inr session \<Rightarrow> do {
          (out, err) \<leftarrow> CombinedOutput lib session cmd;
          _ \<leftarrow> CloseSession lib session;
          State_Monad.return (out, map_option (\<lambda>e. ''command failed: '' @ e) err) }) }"

definition SSHClient_Close :: "('key, 'conn, 'sess, 'w) ssh_lib \<Rightarrow> 'conn \<Rightarrow> ('w, string option) state" where
  "SSHClient_Close lib conn = CloseConn lib conn"

definition ssh_client :: "('key, 'conn, 'sess, 'w) ssh_lib \<Rightarrow> 'conn \<Rightarrow> 'w SSHRunner" where
  "ssh_client lib conn = \<lparr>Run = SSHClient_Run lib conn, Close = SSHClient_Close lib conn\<rparr>"

subsection \<open>The mock\<close>

record MockOutcome =
  Response :: string
  Err :: "string option"

record MockScript =
  script_Contains :: string
  Outcomes :: "MockOutcome list"

record MockSSHRunner =
  Responses :: "string gomap"
  Scripts :: "MockScript list"
  Commands :: "string list"

definition NewMockSSHRunner :: "string gomap option \<Rightarrow> MockSSHRunner" where
  "NewMockSSHRunner responses =
     \<lparr>Responses = (case responses of None \<Rightarrow> [] | Some m \<Rightarrow> m), Scripts = [], Commands = []\<rparr>"

text \<open>The loop over the scripts: the reply of the first that matches, and the scripts after it.\<close>

fun mock_scripts :: "string \<Rightarrow> MockScript list \<Rightarrow> (reply \<times> MockScript list) option" where
  "mock_scripts cmd [] = None"
| "mock_scripts cmd (sc # scs) =
     (if Contains cmd (script_Contains sc) then
        (case Outcomes sc of
           [] \<Rightarrow> Some (([], None), sc # scs)
         | out # outs \<Rightarrow> Some ((Response out, Err out), sc\<lparr>Outcomes := outs\<rparr> # scs))
      else map_option (\<lambda>(r, scs'). (r, sc # scs')) (mock_scripts cmd scs))"

fun mock_responses :: "string \<Rightarrow> string gomap \<Rightarrow> reply" where
  "mock_responses cmd [] = ([], Some ''not found'')"
| "mock_responses cmd ((k, v) # m) = (if Contains cmd k then (v, None) else mock_responses cmd m)"

definition Mock_Run :: "string \<Rightarrow> (MockSSHRunner, reply) state" where
  "Mock_Run cmd = State (\<lambda>m0.
     let m = m0\<lparr>Commands := Commands m0 @ [cmd]\<rparr> in
     case mock_scripts cmd (Scripts m) of
       Some (r, scs) \<Rightarrow> (r, m\<lparr>Scripts := scs\<rparr>)
     | None \<Rightarrow> (mock_responses cmd (Responses m), m))"

definition mock_client :: "MockSSHRunner SSHRunner" where
  "mock_client = \<lparr>Run = Mock_Run, Close = State_Monad.return None\<rparr>"

subsection \<open>Recording what is sent\<close>

text \<open>
  \<open>traced client\<close> is any client with a record of its commands and their replies kept beside its
  world.  The theorems on what a component sends are about traced clients; nothing the component
  can see differs from the client itself.
\<close>

type_synonym trace = "(string \<times> reply) list"

definition traced :: "'w SSHRunner \<Rightarrow> ('w \<times> trace) SSHRunner" where
  "traced client =
     \<lparr>Run = (\<lambda>cmd. State (\<lambda>(w, tr).
        case run_state (Run client cmd) w of (r, w') \<Rightarrow> (r, (w', tr @ [(cmd, r)])))),
      Close = State (\<lambda>(w, tr). case run_state (Close client) w of (r, w') \<Rightarrow> (r, (w', tr)))\<rparr>"

lemma traced_Run:
  "fst (run_state (Run (traced client) cmd) x) = fst (run_state (Run client cmd) (fst x))"
  "fst (snd (run_state (Run (traced client) cmd) x)) = snd (run_state (Run client cmd) (fst x))"
  by (auto simp: traced_def split: prod.splits)

text \<open>The trace and the commands of a program started in world \<open>w\<close>, and the value it returns.\<close>

definition trace_of :: "('w \<times> trace, 'a) state \<Rightarrow> 'w \<Rightarrow> trace" where
  "trace_of m w = snd (snd (run_state m (w, [])))"

definition cmds_of :: "('w \<times> trace, 'a) state \<Rightarrow> 'w \<Rightarrow> string list" where
  "cmds_of m w = map fst (trace_of m w)"

definition result_of :: "('w \<times> trace, 'a) state \<Rightarrow> 'w \<Rightarrow> 'a" where
  "result_of m w = fst (run_state m (w, []))"

definition reply_ok :: "string \<times> reply \<Rightarrow> bool" where
  "reply_ok e \<longleftrightarrow> snd (snd e) = None"

text \<open>\<open>sends log m w es\<close>: the program \<open>m\<close>, started in \<open>w\<close>, appends \<open>es\<close> to the log.\<close>

definition sends :: "('w \<Rightarrow> 'e list) \<Rightarrow> ('w, 'a) state \<Rightarrow> 'w \<Rightarrow> 'e list \<Rightarrow> bool" where
  "sends log m w es \<longleftrightarrow> log (snd (run_state m w)) = log w @ es"

lemma sends_return [simp]: "sends log (State_Monad.return a) w es \<longleftrightarrow> es = []"
  by (auto simp: sends_def)

lemma sends_bind:
  "sends log m w es \<Longrightarrow> sends log (f (fst (run_state m w))) (snd (run_state m w)) ds \<Longrightarrow>
   sends log (m \<bind> f) w (es @ ds)"
  by (cases "run_state m w") (simp add: sends_def)

lemma sends_unique: "sends log m w es \<Longrightarrow> sends log m w ds \<Longrightarrow> es = ds"
  by (simp add: sends_def)

text \<open>
  The contract that components rely on when their commands are counted: the client's world keeps
  a log to which each \<open>Run\<close> appends exactly its command.  A client that records the replies too
  gives the same contract for the commands alone.
\<close>

locale command_log =
  fixes client :: "'w SSHRunner"
    and log :: "'w \<Rightarrow> string list"
  assumes log_Run: "log (snd (run_state (Run client cmd) w)) = log w @ [cmd]"
begin

lemma sends_Run: "sends log (Run client cmd) w es \<longleftrightarrow> es = [cmd]"
  by (auto simp: sends_def log_Run)

lemma sends_Run_bind:
  assumes "sends log (f (fst (run_state (Run client cmd) w))) (snd (run_state (Run client cmd) w)) es"
  shows "sends log (Run client cmd \<bind> f) w (cmd # es)"
proof -
  have "sends log (Run client cmd) w [cmd]" by (simp add: sends_Run)
  from sends_bind[of log "Run client cmd" w "[cmd]" f, OF this assms] show ?thesis by simp
qed

end

lemma for_each_sends:
  assumes "\<And>x s w. x \<in> set xs \<Longrightarrow> sends log (f x s) w [c x]"
  shows "sends log (for_each f xs s) w (map c xs)"
  using assms
proof (induction xs arbitrary: s w)
  case Nil
  then show ?case by simp
next
  case (Cons x xs)
  have "sends log (f x s) w [c x]" using Cons.prems by simp
  from sends_bind[OF this, of "for_each f xs"] show ?case using Cons by simp
qed

locale reply_log =
  fixes client :: "'w SSHRunner"
    and rlog :: "'w \<Rightarrow> trace"
  assumes rlog_Run:
    "rlog (snd (run_state (Run client cmd) w)) = rlog w @ [(cmd, fst (run_state (Run client cmd) w))]"
begin

lemma sends_Run_reply: "sends rlog (Run client cmd) w [(cmd, fst (run_state (Run client cmd) w))]"
  by (simp add: sends_def rlog_Run)

end

sublocale reply_log \<subseteq> commands: command_log client "\<lambda>w. map fst (rlog w)"
  by unfold_locales (simp add: rlog_Run)

interpretation mock: command_log mock_client Commands
  by unfold_locales (auto simp: mock_client_def Mock_Run_def Let_def split: option.splits)

interpretation traced: reply_log "traced client" snd for client :: "'w SSHRunner"
  by unfold_locales (auto simp: traced_def split: prod.splits)

lemma trace_of_sends: "sends snd m (w, []) es \<Longrightarrow> trace_of m w = es"
  by (simp add: sends_def trace_of_def)

lemma cmds_of_sends: "sends (\<lambda>w. map fst (snd w)) m (w, []) cs \<Longrightarrow> cmds_of m w = cs"
  by (simp add: sends_def cmds_of_def trace_of_def)

subsection \<open>Commands run until one fails\<close>

text \<open>
  \<open>check wrap m\<close> is \<^verbatim>\<open>if _, err := m; err != nil { return wrap(err) }\<close>, and \<open>and_then\<close> goes on with
  the rest of the function when no error was returned.
\<close>

definition check :: "(string \<Rightarrow> 'e) \<Rightarrow> ('w, reply) state \<Rightarrow> ('w, 'e option) state" where
  "check wrap m = do { (out, err) \<leftarrow> m; State_Monad.return (map_option wrap err) }"

definition and_then :: "('w, 'e option) state \<Rightarrow> ('w, 'e option) state \<Rightarrow> ('w, 'e option) state" where
  "and_then m k = do {
     e \<leftarrow> m;
     (case e of Some err \<Rightarrow> State_Monad.return (Some err) | None \<Rightarrow> k) }"

text \<open>\<open>wrap_error\<close> is \<^verbatim>\<open>if err := m; err != nil { return fmt.Errorf("...: %w", err) }\<close>.\<close>

definition wrap_error :: "('e \<Rightarrow> 'f) \<Rightarrow> ('w, 'e option) state \<Rightarrow> ('w, 'f option) state" where
  "wrap_error wrap m = do { e \<leftarrow> m; State_Monad.return (map_option wrap e) }"

text \<open>
  A plan is what such a function amounts to: commands in order, each with the error that its
  failure turns into.
\<close>

type_synonym 'e plan = "(string \<times> (string \<Rightarrow> 'e)) list"

definition run_plan :: "'w SSHRunner \<Rightarrow> 'e plan \<Rightarrow> ('w, 'e option) state" where
  "run_plan client plan = until_error (\<lambda>(cmd, wrap). check wrap (Run client cmd)) plan"

lemma and_then_assoc: "and_then (and_then a b) c = and_then a (and_then b c)"
  by (rule state_ext) (auto simp: and_then_def split: prod.splits option.splits)

lemma and_then_return_None [simp]: "and_then (State_Monad.return None) k = k"
  by (rule state_ext) (simp add: and_then_def)

lemma and_then_right_None [simp]: "and_then m (State_Monad.return None) = m"
  by (rule state_ext) (auto simp: and_then_def split: prod.splits option.splits)

lemma until_error_Cons: "until_error f (x # xs) = and_then (f x) (until_error f xs)"
  by (rule state_ext) (auto simp: and_then_def split: prod.splits option.splits)

lemma run_plan_Nil [simp]: "run_plan client [] = State_Monad.return None"
  by (simp add: run_plan_def)

lemma run_plan_Cons:
  "run_plan client ((cmd, wrap) # p) = and_then (check wrap (Run client cmd)) (run_plan client p)"
  by (simp add: run_plan_def until_error_Cons del: until_error.simps)

lemma run_plan_append: "run_plan client (p @ q) = and_then (run_plan client p) (run_plan client q)"
  by (induction p) (auto simp: run_plan_Cons and_then_assoc)

lemma check_wrap: "wrap_error g (check f m) = check (g \<circ> f) m"
  by (rule state_ext) (auto simp: wrap_error_def check_def option.map_comp split: prod.splits)

lemma wrap_error_return [simp]:
  "wrap_error f (State_Monad.return e) = State_Monad.return (map_option f e)"
  by (rule state_ext) (simp add: wrap_error_def)

lemma wrap_error_and_then:
  "wrap_error f (and_then a b) = and_then (wrap_error f a) (wrap_error f b)"
  by (rule state_ext) (auto simp: wrap_error_def and_then_def split: prod.splits option.splits)

lemma wrap_error_run_plan:
  "wrap_error g (run_plan client p) = run_plan client (map (\<lambda>(c, f). (c, g \<circ> f)) p)"
  by (induction p) (auto simp: run_plan_Cons wrap_error_and_then check_wrap comp_def)

text \<open>
  What running a plan sends: a beginning of the plan, every command of it answered without an
  error but the last one, which failed exactly when the plan returned its error.
\<close>

definition plan_outcome :: "'e plan \<Rightarrow> trace \<Rightarrow> 'e option \<Rightarrow> bool" where
  "plan_outcome p es r \<longleftrightarrow>
     (case r of
        None \<Rightarrow> map fst es = map fst p \<and> list_all reply_ok es
      | Some e \<Rightarrow> (\<exists>q cmd wrap q' es' out err. p = q @ (cmd, wrap) # q' \<and> es = es' @ [(cmd, (out, Some err))] \<and>
                   map fst es' = map fst q \<and> list_all reply_ok es' \<and> e = wrap err))"

lemma plan_outcome_Nil: "plan_outcome [] [] None"
  by (simp add: plan_outcome_def)

lemma plan_outcome_failI:
  assumes "p = q @ (cmd, wrap) # q'" "es = es' @ [(cmd, (out, Some err))]"
    "map fst es' = map fst q" "list_all reply_ok es'"
  shows "plan_outcome p es (Some (wrap err))"
  using assms unfolding plan_outcome_def option.case by blast

lemma plan_outcome_fail: "plan_outcome ((cmd, wrap) # p) [(cmd, (out, Some err))] (Some (wrap err))"
  by (rule plan_outcome_failI[where q = "[]" and es' = "[]"]) simp_all

lemma plan_outcome_step:
  assumes "plan_outcome p es r"
  shows "plan_outcome ((cmd, wrap) # p) ((cmd, (out, None)) # es) r"
proof (cases r)
  case None
  then show ?thesis using assms by (simp add: plan_outcome_def reply_ok_def)
next
  case (Some e)
  then obtain q c f q' es' o' err where
    "p = q @ (c, f) # q'" "es = es' @ [(c, (o', Some err))]" "map fst es' = map fst q"
    "list_all reply_ok es'" "e = f err"
    using assms unfolding plan_outcome_def by auto
  then show ?thesis
    using Some
    by (auto intro!: plan_outcome_failI[where q = "(cmd, wrap) # q" and es' = "(cmd, (out, None)) # es'"]
        simp: reply_ok_def)
qed

context reply_log
begin

lemma run_plan_trace:
  "\<exists>es. sends rlog (run_plan client p) w es \<and> plan_outcome p es (fst (run_state (run_plan client p) w))"
proof (induction p arbitrary: w)
  case Nil
  show ?case by (simp add: plan_outcome_Nil)
next
  case (Cons a p)
  obtain cmd wrap where a: "a = (cmd, wrap)" by fastforce
  obtain out err w' where r: "run_state (Run client cmd) w = ((out, err), w')"
    by (metis prod.exhaust)
  have log: "rlog w' = rlog w @ [(cmd, (out, err))]" using rlog_Run[of cmd w] r by simp
  show ?case
  proof (cases err)
    case None
    obtain es where es: "sends rlog (run_plan client p) w' es"
      "plan_outcome p es (fst (run_state (run_plan client p) w'))" using Cons by blast
    have run: "run_state (run_plan client (a # p)) w = run_state (run_plan client p) w'"
      using r None a by (simp add: run_plan_Cons and_then_def check_def)
    have "sends rlog (run_plan client (a # p)) w ((cmd, (out, err)) # es)"
      using es(1) log by (simp add: sends_def run)
    then show ?thesis using plan_outcome_step[OF es(2)] run None a by auto
  next
    case (Some e)
    have run: "run_state (run_plan client (a # p)) w = (Some (wrap e), w')"
      using r Some a by (simp add: run_plan_Cons and_then_def check_def)
    have "sends rlog (run_plan client (a # p)) w [(cmd, (out, err))]"
      using log by (simp add: sends_def run)
    then show ?thesis using plan_outcome_fail[of cmd wrap p out e] run Some a by auto
  qed
qed

end

text \<open>The same facts for the trace of a plan run from an empty record.\<close>

lemma run_plan_traced:
  "plan_outcome p (trace_of (run_plan (traced client) p) w) (result_of (run_plan (traced client) p) w)"
  using traced.run_plan_trace[of client p "(w, [])"]
  by (auto simp: sends_def trace_of_def result_of_def)

lemma plan_outcome_prefix: "plan_outcome p es r \<Longrightarrow> prefix (map fst es) (map fst p)"
  by (auto simp: plan_outcome_def prefix_def split: option.splits)

lemma plan_outcome_ok_before:
  "plan_outcome p (es @ e # es') r \<Longrightarrow> list_all reply_ok es"
  by (cases es' rule: rev_cases)
    (auto simp: plan_outcome_def append_eq_append_conv2 Cons_eq_append_conv split: option.splits)

subsection \<open>Policies\<close>

text \<open>
  \<open>policy log P m\<close>: wherever the program \<open>m\<close> starts, it only appends to the log, and only entries
  that satisfy \<open>P\<close>.  The rules follow the shapes programs are built from.
\<close>

definition policy :: "('w \<Rightarrow> 'e list) \<Rightarrow> ('e \<Rightarrow> bool) \<Rightarrow> ('w, 'a) state \<Rightarrow> bool" where
  "policy log P m \<longleftrightarrow> (\<forall>w. \<exists>es. sends log m w es \<and> list_all P es)"

named_theorems policy_intros

lemma policyD: "policy log P m \<Longrightarrow> \<exists>es. sends log m w es \<and> list_all P es"
  by (simp add: policy_def)

lemma policy_return [policy_intros]: "policy log P (State_Monad.return a)"
  by (simp add: policy_def)

lemma policy_bind [policy_intros]:
  assumes "policy log P m" "\<And>a. policy log P (f a)"
  shows "policy log P (m \<bind> f)"
  unfolding policy_def
proof
  fix w
  obtain es where es: "sends log m w es" "list_all P es" using policyD[OF assms(1)] by blast
  obtain ds where "sends log (f (fst (run_state m w))) (snd (run_state m w)) ds" "list_all P ds"
    using policyD[OF assms(2)] by blast
  then show "\<exists>es. sends log (m \<bind> f) w es \<and> list_all P es"
    using sends_bind[OF es(1)] es(2) by (metis list_all_append)
qed

lemma policy_check [policy_intros]: "policy log P m \<Longrightarrow> policy log P (check f m)"
  unfolding check_def by (rule policy_bind) (auto intro: policy_return split: prod.split)

lemma policy_and_then [policy_intros]:
  "policy log P m \<Longrightarrow> policy log P k \<Longrightarrow> policy log P (and_then m k)"
  unfolding and_then_def by (rule policy_bind) (auto intro: policy_return split: option.split)

lemma policy_wrap_error [policy_intros]: "policy log P m \<Longrightarrow> policy log P (wrap_error f m)"
  unfolding wrap_error_def by (auto intro: policy_bind policy_return)

lemma policy_until_error [policy_intros]:
  "(\<And>x. x \<in> set xs \<Longrightarrow> policy log P (f x)) \<Longrightarrow> policy log P (until_error f xs)"
  by (induction xs) (auto simp: until_error_Cons simp del: until_error.simps(2) intro: policy_intros)

lemma policy_for_each [policy_intros]:
  "(\<And>x s. x \<in> set xs \<Longrightarrow> policy log P (f x s)) \<Longrightarrow> policy log P (for_each f xs s)"
  by (induction xs arbitrary: s) (auto intro: policy_intros)

lemma policy_first_ok [policy_intros]:
  "(\<And>x. x \<in> set xs \<Longrightarrow> policy log P (f x)) \<Longrightarrow> policy log P (first_ok f xs)"
  by (induction xs) (auto intro!: policy_intros split: option.split)

lemma policy_if [policy_intros]:
  "(b \<Longrightarrow> policy log P m) \<Longrightarrow> (\<not> b \<Longrightarrow> policy log P k) \<Longrightarrow> policy log P (if b then m else k)"
  by simp

lemma policy_option [policy_intros]:
  "(x = None \<Longrightarrow> policy log P m) \<Longrightarrow> (\<And>a. x = Some a \<Longrightarrow> policy log P (f a)) \<Longrightarrow>
   policy log P (case x of None \<Rightarrow> m | Some a \<Rightarrow> f a)"
  by (cases x) simp_all

lemma policy_sum [policy_intros]:
  "(\<And>a. x = Inl a \<Longrightarrow> policy log P (f a)) \<Longrightarrow> (\<And>b. x = Inr b \<Longrightarrow> policy log P (g b)) \<Longrightarrow>
   policy log P (case x of Inl a \<Rightarrow> f a | Inr b \<Rightarrow> g b)"
  by (cases x) simp_all

lemma policy_prod [policy_intros]:
  "(\<And>a b. x = (a, b) \<Longrightarrow> policy log P (f a b)) \<Longrightarrow> policy log P (case x of (a, b) \<Rightarrow> f a b)"
  by (cases x) simp

lemma policy_mono: "policy log P m \<Longrightarrow> (\<And>e. P e \<Longrightarrow> Q e) \<Longrightarrow> policy log Q m"
  unfolding policy_def using list.pred_mono_strong by metis

context command_log
begin

lemma policy_Run [policy_intros]: "P cmd \<Longrightarrow> policy log P (Run client cmd)"
  unfolding policy_def by (intro allI exI[of _ "[cmd]"]) (simp add: sends_Run)

end

context reply_log
begin

lemma policy_Run_reply [policy_intros]: "(\<And>r. P (cmd, r)) \<Longrightarrow> policy rlog P (Run client cmd)"
  unfolding policy_def using sends_Run_reply by fastforce

end

lemma policy_traced_Run [policy_intros]: "(\<And>r. P (cmd, r)) \<Longrightarrow> policy snd P (Run (traced client) cmd)"
  by (rule traced.policy_Run_reply)

lemma policy_trace_of: "policy snd P m \<Longrightarrow> list_all P (trace_of m w)"
  using policyD trace_of_sends by fastforce

lemma policy_cmds_of: "policy snd (\<lambda>e. P (fst e)) m \<Longrightarrow> list_all P (cmds_of m w)"
  using policy_trace_of[of "\<lambda>e. P (fst e)" m w] by (simp add: cmds_of_def list_all_iff)

lemma sends_and_then:
  assumes "sends log m w es" "sends log k (snd (run_state m w)) ds"
  shows "sends log (and_then m k) w (if fst (run_state m w) = None then es @ ds else es)"
  using assms by (cases "run_state m w") (auto simp: sends_def and_then_def split: option.splits)

lemma sends_wrap_error: "sends log m w es \<Longrightarrow> sends log (wrap_error f m) w es"
  by (cases "run_state m w") (simp add: sends_def wrap_error_def)

lemma fst_wrap_error: "fst (run_state (wrap_error f m) w) = map_option f (fst (run_state m w))"
  by (simp add: wrap_error_def split: prod.splits)

text \<open>What three stages send, the second and third only when those before them succeeded.\<close>

lemma sends_three_stages:
  assumes a: "sends log m1 w a" and h: "sends log m2 (snd (run_state m1 w)) h"
    and d: "sends log m3 (snd (run_state m2 (snd (run_state m1 w)))) d"
  shows "\<exists>h' d'. sends log (and_then m1 (and_then m2 m3)) w (a @ h' @ d') \<and>
    (h' = [] \<and> d' = [] \<or>
     h' = h \<and> (d' = [] \<or> d' = d \<and> fst (run_state m2 (snd (run_state m1 w))) = None))"
proof (cases "fst (run_state m1 w)")
  case (Some e)
  then show ?thesis
    using sends_and_then[OF a sends_and_then[OF h d]] by (intro exI[of _ "[]"]) simp
next
  case ok1: None
  show ?thesis
  proof (cases "fst (run_state m2 (snd (run_state m1 w)))")
    case None
    then show ?thesis
      using ok1 sends_and_then[OF a sends_and_then[OF h d]] by (intro exI[of _ h] exI[of _ d]) simp
  next
    case (Some e)
    then show ?thesis
      using ok1 sends_and_then[OF a sends_and_then[OF h d]] by (intro exI[of _ h] exI[of _ "[]"]) simp
  qed
qed

text \<open>
  A loop that sends one command for each element and grades the reply: what it sends, and its
  result as a fold over the replies.
\<close>

context reply_log
begin

lemma for_each_graded:
  "\<exists>rs. length rs = length cs \<and>
     sends rlog (for_each (\<lambda>c s. do { (out, _) \<leftarrow> Run client (cmd c); State_Monad.return (g c out s) }) cs s) w
       (zip (map cmd cs) rs) \<and>
     fst (run_state (for_each (\<lambda>c s. do { (out, _) \<leftarrow> Run client (cmd c); State_Monad.return (g c out s) }) cs s) w)
       = fold (\<lambda>(c, r). g c (fst r)) (zip cs rs) s"
proof (induction cs arbitrary: s w)
  case Nil
  then show ?case by simp
next
  case (Cons c cs)
  obtain out err w' where r: "run_state (Run client (cmd c)) w = ((out, err), w')" by (metis prod.exhaust)
  have log: "rlog w' = rlog w @ [(cmd c, (out, err))]" using rlog_Run[of "cmd c" w] r by simp
  obtain rs where rs: "length rs = length cs"
    "sends rlog (for_each (\<lambda>c s. do { (out, _) \<leftarrow> Run client (cmd c); State_Monad.return (g c out s) }) cs (g c out s)) w'
       (zip (map cmd cs) rs)"
    "fst (run_state (for_each (\<lambda>c s. do { (out, _) \<leftarrow> Run client (cmd c); State_Monad.return (g c out s) }) cs (g c out s)) w')
       = fold (\<lambda>(c, r). g c (fst r)) (zip cs rs) (g c out s)"
    using Cons[of "g c out s" w'] by blast
  show ?case
    by (rule exI[of _ "(out, err) # rs"]) (use rs r log in \<open>simp add: sends_def\<close>)
qed

end

subsection \<open>Here-documents\<close>

text \<open>
  The command with which the program writes a text to a file on the server.  The shell takes the
  lines up to the first one that is \<open>EOF\<close>, so the text arrives whole when it has no such line.
\<close>

definition heredoc_cmd :: "string \<Rightarrow> string \<Rightarrow> string" where
  "heredoc_cmd path body =
     ''cat > '' @ path @ '' << '' @ SQ @ ''EOF'' @ SQ @ NL @ body @ NL @ ''EOF''"

definition heredoc_safe :: "string \<Rightarrow> bool" where
  "heredoc_safe body \<longleftrightarrow> ''EOF'' \<notin> set (Split body CHR 0x0A)"

subsection \<open>Two simple clients\<close>

text \<open>A client that answers every command with the same reply.\<close>

definition constant_client :: "reply \<Rightarrow> unit SSHRunner" where
  "constant_client r = \<lparr>Run = (\<lambda>_. State_Monad.return r), Close = State_Monad.return None\<rparr>"

text \<open>A client that fails for one command only.\<close>

definition failing_client :: "string \<Rightarrow> unit SSHRunner" where
  "failing_client cmd =
     \<lparr>Run = (\<lambda>c. State_Monad.return (if c = cmd then ([], Some ''e'') else ([], None))),
      Close = State_Monad.return None\<rparr>"

end
