(* ===== verification/Config.thy ===== *)
theory Config
  imports Go_Format
begin

text \<open>
  \<^verbatim>\<open>internal/config\<close>: the node manifest, its defaults and its validation.  The YAML decoder
  (\<^verbatim>\<open>gopkg.in/yaml.v3\<close>) and the file system are arguments of \<open>Load\<close>.  A \<^verbatim>\<open>Role\<close> and a
  \<^verbatim>\<open>Location\<close> are strings in the source (any text can be decoded into them) and stay strings here.
\<close>

type_synonym Role = string

definition RoleRelay :: Role where "RoleRelay = ''relay''"

definition RoleExit :: Role where "RoleExit = ''exit''"

type_synonym Location = string

definition LocationUS :: Location where "LocationUS = ''us''"

definition LocationEU :: Location where "LocationEU = ''eu''"

definition LocationRU :: Location where "LocationRU = ''ru''"

definition LocationDE :: Location where "LocationDE = ''de''"

record NodeConfig =
  node_Role :: Role
  node_Location :: Location
  node_Hostname :: string
  node_IP :: string
  node_USERNAME :: string

record FirewallConfig =
  fw_AllowPorts :: "int list"
  fw_AllowSSH :: bool
  fw_Backend :: string

record PortMapping =
  pm_Host :: int
  pm_Container :: int
  pm_Protocol :: string

record ServiceSpec =
  svc_Name :: string
  svc_Image :: string
  svc_Volumes :: "string list"
  svc_Env :: "string gomap"
  svc_Ports :: "PortMapping list"
  svc_Count :: int
  svc_MemoryMB :: int

record NomadConfig =
  nm_DataDir :: string
  nm_BindAddr :: string
  nm_LogLevel :: string
  nm_ServerMode :: bool

record MonitorConfig =
  mon_TelegramToken :: string
  mon_TelegramChatID :: string
  mon_Enabled :: bool

record NodeManifest =
  Node :: NodeConfig
  Firewall :: FirewallConfig
  Services :: "ServiceSpec list"
  Nomad :: NomadConfig
  Monitor :: MonitorConfig

subsection \<open>Defaults\<close>

definition service_defaults :: "ServiceSpec \<Rightarrow> ServiceSpec" where
  "service_defaults s =
     (let s1 = (if svc_Count s = 0 then s\<lparr>svc_Count := 1\<rparr> else s)
      in if svc_MemoryMB s1 = 0 then s1\<lparr>svc_MemoryMB := 128\<rparr> else s1)"

definition applyDefaults :: "NodeManifest \<Rightarrow> NodeManifest" where
  "applyDefaults m0 =
     (let m1 = (if fw_Backend (Firewall m0) = [] then m0\<lparr>Firewall := (Firewall m0)\<lparr>fw_Backend := ''ufw''\<rparr>\<rparr> else m0);
          m2 = (if nm_DataDir (Nomad m1) = [] then m1\<lparr>Nomad := (Nomad m1)\<lparr>nm_DataDir := ''/opt/nomad/data''\<rparr>\<rparr> else m1);
          m3 = (if nm_BindAddr (Nomad m2) = [] then m2\<lparr>Nomad := (Nomad m2)\<lparr>nm_BindAddr := ''0.0.0.0''\<rparr>\<rparr> else m2);
          m4 = (if nm_LogLevel (Nomad m3) = [] then m3\<lparr>Nomad := (Nomad m3)\<lparr>nm_LogLevel := ''INFO''\<rparr>\<rparr> else m3);
          m5 = m4\<lparr>Services := map service_defaults (Services m4)\<rparr>
      in m5\<lparr>Firewall := (Firewall m5)\<lparr>fw_AllowSSH := True\<rparr>\<rparr>)"

subsection \<open>Validation and loading\<close>

datatype config_error = RoleRequired | RoleInvalid Role | HostnameRequired

definition validate :: "NodeManifest \<Rightarrow> config_error option" where
  "validate m =
     (if node_Role (Node m) = [] then Some RoleRequired
      else if node_Role (Node m) \<noteq> RoleRelay \<and> node_Role (Node m) \<noteq> RoleExit
        then Some (RoleInvalid (node_Role (Node m)))
      else if node_Hostname (Node m) = [] then Some HostnameRequired
      else None)"

datatype load_error = ReadFailed string string | ParseFailed string | Invalid config_error

definition Load ::
  "(string \<Rightarrow> string + bytes) \<Rightarrow> (bytes \<Rightarrow> string + NodeManifest) \<Rightarrow> string \<Rightarrow> load_error + NodeManifest"
where
  "Load read_file yaml_unmarshal path =
     (case read_file path of
        Inl err \<Rightarrow> Inl (ReadFailed path err)
      | Inr data \<Rightarrow>
          (case yaml_unmarshal data of
             Inl err \<Rightarrow> Inl (ParseFailed err)
           | Inr m0 \<Rightarrow>
               (let m = applyDefaults m0
                in case validate m of Some e \<Rightarrow> Inl (Invalid e) | None \<Rightarrow> Inr m)))"

subsection \<open>Well-formed manifests\<close>

text \<open>What the rest of the program may assume of a loaded manifest.\<close>

definition wf_service :: "ServiceSpec \<Rightarrow> bool" where
  "wf_service s \<longleftrightarrow> svc_Count s \<noteq> 0 \<and> svc_MemoryMB s \<noteq> 0"

definition wf_manifest :: "NodeManifest \<Rightarrow> bool" where
  "wf_manifest m \<longleftrightarrow>
     node_Role (Node m) \<in> {RoleRelay, RoleExit} \<and> node_Hostname (Node m) \<noteq> [] \<and>
     fw_Backend (Firewall m) \<noteq> [] \<and> fw_AllowSSH (Firewall m) \<and>
     nm_DataDir (Nomad m) \<noteq> [] \<and> nm_BindAddr (Nomad m) \<noteq> [] \<and> nm_LogLevel (Nomad m) \<noteq> [] \<and>
     (\<forall>s \<in> set (Services m). wf_service s)"

lemma service_defaults_simps [simp]:
  "svc_Name (service_defaults s) = svc_Name s"
  "svc_Image (service_defaults s) = svc_Image s"
  "svc_Volumes (service_defaults s) = svc_Volumes s"
  "svc_Env (service_defaults s) = svc_Env s"
  "svc_Ports (service_defaults s) = svc_Ports s"
  "svc_Count (service_defaults s) = (if svc_Count s = 0 then 1 else svc_Count s)"
  "svc_MemoryMB (service_defaults s) = (if svc_MemoryMB s = 0 then 128 else svc_MemoryMB s)"
  by (simp_all add: service_defaults_def Let_def)

lemma service_defaults_wf [simp]: "wf_service (service_defaults s)"
  by (simp add: wf_service_def)

lemma service_defaults_id: "wf_service s \<Longrightarrow> service_defaults s = s"
  by (simp add: wf_service_def service_defaults_def)

lemma applyDefaults_simps [simp]:
  "Node (applyDefaults m) = Node m"
  "Monitor (applyDefaults m) = Monitor m"
  "Services (applyDefaults m) = map service_defaults (Services m)"
  "fw_AllowSSH (Firewall (applyDefaults m))"
  "fw_AllowPorts (Firewall (applyDefaults m)) = fw_AllowPorts (Firewall m)"
  "fw_Backend (Firewall (applyDefaults m)) =
     (if fw_Backend (Firewall m) = [] then ''ufw'' else fw_Backend (Firewall m))"
  "nm_DataDir (Nomad (applyDefaults m)) =
     (if nm_DataDir (Nomad m) = [] then ''/opt/nomad/data'' else nm_DataDir (Nomad m))"
  "nm_BindAddr (Nomad (applyDefaults m)) =
     (if nm_BindAddr (Nomad m) = [] then ''0.0.0.0'' else nm_BindAddr (Nomad m))"
  "nm_LogLevel (Nomad (applyDefaults m)) =
     (if nm_LogLevel (Nomad m) = [] then ''INFO'' else nm_LogLevel (Nomad m))"
  "nm_ServerMode (Nomad (applyDefaults m)) = nm_ServerMode (Nomad m)"
  by (simp_all add: applyDefaults_def Let_def)

text \<open>A second pass of the defaults changes nothing: every field already has its value.\<close>

lemma applyDefaults_fixed:
  assumes "fw_Backend (Firewall m) \<noteq> []" "fw_AllowSSH (Firewall m)"
    "nm_DataDir (Nomad m) \<noteq> []" "nm_BindAddr (Nomad m) \<noteq> []" "nm_LogLevel (Nomad m) \<noteq> []"
    "\<forall>s \<in> set (Services m). wf_service s"
  shows "applyDefaults m = m"
proof -
  have "map service_defaults (Services m) = Services m"
    using assms(6) by (simp add: map_idI service_defaults_id)
  then show ?thesis using assms(1-5) by (simp add: applyDefaults_def)
qed

lemma applyDefaults_idem: "applyDefaults (applyDefaults m) = applyDefaults m"
  by (rule applyDefaults_fixed) auto

lemma validate_None_iff:
  "validate m = None \<longleftrightarrow> node_Role (Node m) \<in> {RoleRelay, RoleExit} \<and> node_Hostname (Node m) \<noteq> []"
  by (auto simp: validate_def RoleRelay_def RoleExit_def)

lemma validate_applyDefaults [simp]: "validate (applyDefaults m) = validate m"
  by (simp add: validate_def)

lemma applyDefaults_wf: "validate m = None \<Longrightarrow> wf_manifest (applyDefaults m)"
  by (auto simp: wf_manifest_def validate_None_iff)

lemma wf_manifest_fixed: "wf_manifest m \<Longrightarrow> applyDefaults m = m \<and> validate m = None"
  by (auto simp: wf_manifest_def validate_None_iff intro: applyDefaults_fixed)

lemma Load_Inr_iff:
  "Load rd um path = Inr m \<longleftrightarrow>
   (\<exists>data m0. rd path = Inr data \<and> um data = Inr m0 \<and> validate m0 = None \<and> m = applyDefaults m0)"
  by (auto simp: Load_def Let_def split: sum.splits option.splits)

lemma Load_wf: "Load rd um path = Inr m \<Longrightarrow> wf_manifest m"
  by (auto simp: Load_Inr_iff intro: applyDefaults_wf)

subsection \<open>Properties\<close>

text \<open>A manifest as the decoder gives it for a short file: most fields at their zero value.\<close>

definition example_service :: ServiceSpec where
  "example_service =
     \<lparr>svc_Name = ''xui'', svc_Image = ''xray'', svc_Volumes = [''/a:/b''], svc_Env = [(''K'', ''v'')],
      svc_Ports = [\<lparr>pm_Host = 80, pm_Container = 8080, pm_Protocol = ''tcp''\<rparr>],
      svc_Count = 0, svc_MemoryMB = 0\<rparr>"

definition example_manifest :: NodeManifest where
  "example_manifest =
     \<lparr>Node = \<lparr>node_Role = ''relay'', node_Location = ''us'', node_Hostname = ''h'', node_IP = [], node_USERNAME = []\<rparr>,
      Firewall = \<lparr>fw_AllowPorts = [80, 443], fw_AllowSSH = False, fw_Backend = []\<rparr>,
      Services = [example_service],
      Nomad = \<lparr>nm_DataDir = [], nm_BindAddr = [], nm_LogLevel = [], nm_ServerMode = False\<rparr>,
      Monitor = \<lparr>mon_TelegramToken = [], mon_TelegramChatID = [], mon_Enabled = False\<rparr>\<rparr>"

text \<open>
  C37: a manifest that \<^verbatim>\<open>Load\<close> returns is well formed (role relay or exit, a host name, a firewall
  backend, SSH allowed, Nomad's settings present, every service with a count and a memory limit
  that are not zero), and applying the defaults and the validation again changes nothing.
\<close>

theorem Load_returns_wf:
  assumes "Load rd um path = Inr m"
  shows "wf_manifest m \<and> applyDefaults m = m \<and> validate m = None"
  using Load_wf[OF assms] wf_manifest_fixed by blast

theorem Load_returns_wf_witness:
  "wf_manifest (applyDefaults example_manifest) \<and>
   applyDefaults (applyDefaults example_manifest) = applyDefaults example_manifest \<and>
   validate (applyDefaults example_manifest) = None"
proof -
  have "Load (\<lambda>_. Inr ''x'') (\<lambda>_. Inr example_manifest) ''p'' = Inr (applyDefaults example_manifest)"
    by (simp add: Load_def validate_def example_manifest_def RoleRelay_def)
  then show ?thesis by (rule Load_returns_wf)
qed

text \<open>
  C38: \<^verbatim>\<open>Load\<close> fails exactly when the file cannot be read, the text cannot be decoded, the role is
  missing or unknown, or the host name is missing; in that order, with the error of the first of
  these, and whatever the other fields are.
\<close>

theorem Load_error_iff:
  "Load rd um path = Inl e \<longleftrightarrow>
   (\<exists>err. rd path = Inl err \<and> e = ReadFailed path err) \<or>
   (\<exists>data err. rd path = Inr data \<and> um data = Inl err \<and> e = ParseFailed err) \<or>
   (\<exists>data m. rd path = Inr data \<and> um data = Inr m \<and>
      (node_Role (Node m) = [] \<and> e = Invalid RoleRequired \<or>
       node_Role (Node m) \<notin> {[], ''relay'', ''exit''} \<and> e = Invalid (RoleInvalid (node_Role (Node m))) \<or>
       node_Role (Node m) \<in> {''relay'', ''exit''} \<and> node_Hostname (Node m) = [] \<and> e = Invalid HostnameRequired))"
  by (auto simp: Load_def validate_def RoleRelay_def RoleExit_def Let_def split: sum.splits)

end
