(* ===== verification/Hardening.thy ===== *)
theory Hardening
  imports Runner Config
begin

text \<open>
  \<^verbatim>\<open>internal/provisioner/hardening.go\<close>: opening the firewall's ports and enabling it.  The
  function is shown to be exactly a plan of commands, so that what it sends, in which order, and
  where it stops all follow from the facts about plans.
\<close>

datatype hardening_error =
    UnsupportedBackend string
  | AllowSSHFailed string
  | AllowPortFailed int string
  | EnableUfwFailed string

definition allow_ssh_cmd :: string where "allow_ssh_cmd = ''sudo ufw allow ssh''"

definition allow_port_cmd :: "int \<Rightarrow> string" where
  "allow_port_cmd port = ''sudo ufw allow '' @ itoa port"

definition enable_ufw_cmd :: string where "enable_ufw_cmd = ''sudo ufw --force enable''"

definition ApplyHardening ::
  "'w SSHRunner \<Rightarrow> FirewallConfig \<Rightarrow> ('w, hardening_error option) state"
where
  "ApplyHardening client fw =
     (if fw_Backend fw \<noteq> ''ufw'' then State_Monad.return (Some (UnsupportedBackend (fw_Backend fw)))
      else
        and_then
          (if fw_AllowSSH fw then check AllowSSHFailed (Run client allow_ssh_cmd)
           else State_Monad.return None)
       (and_then
          (until_error (\<lambda>port. check (AllowPortFailed port) (Run client (allow_port_cmd port)))
             (fw_AllowPorts fw))
          (check EnableUfwFailed (Run client enable_ufw_cmd))))"

subsection \<open>The plan\<close>

definition hardening_plan :: "FirewallConfig \<Rightarrow> hardening_error plan" where
  "hardening_plan fw =
     (if fw_AllowSSH fw then [(allow_ssh_cmd, AllowSSHFailed)] else []) @
     map (\<lambda>port. (allow_port_cmd port, AllowPortFailed port)) (fw_AllowPorts fw) @
     [(enable_ufw_cmd, EnableUfwFailed)]"

lemma run_plan_map:
  "run_plan client (map (\<lambda>x. (c x, f x)) xs) = until_error (\<lambda>x. check (f x) (Run client (c x))) xs"
  by (induction xs) (simp_all add: run_plan_Cons until_error_Cons del: until_error.simps(2))

lemma ApplyHardening_plan:
  "fw_Backend fw = ''ufw'' \<Longrightarrow> ApplyHardening client fw = run_plan client (hardening_plan fw)"
  by (simp add: ApplyHardening_def hardening_plan_def run_plan_append run_plan_map run_plan_Cons)

lemma ApplyHardening_unsupported:
  "fw_Backend fw \<noteq> ''ufw'' \<Longrightarrow>
   ApplyHardening client fw = State_Monad.return (Some (UnsupportedBackend (fw_Backend fw)))"
  by (simp add: ApplyHardening_def)

lemma hardening_cmds:
  "map fst (hardening_plan fw) =
     (if fw_AllowSSH fw then [allow_ssh_cmd] else []) @ map allow_port_cmd (fw_AllowPorts fw) @ [enable_ufw_cmd]"
  by (simp add: hardening_plan_def)

text \<open>No command of the plan before the last one enables the firewall.\<close>

lemma allow_port_not_enable: "allow_port_cmd port \<noteq> enable_ufw_cmd"
  by (simp add: allow_port_cmd_def enable_ufw_cmd_def)

lemma allow_ssh_not_enable: "allow_ssh_cmd \<noteq> enable_ufw_cmd"
  by (simp add: allow_ssh_cmd_def enable_ufw_cmd_def)

lemma enable_not_before:
  "enable_ufw_cmd \<notin> set (butlast (map fst (hardening_plan fw)))"
  using allow_port_not_enable allow_ssh_not_enable
  by (simp add: hardening_cmds butlast_append image_iff) metis

text \<open>
  The order that keeps the operator from being locked out: whenever the command that enables the
  firewall is sent, every other command of the plan was sent before it and answered without error.
\<close>

lemma enable_is_last:
  assumes "plan_outcome (hardening_plan fw) (es @ (enable_ufw_cmd, r) # es') res"
  shows "map fst es = butlast (map fst (hardening_plan fw)) \<and> list_all reply_ok es \<and> es' = []"
proof -
  let ?cs = "map fst (hardening_plan fw)"
  have pre: "prefix (map fst (es @ (enable_ufw_cmd, r) # es')) ?cs"
    using assms by (rule plan_outcome_prefix)
  then obtain zs where zs: "?cs = map fst es @ enable_ufw_cmd # map fst es' @ zs"
    by (auto simp: prefix_def)
  have "map fst es' @ zs = []"
  proof (rule ccontr)
    assume "map fst es' @ zs \<noteq> []"
    then have "enable_ufw_cmd \<in> set (butlast ?cs)" unfolding zs by (auto simp: butlast_append)
    then show False using enable_not_before by blast
  qed
  then show ?thesis
    using zs plan_outcome_ok_before[OF assms] by (simp add: butlast_append)
qed

subsection \<open>Properties\<close>

text \<open>
  C23: with the \<^verbatim>\<open>ufw\<close> backend, \<^verbatim>\<open>ApplyHardening\<close> sends allow-ssh (when asked), one allow per port in
  the order of the list, and the enabling command; it stops at the first that fails and returns
  the error of that step, and it returns nil exactly when all were sent and answered without error.
\<close>

theorem ApplyHardening_sends:
  assumes "fw_Backend fw = ''ufw''"
  shows "plan_outcome (hardening_plan fw) (trace_of (ApplyHardening (traced client) fw) w)
           (result_of (ApplyHardening (traced client) fw) w)"
  using run_plan_traced[of "hardening_plan fw"] ApplyHardening_plan[OF assms] by metis

definition example_firewall :: FirewallConfig where
  "example_firewall = \<lparr>fw_AllowPorts = [80, 443], fw_AllowSSH = True, fw_Backend = ''ufw''\<rparr>"

theorem ApplyHardening_sends_witness:
  "plan_outcome (hardening_plan example_firewall)
     (trace_of (ApplyHardening (traced (constant_client ([], None))) example_firewall) ())
     (result_of (ApplyHardening (traced (constant_client ([], None))) example_firewall) ())"
  by (rule ApplyHardening_sends) (simp add: example_firewall_def)

text \<open>
  \<^verbatim>\<open>ApplyHardening\<close> never locks the operator out: when the command that enables the firewall is
  sent, and SSH is to be allowed, then the SSH rule and the rule of every port were sent before it
  and answered without error, and nothing is sent after it.  A backend other than \<^verbatim>\<open>ufw\<close> sends nothing.
\<close>

theorem ApplyHardening_no_lockout:
  assumes "fw_AllowSSH fw"
    and "trace_of (ApplyHardening (traced client) fw) w = es @ (enable_ufw_cmd, r) # es'"
  shows "map fst es = allow_ssh_cmd # map allow_port_cmd (fw_AllowPorts fw) \<and> list_all reply_ok es \<and> es' = []"
proof (cases "fw_Backend fw = ''ufw''")
  case True
  then have "plan_outcome (hardening_plan fw) (es @ (enable_ufw_cmd, r) # es')
      (result_of (ApplyHardening (traced client) fw) w)"
    using run_plan_traced[of "hardening_plan fw" client w] assms(2) by (simp add: ApplyHardening_plan)
  from enable_is_last[OF this] show ?thesis
    using assms(1) by (simp add: hardening_cmds butlast_append)
next
  case False
  then show ?thesis using assms(2) by (simp add: ApplyHardening_unsupported trace_of_def)
qed

theorem ApplyHardening_no_lockout_witness:
  "\<exists>es. map fst es = allow_ssh_cmd # map allow_port_cmd (fw_AllowPorts example_firewall) \<and> list_all reply_ok es"
proof -
  have "fw_AllowSSH example_firewall" by (simp add: example_firewall_def)
  moreover have "trace_of (ApplyHardening (traced (constant_client ([], None))) example_firewall) () =
    [(allow_ssh_cmd, ([], None)), (''sudo ufw allow 80'', ([], None)), (''sudo ufw allow 443'', ([], None))] @
    (enable_ufw_cmd, ([], None)) # []"
    by code_simp
  ultimately show ?thesis by (blast dest: ApplyHardening_no_lockout)
qed

end
