(* ===== verification/Compose.thy ===== *)
theory Compose
  imports Config
begin

text \<open>
  \<^verbatim>\<open>buildComposeProject\<close> and \<^verbatim>\<open>writeComposeService\<close> of \<^verbatim>\<open>internal/provisioner/services.go\<close>: the
  compose file and the scale arguments for the services of a manifest.  The loop with its builder,
  its \<open>seen\<close> set and its early returns is related to a specification that says which lists of
  services are accepted and what text they give.
\<close>

datatype compose_error =
    ServiceNameRequired
  | ServiceImageRequired string
  | DuplicateService string
  | PortsWithScaling string

subsection \<open>The text of one service\<close>

definition line :: "string \<Rightarrow> string" where
  "line s = s @ NL"

text \<open>\<^verbatim>\<open>service.Env[key]\<close>: the zero value, an empty string, for a missing key.\<close>

definition env_get :: "string gomap \<Rightarrow> string \<Rightarrow> string" where
  "env_get m k = (case map_of m k of None \<Rightarrow> [] | Some v \<Rightarrow> v)"

definition port_mapping :: "PortMapping \<Rightarrow> string" where
  "port_mapping p =
     (let mapping = itoa (pm_Host p) @ '':'' @ itoa (pm_Container p)
      in if TrimSpace (pm_Protocol p) \<noteq> [] then mapping @ ''/'' @ pm_Protocol p else mapping)"

definition writeComposeService :: "string \<Rightarrow> ServiceSpec \<Rightarrow> string" where
  "writeComposeService builder service =
     (let b1 = builder @ line (''  '' @ svc_Name service @ '':'')
                       @ line (''    image: '' @ svc_Image service)
                       @ line ''    restart: unless-stopped'';
          b2 = (if svc_MemoryMB service > 0
                then b1 @ line (''    mem_limit: '' @ itoa (svc_MemoryMB service) @ ''m'') else b1);
          b3 = (if svc_Env service \<noteq> []
                then foldl (\<lambda>b key. b @ line (''      '' @ key @ '': '' @ DQ @ env_get (svc_Env service) key @ DQ))
                       (b2 @ line ''    environment:'') (sort (map_keys (svc_Env service)))
                else b2);
          b4 = (if svc_Volumes service \<noteq> []
                then foldl (\<lambda>b volume. b @ line (''      - '' @ volume))
                       (b3 @ line ''    volumes:'') (svc_Volumes service)
                else b3)
      in if svc_Ports service \<noteq> []
         then foldl (\<lambda>b port. b @ line (''      - '' @ DQ @ port_mapping port @ DQ))
                (b4 @ line ''    ports:'') (svc_Ports service)
         else b4)"

subsection \<open>The loop over the services\<close>

definition service_count :: "ServiceSpec \<Rightarrow> int" where
  "service_count s = (if svc_Count s < 1 then 1 else svc_Count s)"

definition scale_arg :: "ServiceSpec \<Rightarrow> string" where
  "scale_arg s = ''--scale '' @ svc_Name s @ ''='' @ itoa (service_count s)"

fun compose_loop ::
  "ServiceSpec list \<Rightarrow> string \<Rightarrow> string list \<Rightarrow> string list \<Rightarrow> compose_error + (string \<times> string list)"
where
  "compose_loop [] builder seen scaleArgs = Inr (builder, scaleArgs)"
| "compose_loop (service # services) builder seen scaleArgs =
     (if svc_Name service = [] then Inl ServiceNameRequired
      else if svc_Image service = [] then Inl (ServiceImageRequired (svc_Name service))
      else if svc_Name service \<in> set seen then Inl (DuplicateService (svc_Name service))
      else if service_count service > 1 \<and> svc_Ports service \<noteq> []
        then Inl (PortsWithScaling (svc_Name service))
      else compose_loop services (writeComposeService builder service) (svc_Name service # seen)
             (if service_count service > 1 then scaleArgs @ [scale_arg service] else scaleArgs))"

definition compose_header :: string where
  "compose_header = line (''version: '' @ SQ @ ''3.9'' @ SQ) @ line ''services:''"

definition buildComposeProject :: "ServiceSpec list \<Rightarrow> compose_error + (string \<times> string list)" where
  "buildComposeProject services =
     (case compose_loop services compose_header [] [] of
        Inl e \<Rightarrow> Inl e
      | Inr (text, scaleArgs) \<Rightarrow> Inr (text, sort scaleArgs))"

subsection \<open>Specification\<close>

text \<open>The lines of a service, as one list.\<close>

definition service_lines :: "ServiceSpec \<Rightarrow> string list" where
  "service_lines s =
     [''  '' @ svc_Name s @ '':'', ''    image: '' @ svc_Image s, ''    restart: unless-stopped''] @
     (if svc_MemoryMB s > 0 then [''    mem_limit: '' @ itoa (svc_MemoryMB s) @ ''m''] else []) @
     (if svc_Env s = [] then []
      else ''    environment:'' #
        map (\<lambda>key. ''      '' @ key @ '': '' @ DQ @ env_get (svc_Env s) key @ DQ) (sort (map_keys (svc_Env s)))) @
     (if svc_Volumes s = [] then [] else ''    volumes:'' # map (\<lambda>v. ''      - '' @ v) (svc_Volumes s)) @
     (if svc_Ports s = [] then []
      else ''    ports:'' # map (\<lambda>p. ''      - '' @ DQ @ port_mapping p @ DQ) (svc_Ports s))"

definition compose_lines :: "ServiceSpec list \<Rightarrow> string list" where
  "compose_lines ss =
     [''version: '' @ SQ @ ''3.9'' @ SQ, ''services:''] @ concat (map service_lines ss)"

definition text_of_lines :: "string list \<Rightarrow> string" where
  "text_of_lines ls = concat (map line ls)"

definition compose_text :: "ServiceSpec list \<Rightarrow> string" where
  "compose_text ss = text_of_lines (compose_lines ss)"

definition scaled :: "ServiceSpec list \<Rightarrow> ServiceSpec list" where
  "scaled ss = filter (\<lambda>s. service_count s > 1) ss"

text \<open>What the loop rejects a service for, given the names before it.\<close>

definition service_error :: "string list \<Rightarrow> ServiceSpec \<Rightarrow> compose_error option" where
  "service_error seen s =
     (if svc_Name s = [] then Some ServiceNameRequired
      else if svc_Image s = [] then Some (ServiceImageRequired (svc_Name s))
      else if svc_Name s \<in> set seen then Some (DuplicateService (svc_Name s))
      else if service_count s > 1 \<and> svc_Ports s \<noteq> [] then Some (PortsWithScaling (svc_Name s))
      else None)"

definition valid_services :: "ServiceSpec list \<Rightarrow> bool" where
  "valid_services ss \<longleftrightarrow>
     distinct (map svc_Name ss) \<and>
     (\<forall>s \<in> set ss. svc_Name s \<noteq> [] \<and> svc_Image s \<noteq> [] \<and> (svc_Count s \<le> 1 \<or> svc_Ports s = []))"

subsection \<open>The code meets it\<close>

lemma text_of_lines_simps [simp]:
  "text_of_lines [] = []"
  "text_of_lines (l # ls) = line l @ text_of_lines ls"
  "text_of_lines (ls @ ms) = text_of_lines ls @ text_of_lines ms"
  by (simp_all add: text_of_lines_def)

lemma foldl_line: "foldl (\<lambda>b x. b @ line (f x)) b xs = b @ text_of_lines (map f xs)"
  by (induction xs arbitrary: b) simp_all

lemma writeComposeService_lines:
  "writeComposeService b s = b @ text_of_lines (service_lines s)"
  by (simp add: writeComposeService_def service_lines_def foldl_line Let_def del: append.simps)

lemma compose_loop_error:
  "compose_loop (s # ss) b seen args =
     (case service_error seen s of
        Some e \<Rightarrow> Inl e
      | None \<Rightarrow> compose_loop ss (b @ text_of_lines (service_lines s)) (svc_Name s # seen)
                  (args @ map scale_arg (scaled [s])))"
  by (simp add: service_error_def writeComposeService_lines scaled_def)

lemma service_error_None:
  "service_error seen s = None \<longleftrightarrow>
   svc_Name s \<noteq> [] \<and> svc_Image s \<noteq> [] \<and> svc_Name s \<notin> set seen \<and> (svc_Count s \<le> 1 \<or> svc_Ports s = [])"
  by (auto simp: service_error_def service_count_def)

lemma compose_loop_Inr:
  "compose_loop ss b seen args = Inr r \<longleftrightarrow>
   valid_services ss \<and> set (map svc_Name ss) \<inter> set seen = {} \<and>
   r = (b @ text_of_lines (concat (map service_lines ss)), args @ map scale_arg (scaled ss))"
proof (induction ss arbitrary: b seen args)
  case Nil
  then show ?case by (auto simp: valid_services_def scaled_def)
next
  case (Cons s ss)
  show ?case
  proof (cases "service_error seen s")
    case None
    then have "compose_loop (s # ss) b seen args =
      compose_loop ss (b @ text_of_lines (service_lines s)) (svc_Name s # seen)
        (args @ map scale_arg (scaled [s]))"
      by (simp only: compose_loop_error option.case)
    then show ?thesis
      using None Cons by (auto simp: service_error_None valid_services_def scaled_def)
  next
    case (Some e)
    then have "compose_loop (s # ss) b seen args = Inl e"
      by (simp only: compose_loop_error option.case)
    moreover have "\<not> (valid_services (s # ss) \<and> set (map svc_Name (s # ss)) \<inter> set seen = {})"
      using Some service_error_None[of seen s] by (auto simp: valid_services_def)
    ultimately show ?thesis by auto
  qed
qed

lemma compose_text_header: "compose_text ss = compose_header @ text_of_lines (concat (map service_lines ss))"
  by (simp add: compose_text_def compose_lines_def compose_header_def)

lemma buildComposeProject_Inr_iff:
  "buildComposeProject ss = Inr (text, args) \<longleftrightarrow>
   valid_services ss \<and> text = compose_text ss \<and> args = sort (map scale_arg (scaled ss))"
proof (cases "compose_loop ss compose_header [] []")
  case (Inl e)
  then have "\<not> valid_services ss"
    using compose_loop_Inr[of ss compose_header "[]" "[]"] by (metis Inl_Inr_False list.set(1) inf_bot_right)
  then show ?thesis using Inl by (simp add: buildComposeProject_def)
next
  case (Inr r)
  then have "valid_services ss \<and> r = (compose_text ss, map scale_arg (scaled ss))"
    using compose_loop_Inr[of ss compose_header "[]" "[]" r] by (simp add: compose_text_header)
  then show ?thesis using Inr by (auto simp: buildComposeProject_def)
qed

text \<open>The error is that of the first service that is wrong; everything before it was accepted.\<close>

text \<open>The error of the first service that is wrong after the names seen before it.\<close>

definition first_wrong :: "string list \<Rightarrow> ServiceSpec list \<Rightarrow> compose_error \<Rightarrow> bool" where
  "first_wrong seen ss e \<longleftrightarrow>
     (\<exists>pre s post. ss = pre @ s # post \<and> valid_services pre \<and> set (map svc_Name pre) \<inter> set seen = {} \<and>
        service_error (rev (map svc_Name pre) @ seen) s = Some e)"

lemma first_wrong_skip:
  assumes "service_error seen s = None"
  shows "first_wrong seen (s # ss) e \<longleftrightarrow> first_wrong (svc_Name s # seen) ss e"
proof
  assume "first_wrong seen (s # ss) e"
  then obtain pre t post where t: "s # ss = pre @ t # post" "valid_services pre"
    "set (map svc_Name pre) \<inter> set seen = {}" "service_error (rev (map svc_Name pre) @ seen) t = Some e"
    by (auto simp: first_wrong_def)
  then obtain pre' where "pre = s # pre'" using assms by (cases pre) auto
  with t show "first_wrong (svc_Name s # seen) ss e"
    unfolding first_wrong_def by (intro exI[of _ pre'] exI[of _ t] exI[of _ post]) (auto simp: valid_services_def)
next
  assume "first_wrong (svc_Name s # seen) ss e"
  then obtain pre t post where "ss = pre @ t # post" "valid_services pre"
    "set (map svc_Name pre) \<inter> set (svc_Name s # seen) = {}"
    "service_error (rev (map svc_Name pre) @ svc_Name s # seen) t = Some e"
    unfolding first_wrong_def by blast
  with assms show "first_wrong seen (s # ss) e"
    unfolding first_wrong_def
    by (intro exI[of _ "s # pre"] exI[of _ t] exI[of _ post]) (auto simp: valid_services_def service_error_None)
qed

lemma first_wrong_here:
  assumes "service_error seen s = Some d"
  shows "first_wrong seen (s # ss) e \<longleftrightarrow> d = e"
proof
  assume "first_wrong seen (s # ss) e"
  then obtain pre t post where t: "s # ss = pre @ t # post" "valid_services pre"
    "set (map svc_Name pre) \<inter> set seen = {}" "service_error (rev (map svc_Name pre) @ seen) t = Some e"
    by (auto simp: first_wrong_def)
  then have "pre = []" using assms service_error_None[of seen s] by (cases pre) (auto simp: valid_services_def)
  then show "d = e" using t assms by simp
next
  assume "d = e"
  then show "first_wrong seen (s # ss) e"
    unfolding first_wrong_def using assms
    by (intro exI[of _ "[]"] exI[of _ s] exI[of _ ss]) (simp add: valid_services_def)
qed

lemma compose_loop_first_wrong: "compose_loop ss b seen args = Inl e \<longleftrightarrow> first_wrong seen ss e"
proof (induction ss arbitrary: b seen args)
  case Nil
  then show ?case by (simp add: first_wrong_def)
next
  case (Cons s ss)
  show ?case
  proof (cases "service_error seen s")
    case None
    then have "compose_loop (s # ss) b seen args =
      compose_loop ss (b @ text_of_lines (service_lines s)) (svc_Name s # seen) (args @ map scale_arg (scaled [s]))"
      by (simp only: compose_loop_error option.case)
    then show ?thesis using Cons first_wrong_skip[OF None] by simp
  next
    case (Some d)
    then have "compose_loop (s # ss) b seen args = Inl d" by (simp only: compose_loop_error option.case)
    then show ?thesis using first_wrong_here[OF Some] by simp
  qed
qed

lemma compose_loop_Inl:
  "compose_loop ss b seen args = Inl e \<longleftrightarrow>
   (\<exists>pre s post. ss = pre @ s # post \<and> valid_services pre \<and> set (map svc_Name pre) \<inter> set seen = {} \<and>
      service_error (rev (map svc_Name pre) @ seen) s = Some e)"
  using compose_loop_first_wrong by (simp add: first_wrong_def)

lemma buildComposeProject_Inl_iff:
  "buildComposeProject ss = Inl e \<longleftrightarrow>
   (\<exists>pre s post. ss = pre @ s # post \<and> valid_services pre \<and>
      service_error (rev (map svc_Name pre)) s = Some e)"
  using compose_loop_Inl[of ss compose_header "[]" "[]" e]
  by (auto simp: buildComposeProject_def split: sum.splits)

subsection \<open>The order of the environment does not matter\<close>

text \<open>
  \<^verbatim>\<open>range\<close> over the environment meets its entries in any order; the keys are sorted before they
  are written, so the text is the same for every order.
\<close>

definition same_service :: "ServiceSpec \<Rightarrow> ServiceSpec \<Rightarrow> bool" where
  "same_service s s' \<longleftrightarrow>
     wf_gomap (svc_Env s) \<and> mset (svc_Env s) = mset (svc_Env s') \<and> s' = s\<lparr>svc_Env := svc_Env s'\<rparr>"

lemma sort_mset_eq: "mset xs = mset ys \<Longrightarrow> sort xs = sort (ys :: 'a :: linorder list)"
  by (metis mset_sort properties_for_sort sorted_sort)

lemma same_service_lines: "same_service s s' \<Longrightarrow> service_lines s = service_lines s'"
proof -
  assume a: "same_service s s'"
  then have eq: "s' = s\<lparr>svc_Env := svc_Env s'\<rparr>" and m: "mset (svc_Env s) = mset (svc_Env s')"
    and wf: "wf_gomap (svc_Env s)" by (auto simp: same_service_def)
  have get: "env_get (svc_Env s') = env_get (svc_Env s)"
    using wf_gomap_mset_of[OF wf m] by (auto simp: env_get_def)
  have "mset (map_keys (svc_Env s)) = mset (map_keys (svc_Env s'))"
    using m unfolding map_keys_def mset_map by simp
  then have keys: "sort (map_keys (svc_Env s')) = sort (map_keys (svc_Env s))"
    by (metis sort_mset_eq)
  have "svc_Env s = [] \<longleftrightarrow> svc_Env s' = []" using m by (metis mset_zero_iff)
  moreover have "svc_Name s' = svc_Name s" "svc_Image s' = svc_Image s" "svc_MemoryMB s' = svc_MemoryMB s"
    "svc_Volumes s' = svc_Volumes s" "svc_Ports s' = svc_Ports s"
    by (subst eq; simp)+
  ultimately show ?thesis by (simp only: service_lines_def get keys)
qed

lemma same_service_fields:
  "same_service s s' \<Longrightarrow> svc_Name s' = svc_Name s \<and> svc_Image s' = svc_Image s \<and>
     svc_Count s' = svc_Count s \<and> svc_Ports s' = svc_Ports s"
  unfolding same_service_def by (metis ServiceSpec.select_convs ServiceSpec.surjective ServiceSpec.update_convs(4))

lemma same_service_loop:
  "list_all2 same_service ss ss' \<Longrightarrow> compose_loop ss b seen args = compose_loop ss' b seen args"
proof (induction arbitrary: b seen args rule: list_all2_induct)
  case Nil
  then show ?case by simp
next
  case (Cons s ss s' ss')
  note f = same_service_fields[OF Cons.hyps(1)]
  have "service_error seen s' = service_error seen s" using f by (simp add: service_error_def service_count_def)
  moreover have "map scale_arg (scaled [s']) = map scale_arg (scaled [s])"
    using f by (simp add: scaled_def scale_arg_def service_count_def)
  ultimately show ?case
    using Cons.IH f same_service_lines[OF Cons.hyps(1)]
    by (simp only: compose_loop_error split: option.split)
qed

lemma same_service_compose:
  "list_all2 same_service ss ss' \<Longrightarrow> buildComposeProject ss = buildComposeProject ss'"
  by (simp add: buildComposeProject_def same_service_loop)

subsection \<open>The lines of the file\<close>

lemma Split_line: "CHR 0x0A \<notin> set l \<Longrightarrow> Split (line l @ s) CHR 0x0A = l # Split s CHR 0x0A"
  using Split_append_sep[of l "CHR 0x0A" s] by (simp add: line_def Split_no_sep)

lemma Split_text_of_lines:
  "\<forall>l \<in> set ls. CHR 0x0A \<notin> set l \<Longrightarrow> Split (text_of_lines ls) CHR 0x0A = ls @ [[]]"
  by (induction ls) (simp_all add: Split_line)

text \<open>A service none of whose texts holds a line break.\<close>

definition one_line_service :: "ServiceSpec \<Rightarrow> bool" where
  "one_line_service s \<longleftrightarrow>
     CHR 0x0A \<notin> set (svc_Name s) \<and> CHR 0x0A \<notin> set (svc_Image s) \<and>
     (\<forall>v \<in> set (svc_Volumes s). CHR 0x0A \<notin> set v) \<and>
     (\<forall>(k, v) \<in> set (svc_Env s). CHR 0x0A \<notin> set k \<and> CHR 0x0A \<notin> set v) \<and>
     (\<forall>p \<in> set (svc_Ports s). CHR 0x0A \<notin> set (pm_Protocol p))"

lemma itoa_no_newline: "CHR 0x0A \<notin> set (itoa i)"
  using itoa_graphic[of i] by (auto simp: graphic_def)

lemma env_get_one_line:
  "one_line_service s \<Longrightarrow> CHR 0x0A \<notin> set (env_get (svc_Env s) k)"
proof (cases "map_of (svc_Env s) k")
  case None
  then show ?thesis by (simp add: env_get_def)
next
  case (Some v)
  assume "one_line_service s"
  then have "CHR 0x0A \<notin> set v"
    using map_of_SomeD[OF Some] unfolding one_line_service_def by blast
  then show ?thesis using Some by (simp add: env_get_def)
qed

lemma service_lines_one_line:
  "one_line_service s \<Longrightarrow> l \<in> set (service_lines s) \<Longrightarrow> CHR 0x0A \<notin> set l"
  using env_get_one_line[of s]
  by (auto simp: service_lines_def one_line_service_def itoa_no_newline port_mapping_def map_keys_def
      Let_def split: if_splits)

lemma service_lines_indented: "l \<in> set (service_lines s) \<Longrightarrow> prefix ''  '' l"
  by (auto simp: service_lines_def split: if_splits)

lemma compose_lines_one_line:
  "\<forall>s \<in> set ss. one_line_service s \<Longrightarrow> l \<in> set (compose_lines ss) \<Longrightarrow> CHR 0x0A \<notin> set l"
  using service_lines_one_line by (auto simp: compose_lines_def)

lemma compose_text_lines:
  "\<forall>s \<in> set ss. one_line_service s \<Longrightarrow> Split (compose_text ss) CHR 0x0A = compose_lines ss @ [[]]"
  using compose_lines_one_line[of ss] by (auto simp: compose_text_def intro!: Split_text_of_lines)

lemma compose_lines_not_EOF: "''EOF'' \<notin> set (compose_lines ss)"
  using service_lines_indented[of "''EOF''"] by (auto simp: compose_lines_def)

subsection \<open>Properties\<close>

text \<open>
  C6: \<^verbatim>\<open>buildComposeProject\<close> accepts exactly the lists of services with distinct non-empty names and
  images where no service with ports is scaled; it then returns the specified text and the sorted
  scale arguments of the services with more than one instance.  Otherwise its error is that of the
  first service that is wrong, every service before it being right.
\<close>

theorem buildComposeProject_correct:
  "(buildComposeProject ss = Inr (text, args) \<longleftrightarrow>
      valid_services ss \<and> text = compose_text ss \<and> args = sort (map scale_arg (scaled ss))) \<and>
   (buildComposeProject ss = Inl e \<longleftrightarrow>
      (\<exists>pre s post. ss = pre @ s # post \<and> valid_services pre \<and>
         service_error (rev (map svc_Name pre)) s = Some e))"
  by (rule conjI[OF buildComposeProject_Inr_iff buildComposeProject_Inl_iff])

text \<open>
  C26: the order in which Go ranges over a service's environment does not show: two lists of
  services that differ only in the order of the entries of their environments give the same
  compose file and the same scale arguments, or the same error.
\<close>

theorem buildComposeProject_env_order:
  assumes "list_all2 same_service ss ss'"
  shows "buildComposeProject ss = buildComposeProject ss'"
  using assms by (rule same_service_compose)

definition two_env :: "string gomap \<Rightarrow> ServiceSpec list" where
  "two_env env = [example_service\<lparr>svc_Env := env\<rparr>]"

theorem buildComposeProject_env_order_witness:
  "buildComposeProject (two_env [(''A'', ''1''), (''B'', ''2'')]) =
   buildComposeProject (two_env [(''B'', ''2''), (''A'', ''1'')])"
  by (rule buildComposeProject_env_order)
    (simp add: two_env_def same_service_def example_service_def wf_gomap_def map_keys_def)

text \<open>
  When no text of the manifest holds a line break, the compose file that was built has exactly
  the specified lines and none of them is \<^verbatim>\<open>EOF\<close>, so the here-document that writes it to the
  server carries it whole.
\<close>

theorem buildComposeProject_lines:
  assumes "buildComposeProject ss = Inr (text, args)" and "\<forall>s \<in> set ss. one_line_service s"
  shows "Split text CHR 0x0A = compose_lines ss @ [[]] \<and> ''EOF'' \<notin> set (Split text CHR 0x0A)"
  using assms compose_text_lines[OF assms(2)] compose_lines_not_EOF[of ss]
  by (auto simp: buildComposeProject_Inr_iff)

theorem buildComposeProject_lines_witness:
  "Split (compose_text [example_service]) CHR 0x0A = compose_lines [example_service] @ [[]] \<and>
   ''EOF'' \<notin> set (Split (compose_text [example_service]) CHR 0x0A)"
  by (rule buildComposeProject_lines[where args = "[]"])
    (simp_all add: buildComposeProject_Inr_iff valid_services_def example_service_def scaled_def
      service_count_def one_line_service_def)

end
