(* ===== verification/Provisioner.thy ===== *)
theory Provisioner
  imports Hardening Compose
begin

text \<open>
  \<^verbatim>\<open>DeployServices\<close> of \<^verbatim>\<open>internal/provisioner/services.go\<close> and \<^verbatim>\<open>RunFullProvisioning\<close> of
  \<^verbatim>\<open>internal/provisioner/provisioner.go\<close>: writing the compose file when it has changed, bringing
  the services up, and the whole sequence that prepares a server.
\<close>

subsection \<open>Deploying the services\<close>

definition composeProjectDir :: string where "composeProjectDir = ''/opt/ghost-ship/services''"

definition composeFileName :: string where "composeFileName = ''docker-compose.yml''"

definition composePath :: string where
  "composePath = composeProjectDir @ ''/'' @ composeFileName"

datatype deploy_error =
    ComposeError compose_error
  | MkdirFailed string
  | InspectFailed string
  | WriteFailed string
  | UpFailed string

definition mkdir_cmd :: string where "mkdir_cmd = ''mkdir -p '' @ composeProjectDir"

definition read_cmd :: "string \<Rightarrow> string" where
  "read_cmd p = ''test -f '' @ p @ '' && cat '' @ p @ '' || true''"

definition up_cmd :: "string list \<Rightarrow> string" where
  "up_cmd scaleArgs =
     (let upCmd = ''cd '' @ composeProjectDir @ '' && docker compose up -d --pull always --remove-orphans''
      in if scaleArgs \<noteq> [] then upCmd @ '' '' @ Join scaleArgs '' '' else upCmd)"

definition provisioner_readRemoteFile :: "'w SSHRunner \<Rightarrow> string \<Rightarrow> ('w, string + string) state" where
  "provisioner_readRemoteFile client remotePath = do {
     (out, err) \<leftarrow> Run client (read_cmd remotePath);
     State_Monad.return (case err of Some e \<Rightarrow> Inl e | None \<Rightarrow> Inr out) }"

definition DeployServices :: "'w SSHRunner \<Rightarrow> ServiceSpec list \<Rightarrow> ('w, deploy_error option) state" where
  "DeployServices client services =
     (if services = [] then State_Monad.return None
      else (case buildComposeProject services of
        Inl e \<Rightarrow> State_Monad.return (Some (ComposeError e))
      | Inr (composeYAML, scaleArgs) \<Rightarrow>
          and_then (check MkdirFailed (Run client mkdir_cmd)) (do {
            r \<leftarrow> provisioner_readRemoteFile client composePath;
            (case r of
               Inl e \<Rightarrow> State_Monad.return (Some (InspectFailed e))
             | Inr currentCompose \<Rightarrow>
                 and_then
                   (if TrimSpace currentCompose \<noteq> TrimSpace composeYAML
                    then check WriteFailed (Run client (heredoc_cmd composePath composeYAML))
                    else State_Monad.return None)
                   (check UpFailed (Run client (up_cmd scaleArgs)))) })))"

subsection \<open>The whole sequence\<close>

datatype provision_error =
    SystemUpdateFailed string
  | DockerInstallFailed string
  | HardeningFailed hardening_error
  | DeployFailed deploy_error

definition update_cmd :: string where "update_cmd = ''sudo apt-get update && sudo apt-get upgrade -y''"

definition which_docker_cmd :: string where "which_docker_cmd = ''which docker''"

definition install_docker_cmd :: string where
  "install_docker_cmd = ''curl -fsSL https://get.docker.com | sh''"

definition RunFullProvisioning :: "'w SSHRunner \<Rightarrow> NodeManifest \<Rightarrow> ('w, provision_error option) state" where
  "RunFullProvisioning client m =
     and_then (check SystemUpdateFailed (Run client update_cmd))
    (and_then
       (do {
          (out, err) \<leftarrow> Run client which_docker_cmd;
          (if err \<noteq> None then check DockerInstallFailed (Run client install_docker_cmd)
           else State_Monad.return None) })
    (and_then (wrap_error HardeningFailed (ApplyHardening client (Firewall m)))
       (wrap_error DeployFailed (DeployServices client (Services m)))))"

subsection \<open>What a deployment sends\<close>

definition deploy_cmds :: "ServiceSpec list \<Rightarrow> string set" where
  "deploy_cmds ss =
     {mkdir_cmd, read_cmd composePath, heredoc_cmd composePath (compose_text ss),
      up_cmd (sort (map scale_arg (scaled ss)))}"

lemma DeployServices_policy:
  "policy snd (\<lambda>e. fst e \<in> deploy_cmds ss) (DeployServices (traced client) ss)"
  unfolding DeployServices_def provisioner_readRemoteFile_def
  by (intro policy_intros) (auto simp: deploy_cmds_def buildComposeProject_Inr_iff)

lemma DeployServices_rejected:
  "ss \<noteq> [] \<Longrightarrow> buildComposeProject ss = Inl e \<Longrightarrow>
   DeployServices client ss = State_Monad.return (Some (ComposeError e))"
  by (simp add: DeployServices_def)

lemma run_plan_if:
  "run_plan client ((if b then [(c, f)] else []) @ p) =
   and_then (if b then check f (Run client c) else State_Monad.return None) (run_plan client p)"
  by (simp add: run_plan_Cons)

text \<open>The part of a deployment after the compose file was read, as a plan.\<close>

definition deploy_plan :: "ServiceSpec list \<Rightarrow> string \<Rightarrow> deploy_error plan" where
  "deploy_plan ss current =
     (if TrimSpace current \<noteq> TrimSpace (compose_text ss)
      then [(heredoc_cmd composePath (compose_text ss), WriteFailed)] else []) @
     [(up_cmd (sort (map scale_arg (scaled ss))), UpFailed)]"

lemma DeployServices_valid:
  assumes "ss \<noteq> []" "valid_services ss"
  shows "DeployServices client ss =
    and_then (check MkdirFailed (Run client mkdir_cmd)) (do {
      r \<leftarrow> provisioner_readRemoteFile client composePath;
      (case r of
         Inl e \<Rightarrow> State_Monad.return (Some (InspectFailed e))
       | Inr currentCompose \<Rightarrow> run_plan client (deploy_plan ss currentCompose)) })"
proof -
  have "buildComposeProject ss = Inr (compose_text ss, sort (map scale_arg (scaled ss)))"
    using assms(2) by (simp add: buildComposeProject_Inr_iff)
  then show ?thesis
    using assms(1)
    by (simp only: DeployServices_def deploy_plan_def run_plan_if run_plan_Cons run_plan_Nil
        and_then_right_None sum.case prod.case if_False)
qed

text \<open>The steps of a deployment, with the world after each: what it means that it succeeded.\<close>

lemma DeployServices_success:
  assumes "ss \<noteq> []" "run_state (DeployServices client ss) w = (None, w')"
  obtains o1 w1 current w2 where
    "valid_services ss" "run_state (Run client mkdir_cmd) w = ((o1, None), w1)"
    "run_state (Run client (read_cmd composePath)) w1 = ((current, None), w2)"
    "run_state (run_plan client (deploy_plan ss current)) w2 = (None, w')"
proof -
  have v: "valid_services ss"
  proof (rule ccontr)
    assume "\<not> valid_services ss"
    then obtain e where "buildComposeProject ss = Inl e"
      using buildComposeProject_Inr_iff by (cases "buildComposeProject ss") auto
    then show False using assms by (simp add: DeployServices_rejected)
  qed
  from assms(2) show ?thesis
    unfolding DeployServices_valid[OF assms(1) v] provisioner_readRemoteFile_def
    by (auto simp: and_then_def check_def split: prod.splits option.splits intro: that[OF v])
qed

lemma run_plan_Cons_None:
  "run_state (run_plan client ((c, f) # p)) w = (None, w') \<longleftrightarrow>
   (\<exists>out w1. run_state (Run client c) w = ((out, None), w1) \<and> run_state (run_plan client p) w1 = (None, w'))"
  by (auto simp: run_plan_Cons and_then_def check_def split: prod.splits option.splits)

subsection \<open>Deploying twice\<close>

text \<open>
  What a deployment relies on of the server: \<open>file w\<close> is the content of the compose file, empty
  when there is none.  Reading it gives it back, a here-document without an \<open>EOF\<close> line stores its
  text and a newline, and the other commands leave it alone.
\<close>

definition compose_host :: "'w SSHRunner \<Rightarrow> ('w \<Rightarrow> string) \<Rightarrow> bool" where
  "compose_host client file \<longleftrightarrow>
     (\<forall>w. file (snd (run_state (Run client mkdir_cmd) w)) = file w) \<and>
     (\<forall>w. fst (run_state (Run client (read_cmd composePath)) w) = (file w, None) \<and>
          file (snd (run_state (Run client (read_cmd composePath)) w)) = file w) \<and>
     (\<forall>w body out w'. heredoc_safe body \<and>
          run_state (Run client (heredoc_cmd composePath body)) w = ((out, None), w') \<longrightarrow>
          file w' = body @ NL) \<and>
     (\<forall>w args. file (snd (run_state (Run client (up_cmd args)) w)) = file w)"

lemma compose_text_heredoc_safe:
  assumes "\<forall>s \<in> set ss. one_line_service s"
  shows "heredoc_safe (compose_text ss)"
  using compose_text_lines[OF assms] compose_lines_not_EOF[of ss] by (simp add: heredoc_safe_def)

text \<open>After a successful deployment the server has the compose file of these services.\<close>

lemma DeployServices_file:
  assumes host: "compose_host client file" and one: "\<forall>s \<in> set ss. one_line_service s"
    and ne: "ss \<noteq> []" and run: "run_state (DeployServices client ss) w = (None, w')"
  shows "TrimSpace (file w') = TrimSpace (compose_text ss)"
  using ne run
proof (rule DeployServices_success)
  fix o1 w1 current w2
  assume rd: "run_state (Run client (read_cmd composePath)) w1 = ((current, None), w2)"
    and plan: "run_state (run_plan client (deploy_plan ss current)) w2 = (None, w')"
  have cur: "current = file w2"
    using host rd unfolding compose_host_def by (metis fst_conv snd_conv)
  have up: "file v' = file v" if "run_state (Run client (up_cmd args)) v = (r, v')" for args v r v'
    using host that unfolding compose_host_def by (metis snd_conv)
  show ?thesis
  proof (cases "TrimSpace current = TrimSpace (compose_text ss)")
    case True
    then show ?thesis using plan up cur by (auto simp: deploy_plan_def run_plan_Cons_None)
  next
    case False
    then obtain out w3 where
      w3: "run_state (Run client (heredoc_cmd composePath (compose_text ss))) w2 = ((out, None), w3)"
      and "file w' = file w3"
      using plan up by (auto simp: deploy_plan_def run_plan_Cons_None)
    moreover have "file w3 = compose_text ss @ NL"
      using host w3 compose_text_heredoc_safe[OF one] unfolding compose_host_def by blast
    ultimately show ?thesis by simp
  qed
qed

text \<open>A deployment that finds its own file sends no command that writes it.\<close>

lemma cmd_kinds:
  "mkdir_cmd \<noteq> heredoc_cmd composePath body" "read_cmd p \<noteq> heredoc_cmd composePath body"
  "up_cmd args \<noteq> heredoc_cmd composePath body"
  by (simp_all add: mkdir_cmd_def read_cmd_def up_cmd_def heredoc_cmd_def Let_def)

lemma DeployServices_up_to_date:
  assumes host: "compose_host client file" and same: "TrimSpace (file w) = TrimSpace (compose_text ss)"
  shows "heredoc_cmd composePath body \<notin> set (cmds_of (DeployServices (traced client) ss) w)"
proof (cases "ss \<noteq> [] \<and> valid_services ss")
  case False
  then have "ss = [] \<or> (\<exists>e. buildComposeProject ss = Inl e)"
    using buildComposeProject_Inr_iff by (cases "buildComposeProject ss") auto
  then show ?thesis
    by (auto simp: DeployServices_def cmds_of_def trace_of_def)
next
  case True
  obtain o1 e1 w1 where m: "run_state (Run client mkdir_cmd) w = ((o1, e1), w1)" by (metis prod.exhaust)
  have f1: "file w1 = file w" using host m unfolding compose_host_def by (metis snd_conv)
  obtain w2 where rd: "run_state (Run client (read_cmd composePath)) w1 = ((file w1, None), w2)"
    using host unfolding compose_host_def by (metis prod.collapse)
  have "deploy_plan ss (file w1) = [(up_cmd (sort (map scale_arg (scaled ss))), UpFailed)]"
    using same f1 by (simp add: deploy_plan_def)
  then have "set (cmds_of (DeployServices (traced client) ss) w) \<subseteq>
      {mkdir_cmd, read_cmd composePath, up_cmd (sort (map scale_arg (scaled ss)))}"
    using True m rd unfolding cmds_of_def trace_of_def
    by (auto simp: DeployServices_valid provisioner_readRemoteFile_def and_then_def check_def
        run_plan_Cons traced_def split: prod.splits option.splits)
  then show ?thesis using cmd_kinds by (metis insert_iff singletonD subsetD)
qed

subsection \<open>What the whole sequence sends\<close>

definition setup_cmds :: "string set" where
  "setup_cmds = {update_cmd, which_docker_cmd, install_docker_cmd}"

lemma ApplyHardening_traced:
  "\<exists>h. sends snd (wrap_error f (ApplyHardening (traced client) fw)) w h \<and>
     (h = [] \<or> plan_outcome (hardening_plan fw) h (fst (run_state (ApplyHardening (traced client) fw) w))) \<and>
     (fst (run_state (ApplyHardening (traced client) fw) w) = None \<longrightarrow> h \<noteq> [])"
proof (cases "fw_Backend fw = ''ufw''")
  case True
  obtain h where h: "sends snd (ApplyHardening (traced client) fw) w h"
    "plan_outcome (hardening_plan fw) h (fst (run_state (ApplyHardening (traced client) fw) w))"
    using traced.run_plan_trace[of client "hardening_plan fw" w] True by (auto simp: ApplyHardening_plan)
  have "sends snd (wrap_error f (ApplyHardening (traced client) fw)) w h"
    using h(1) by (rule sends_wrap_error)
  moreover have "h \<noteq> []" using h(2) by (auto simp: plan_outcome_def hardening_plan_def split: option.splits)
  ultimately show ?thesis using h(2) True by blast
next
  case False
  then show ?thesis by (auto simp: ApplyHardening_unsupported intro: exI[of _ "[]"])
qed

text \<open>
  The trace of a provisioning run is a set-up part, then what running the hardening plan sends,
  then the deployment; each part is there only when the ones before it went through.
\<close>

lemma RunFullProvisioning_trace:
  "\<exists>a h d. trace_of (RunFullProvisioning (traced client) m) w = a @ h @ d \<and>
     list_all (\<lambda>e. fst e \<in> setup_cmds) a \<and>
     (h = [] \<or> (\<exists>r. plan_outcome (hardening_plan (Firewall m)) h r \<and> (d \<noteq> [] \<longrightarrow> r = None))) \<and>
     (d \<noteq> [] \<longrightarrow> h \<noteq> []) \<and>
     list_all (\<lambda>e. fst e \<in> deploy_cmds (Services m)) d"
proof -
  let ?c = "traced client"
  let ?S = "\<lambda>e :: string \<times> reply. fst e \<in> setup_cmds"
  let ?m1 = "check SystemUpdateFailed (Run ?c update_cmd)"
  let ?m2 = "do { (out, err) \<leftarrow> Run ?c which_docker_cmd;
       (if err \<noteq> None then check DockerInstallFailed (Run ?c install_docker_cmd)
        else State_Monad.return None) }"
  let ?m3 = "wrap_error HardeningFailed (ApplyHardening ?c (Firewall m))"
  let ?m4 = "wrap_error DeployFailed (DeployServices ?c (Services m))"
  have eq: "RunFullProvisioning ?c m = and_then (and_then ?m1 ?m2) (and_then ?m3 ?m4)"
    by (simp add: RunFullProvisioning_def and_then_assoc)
  have p12: "policy snd ?S (and_then ?m1 ?m2)"
    by (intro policy_intros) (auto simp: setup_cmds_def)
  obtain a where a: "sends snd (and_then ?m1 ?m2) (w, []) a" "list_all ?S a"
    using policyD[OF p12] by blast
  let ?w2 = "snd (run_state (and_then ?m1 ?m2) (w, []))"
  obtain h where h: "sends snd ?m3 ?w2 h"
    "h = [] \<or> plan_outcome (hardening_plan (Firewall m)) h (fst (run_state (ApplyHardening ?c (Firewall m)) ?w2))"
    "fst (run_state (ApplyHardening ?c (Firewall m)) ?w2) = None \<longrightarrow> h \<noteq> []"
    using ApplyHardening_traced[of HardeningFailed client "Firewall m" ?w2]
    by (elim exE conjE) (rule that)
  have "policy snd (\<lambda>e. fst e \<in> deploy_cmds (Services m)) ?m4"
    by (intro policy_wrap_error DeployServices_policy)
  from policyD[OF this, of "snd (run_state ?m3 ?w2)"] obtain d where d: "sends snd ?m4 (snd (run_state ?m3 ?w2)) d"
    "list_all (\<lambda>e. fst e \<in> deploy_cmds (Services m)) d"
    by (elim exE conjE) (rule that)
  from sends_three_stages[OF a(1) h(1) d(1)] obtain h' d' where
    all: "sends snd (and_then (and_then ?m1 ?m2) (and_then ?m3 ?m4)) (w, []) (a @ h' @ d')" and
    parts: "h' = [] \<and> d' = [] \<or> h' = h \<and> (d' = [] \<or> d' = d \<and> fst (run_state ?m3 ?w2) = None)"
    by (elim exE conjE) (rule that)
  have trace: "trace_of (RunFullProvisioning ?c m) w = a @ h' @ d'"
    unfolding eq by (rule trace_of_sends) (rule all)
  obtain r where r: "fst (run_state (ApplyHardening ?c (Firewall m)) ?w2) = r" by blast
  show ?thesis
    using parts h(2,3) a(2) d(2) unfolding fst_wrap_error r
    by (intro exI[of _ a] exI[of _ h'] exI[of _ d']) (auto simp: trace simp del: run_state_bind)
qed

subsection \<open>Kinds of commands\<close>

lemma enable_not_setup: "enable_ufw_cmd \<notin> setup_cmds"
  by (simp add: setup_cmds_def enable_ufw_cmd_def update_cmd_def which_docker_cmd_def install_docker_cmd_def)

lemma enable_not_deploy: "enable_ufw_cmd \<notin> deploy_cmds ss"
  by (simp add: deploy_cmds_def enable_ufw_cmd_def mkdir_cmd_def read_cmd_def heredoc_cmd_def up_cmd_def Let_def)

lemma deploy_cmd_starts:
  "c \<in> deploy_cmds ss \<Longrightarrow> prefix ''mkdir'' c \<or> prefix ''test'' c \<or> prefix ''cat'' c \<or> prefix ''cd'' c"
  by (auto simp: deploy_cmds_def mkdir_cmd_def read_cmd_def heredoc_cmd_def up_cmd_def Let_def split: if_splits)

lemma deploy_not_setup: "c \<in> deploy_cmds ss \<Longrightarrow> c \<notin> setup_cmds"
  using deploy_cmd_starts[of c ss]
  by (auto simp: setup_cmds_def update_cmd_def which_docker_cmd_def install_docker_cmd_def)

lemma hardening_cmd_starts: "c \<in> set (map fst (hardening_plan fw)) \<Longrightarrow> prefix ''sudo ufw '' c"
  by (auto simp: hardening_cmds enable_ufw_cmd_def allow_ssh_cmd_def allow_port_cmd_def split: if_splits)

lemma deploy_not_hardening:
  assumes "c \<in> deploy_cmds ss"
  shows "c \<notin> set (map fst (hardening_plan fw))"
proof
  assume "c \<in> set (map fst (hardening_plan fw))"
  then have "prefix ''sudo ufw '' c" by (rule hardening_cmd_starts)
  then show False using deploy_cmd_starts[OF assms] by (auto simp: prefix_def)
qed

lemma plan_outcome_cmds: "plan_outcome p es r \<Longrightarrow> e \<in> set es \<Longrightarrow> fst e \<in> set (map fst p)"
  using plan_outcome_prefix[of p es r] set_mono_prefix by (metis image_eqI list.set_map subsetD)

subsection \<open>Properties\<close>

text \<open>
  C1: provisioning a server from a loaded manifest never locks the operator out: whenever the
  enabling of the firewall is sent, the SSH rule and the rule of every port of the manifest were
  sent just before it, in order, and answered without error.
\<close>

theorem provisioning_no_lockout:
  assumes "Load rd um path = Inr m"
    and "trace_of (RunFullProvisioning (traced client) m) w = es @ (enable_ufw_cmd, r) # es'"
  shows "\<exists>a h. es = a @ h \<and> list_all reply_ok h \<and>
    map fst h = allow_ssh_cmd # map allow_port_cmd (fw_AllowPorts (Firewall m))"
proof -
  obtain a h d where t: "trace_of (RunFullProvisioning (traced client) m) w = a @ h @ d"
    "list_all (\<lambda>e. fst e \<in> setup_cmds) a" "h = [] \<or> (\<exists>r. plan_outcome (hardening_plan (Firewall m)) h r)"
    "list_all (\<lambda>e. fst e \<in> deploy_cmds (Services m)) d"
    using RunFullProvisioning_trace[of client m w] by (elim exE conjE) (rule that, auto)
  have "(enable_ufw_cmd, r) \<notin> set a" "(enable_ufw_cmd, r) \<notin> set d"
    using t(2,4) enable_not_setup enable_not_deploy by (auto simp: list_all_iff)
  moreover have "a @ h @ d = es @ (enable_ufw_cmd, r) # es'" using t(1) assms(2) by simp
  ultimately obtain h1 h2 where h: "es = a @ h1" "h = h1 @ (enable_ufw_cmd, r) # h2"
    by (metis split_in_tail split_in_head)
  then obtain q where "plan_outcome (hardening_plan (Firewall m)) (h1 @ (enable_ufw_cmd, r) # h2) q"
    using t(3) by auto
  from enable_is_last[OF this] have "map fst h1 = allow_ssh_cmd # map allow_port_cmd (fw_AllowPorts (Firewall m))"
    "list_all reply_ok h1"
    using Load_wf[OF assms(1)] by (simp_all add: hardening_cmds butlast_append wf_manifest_def)
  then show ?thesis using h(1) by (intro exI[of _ a] exI[of _ h1]) simp
qed

definition no_services :: NodeManifest where
  "no_services = applyDefaults (example_manifest\<lparr>Services := []\<rparr>)"

theorem provisioning_no_lockout_witness:
  "\<exists>h. list_all reply_ok h \<and>
     map fst h = allow_ssh_cmd # map allow_port_cmd (fw_AllowPorts (Firewall no_services))"
proof -
  have ld: "Load (\<lambda>_. Inr ''x'') (\<lambda>_. Inr (example_manifest\<lparr>Services := []\<rparr>)) ''p'' = Inr no_services"
    by (simp add: Load_def validate_def example_manifest_def RoleRelay_def no_services_def)
  have tr: "trace_of (RunFullProvisioning (traced (constant_client ([], None))) no_services) () =
    [(update_cmd, ([], None)), (which_docker_cmd, ([], None)), (allow_ssh_cmd, ([], None)),
     (allow_port_cmd 80, ([], None)), (allow_port_cmd 443, ([], None))] @
    (enable_ufw_cmd, ([], None)) # []"
    by code_simp
  from provisioning_no_lockout[OF ld tr] show ?thesis by (elim exE conjE) (intro exI conjI)
qed

text \<open>
  C8: services are only touched behind a configured firewall: when provisioning sends a command of
  the deployment, the whole hardening plan was sent before it, in order, and all of it was
  answered without error.
\<close>

theorem services_after_firewall:
  assumes "trace_of (RunFullProvisioning (traced client) m) w = es @ (c, r) # es'"
    and "c \<in> deploy_cmds (Services m)"
  shows "\<exists>a h d. es = a @ h @ d \<and> map fst h = map fst (hardening_plan (Firewall m)) \<and> list_all reply_ok h"
proof -
  obtain a h d where t: "trace_of (RunFullProvisioning (traced client) m) w = a @ h @ d"
    "list_all (\<lambda>e. fst e \<in> setup_cmds) a"
    "h = [] \<or> (\<exists>r. plan_outcome (hardening_plan (Firewall m)) h r \<and> (d \<noteq> [] \<longrightarrow> r = None))"
    "d \<noteq> [] \<longrightarrow> h \<noteq> []"
    using RunFullProvisioning_trace[of client m w] by (elim exE conjE) (rule that)
  have "(c, r) \<notin> set a" using t(2) deploy_not_setup[OF assms(2)] by (auto simp: list_all_iff)
  moreover have "(c, r) \<notin> set h"
    using t(3) deploy_not_hardening[OF assms(2), of "Firewall m"] plan_outcome_cmds[of "hardening_plan (Firewall m)" h _ "(c, r)"]
    by auto
  ultimately have "(c, r) \<notin> set (a @ h)" by simp
  from split_in_tail[OF _ this] obtain d1 where d: "es = (a @ h) @ d1" "d = d1 @ (c, r) # es'"
    using t(1) assms(1) by (metis append.assoc)
  then have "plan_outcome (hardening_plan (Firewall m)) h None" using t(3,4) by auto
  then show ?thesis using d(1) by (auto simp: plan_outcome_def)
qed

definition one_service :: NodeManifest where
  "one_service = applyDefaults (example_manifest\<lparr>Firewall := example_firewall\<rparr>)"

lemma mkdir_fails:
  "DeployServices (traced (failing_client mkdir_cmd)) (Services one_service) =
     check MkdirFailed (Run (traced (failing_client mkdir_cmd)) mkdir_cmd)"
proof -
  have "Services one_service \<noteq> []" "valid_services (Services one_service)"
    by (simp_all add: one_service_def example_manifest_def example_service_def valid_services_def)
  then show ?thesis
    by (intro state_ext)
      (auto simp: DeployServices_valid and_then_def check_def traced_def failing_client_def
        split: prod.splits)
qed

theorem services_after_firewall_witness:
  "\<exists>h. map fst h = map fst (hardening_plan (Firewall one_service)) \<and> list_all reply_ok h"
proof -
  have tr: "trace_of (RunFullProvisioning (traced (failing_client mkdir_cmd)) one_service) () =
    [(update_cmd, ([], None)), (which_docker_cmd, ([], None)), (allow_ssh_cmd, ([], None)),
     (allow_port_cmd 80, ([], None)), (allow_port_cmd 443, ([], None)), (enable_ufw_cmd, ([], None))] @
    (mkdir_cmd, ([], Some ''e'')) # []"
    unfolding RunFullProvisioning_def mkdir_fails by code_simp
  have c: "mkdir_cmd \<in> deploy_cmds (Services one_service)"
    by (simp add: deploy_cmds_def)
  from services_after_firewall[OF tr c] show ?thesis by (elim exE conjE) (intro exI conjI)
qed

text \<open>
  C25: what provisioning can do to a server is bounded: every command is one of the three of the
  set-up, a firewall command of the manifest or a command of the deployment of its services.
  Nothing installs Nomad or Fail2Ban and nothing touches the configuration of \<^verbatim>\<open>sshd\<close>.
\<close>

theorem provisioning_commands:
  "set (cmds_of (RunFullProvisioning (traced client) m) w) \<subseteq>
     setup_cmds \<union> set (map fst (hardening_plan (Firewall m))) \<union> deploy_cmds (Services m)"
proof -
  obtain a h d where t: "trace_of (RunFullProvisioning (traced client) m) w = a @ h @ d"
    "list_all (\<lambda>e. fst e \<in> setup_cmds) a" "h = [] \<or> (\<exists>r. plan_outcome (hardening_plan (Firewall m)) h r)"
    "list_all (\<lambda>e. fst e \<in> deploy_cmds (Services m)) d"
    using RunFullProvisioning_trace[of client m w] by (elim exE conjE) (rule that, auto)
  have "set (map fst h) \<subseteq> set (map fst (hardening_plan (Firewall m)))"
    using t(3) plan_outcome_cmds by fastforce
  moreover have "set (map fst a) \<subseteq> setup_cmds" "set (map fst d) \<subseteq> deploy_cmds (Services m)"
    using t(2,4) by (auto simp: list_all_iff)
  ultimately show ?thesis unfolding cmds_of_def t(1) by auto
qed

subsection \<open>A server with one file\<close>

text \<open>
  A world that is just the compose file, and a shell that knows the commands of a deployment: the
  instance on which the theorems about deploying twice are applied.
\<close>

definition heredoc_body :: "string \<Rightarrow> string \<Rightarrow> string option" where
  "heredoc_body path cmd =
     (let pre = ''cat > '' @ path @ '' << '' @ SQ @ ''EOF'' @ SQ @ NL
      in if prefix pre cmd then Some (take (length cmd - length pre - 4) (drop (length pre) cmd)) else None)"

definition file_host :: "string SSHRunner" where
  "file_host =
     \<lparr>Run = (\<lambda>cmd. State (\<lambda>file.
        if cmd = read_cmd composePath then ((file, None), file)
        else (case heredoc_body composePath cmd of
                Some body \<Rightarrow> (([], None), body @ NL)
              | None \<Rightarrow> (([], None), file)))),
      Close = State_Monad.return None\<rparr>"

lemma heredoc_body_cmd: "heredoc_body p (heredoc_cmd p body) = Some body"
  by (simp add: heredoc_body_def heredoc_cmd_def Let_def)

lemma heredoc_body_other:
  "heredoc_body p mkdir_cmd = None" "heredoc_body p (up_cmd args) = None"
  by (simp_all add: heredoc_body_def mkdir_cmd_def up_cmd_def Let_def)

lemma other_not_read: "mkdir_cmd \<noteq> read_cmd p" "up_cmd args \<noteq> read_cmd p" "heredoc_cmd q b \<noteq> read_cmd p"
  by (simp_all add: mkdir_cmd_def up_cmd_def read_cmd_def heredoc_cmd_def Let_def)

lemma file_host_Run:
  "run_state (Run file_host (read_cmd composePath)) w = ((w, None), w)"
  "run_state (Run file_host mkdir_cmd) w = (([], None), w)"
  "run_state (Run file_host (up_cmd args)) w = (([], None), w)"
  "run_state (Run file_host (heredoc_cmd composePath body)) w = (([], None), body @ NL)"
  using other_not_read by (simp_all add: file_host_def heredoc_body_cmd heredoc_body_other)

lemma file_host_compose: "compose_host file_host (\<lambda>w. w)"
  by (simp add: compose_host_def file_host_Run)

lemma file_host_deploys:
  assumes "ss \<noteq> []" "valid_services ss"
  shows "\<exists>w'. run_state (DeployServices file_host ss) w = (None, w')"
  using assms
  by (simp add: DeployServices_valid and_then_def check_def provisioner_readRemoteFile_def file_host_Run
      deploy_plan_def run_plan_Cons)

subsection \<open>Deploying twice\<close>

text \<open>
  C5: deploying is idempotent: on a server that keeps the compose file as \<open>compose_host\<close> says, for a
  list of services that is not empty and whose texts are of one line, after a deployment that
  returned nil the file is the compose text of these services up to white space, and a second
  deployment of the same services writes no file.
\<close>

theorem DeployServices_idempotent:
  assumes "compose_host client file" and "\<forall>s \<in> set ss. one_line_service s" and "ss \<noteq> []"
    and "run_state (DeployServices client ss) w = (None, w')"
  shows "TrimSpace (file w') = TrimSpace (compose_text ss) \<and>
    heredoc_cmd composePath body \<notin> set (cmds_of (DeployServices (traced client) ss) w')"
  using DeployServices_file[OF assms] DeployServices_up_to_date[OF assms(1)] by blast

theorem DeployServices_idempotent_witness:
  "\<exists>w'. TrimSpace w' = TrimSpace (compose_text [example_service]) \<and>
    heredoc_cmd composePath ''x'' \<notin> set (cmds_of (DeployServices (traced file_host) [example_service]) w')"
proof -
  have "valid_services [example_service]" by (simp add: valid_services_def example_service_def)
  then obtain w' where w': "run_state (DeployServices file_host [example_service]) [] = (None, w')"
    using file_host_deploys[of "[example_service]" "[]"] by auto
  have one: "\<forall>s \<in> set [example_service]. one_line_service s"
    by (simp add: one_line_service_def example_service_def)
  show ?thesis
    using DeployServices_idempotent[OF file_host_compose one _ w', of "''x''"] by auto
qed

end
