(* ===== verification/Go_Json.thy ===== *)
theory Go_Json
  imports Go_Format
begin

text \<open>
  The parts of \<^verbatim>\<open>unicode/utf8\<close> and \<^verbatim>\<open>encoding/json\<close> the program uses: the length of the rune at
  the front of a byte string, and the quoting of a string as \<^verbatim>\<open>json.Marshal\<close> does it, HTML
  characters, the line separators and invalid UTF-8 included.
\<close>

subsection \<open>Runes\<close>

definition byte_in :: "nat \<Rightarrow> nat \<Rightarrow> char \<Rightarrow> bool" where
  "byte_in lo hi c \<longleftrightarrow> lo \<le> (of_char c :: nat) \<and> (of_char c :: nat) \<le> hi"

abbreviation cont_byte :: "char \<Rightarrow> bool" where "cont_byte \<equiv> byte_in 0x80 0xBF"

text \<open>\<^verbatim>\<open>utf8.DecodeRune\<close>: the size of a valid rune, \<^term>\<open>None\<close> for an invalid encoding (width 1).\<close>

fun rune_size :: "string \<Rightarrow> nat option" where
  "rune_size [] = None"
| "rune_size (a # r) =
     (if byte_in 0 0x7F a then Some 1
      else if byte_in 0xC2 0xDF a then
        (case r of b # _ \<Rightarrow> if cont_byte b then Some 2 else None | _ \<Rightarrow> None)
      else if byte_in 0xE0 0xEF a then
        (case r of
           b # c # _ \<Rightarrow>
             if cont_byte c \<and>
                (if a = CHR 0xE0 then byte_in 0xA0 0xBF b
                 else if a = CHR 0xED then byte_in 0x80 0x9F b else cont_byte b)
             then Some 3 else None
         | _ \<Rightarrow> None)
      else if byte_in 0xF0 0xF4 a then
        (case r of
           b # c # d # _ \<Rightarrow>
             if cont_byte c \<and> cont_byte d \<and>
                (if a = CHR 0xF0 then byte_in 0x90 0xBF b
                 else if a = CHR 0xF4 then byte_in 0x80 0x8F b else cont_byte b)
             then Some 4 else None
         | _ \<Rightarrow> None)
      else None)"

lemma rune_size_pos: "rune_size s = Some n \<Longrightarrow> 0 < n"
  by (cases s) (auto split: if_splits list.splits)

lemma rune_size_le: "rune_size s = Some n \<Longrightarrow> n \<le> length s"
  by (cases s) (auto split: if_splits list.splits)

declare rune_size.simps(2) [simp del]

subsection \<open>Quoting a string\<close>

definition json_hex :: "nat \<Rightarrow> char" where
  "json_hex n = ''0123456789abcdef'' ! n"

abbreviation BS :: string where "BS \<equiv> [CHR 0x5C]"

definition json_escape_byte :: "char \<Rightarrow> string" where
  "json_escape_byte c =
     (if c = CHR 0x5C \<or> c = CHR 0x22 then BS @ [c]
      else if c = CHR 0x08 then BS @ ''b''
      else if c = CHR 0x0C then BS @ ''f''
      else if c = CHR 0x0A then BS @ ''n''
      else if c = CHR 0x0D then BS @ ''r''
      else if c = CHR 0x09 then BS @ ''t''
      else if (of_char c :: nat) < 0x20 \<or> c = CHR ''<'' \<or> c = CHR ''>'' \<or> c = CHR ''&''
        then BS @ ''u00'' @ [json_hex (of_char c div 16), json_hex (of_char c mod 16)]
      else [c])"

function json_escape :: "string \<Rightarrow> string" where
  "json_escape s =
     (case s of
        [] \<Rightarrow> []
      | c # cs \<Rightarrow>
          if byte_in 0 0x7F c then json_escape_byte c @ json_escape cs
          else (case rune_size s of
             None \<Rightarrow> BS @ ''ufffd'' @ json_escape cs
           | Some n \<Rightarrow>
               (if take n s = [CHR 0xE2, CHR 0x80, CHR 0xA8] then BS @ ''u2028''
                else if take n s = [CHR 0xE2, CHR 0x80, CHR 0xA9] then BS @ ''u2029''
                else take n s) @ json_escape (drop n s)))"
  by pat_completeness auto
termination
  by (relation "measure length") (auto dest: rune_size_pos)

declare json_escape.simps [simp del]

definition json_string :: "string \<Rightarrow> string" where
  "json_string s = DQ @ json_escape s @ DQ"

text \<open>A struct of strings, in the order of its fields.\<close>

definition json_object :: "(string \<times> string) list \<Rightarrow> string" where
  "json_object fs = ''{'' @ Join (map (\<lambda>(k, v). json_string k @ '':'' @ json_string v) fs) '','' @ ''}''"

text \<open>No control byte survives quoting: the text stays on one line.\<close>

lemma json_hex_ascii: "n < 16 \<Longrightarrow> graphic (json_hex n)"
proof -
  assume "n < 16"
  then have "json_hex n \<in> set ''0123456789abcdef''"
    unfolding json_hex_def by (intro nth_mem) simp
  moreover have "\<forall>c \<in> set ''0123456789abcdef''. graphic c" by (simp add: graphic_def)
  ultimately show ?thesis by blast
qed

end
