(* ===== verification/Telegram.thy ===== *)
theory Telegram
  imports Runner Go_Json
begin

text \<open>
  \<^verbatim>\<open>internal/audit/telegram.go\<close>: sending a message through the Telegram bot API.  The network is
  an argument: \<open>http_Post url content_type body\<close> answers with a transport error or with a status
  code and the body of the response.
\<close>

record TelegramMessage =
  msg_ChatID :: string
  msg_Text :: string
  msg_ParseMode :: string

datatype telegram_error =
    MarshalFailed string
  | RequestFailed string
  | APIError int bytes
  | ConfigIncomplete

type_synonym 'w http_post = "string \<Rightarrow> string \<Rightarrow> bytes \<Rightarrow> ('w, string + (int \<times> bytes)) state"

text \<open>\<^verbatim>\<open>json.Marshal\<close> of the struct with its tags; three strings always marshal.\<close>

definition marshal_message :: "TelegramMessage \<Rightarrow> string + bytes" where
  "marshal_message m =
     Inr (json_object [(''chat_id'', msg_ChatID m), (''text'', msg_Text m), (''parse_mode'', msg_ParseMode m)])"

definition telegram_url :: "string \<Rightarrow> string" where
  "telegram_url botToken = ''https://api.telegram.org/bot'' @ botToken @ ''/sendMessage''"

definition SendTelegramMessage ::
  "'w http_post \<Rightarrow> string \<Rightarrow> string \<Rightarrow> string \<Rightarrow> ('w, telegram_error option) state"
where
  "SendTelegramMessage http_Post botToken chatID message =
     (let url = telegram_url botToken;
          msg = \<lparr>msg_ChatID = chatID, msg_Text = message, msg_ParseMode = ''Markdown''\<rparr>
      in case marshal_message msg of
        Inl err \<Rightarrow> State_Monad.return (Some (MarshalFailed err))
      | Inr jsonData \<Rightarrow> do {
          resp \<leftarrow> http_Post url ''application/json'' jsonData;
          State_Monad.return
            (case resp of
               Inl err \<Rightarrow> Some (RequestFailed err)
             | Inr (status, body) \<Rightarrow> if status \<noteq> 200 then Some (APIError status body) else None) })"

text \<open>The lookup of an unknown level gives the zero value, an empty prefix.\<close>

definition level_prefix :: "string \<Rightarrow> string" where
  "level_prefix level =
     (if level = ''CRITICAL'' then ''[CRITICAL]''
      else if level = ''WARNING'' then ''[WARNING]''
      else if level = ''INFO'' then ''[INFO]''
      else if level = ''SUCCESS'' then ''[PASS]''
      else [])"

definition SendTelegramAlert ::
  "'w http_post \<Rightarrow> string \<Rightarrow> string \<Rightarrow> string \<Rightarrow> string \<Rightarrow> string \<Rightarrow> ('w, telegram_error option) state"
where
  "SendTelegramAlert http_Post botToken chatID level title description =
     (let message = level_prefix level @ '' '' @ title @ NL @ NL @ description @ NL
      in SendTelegramMessage http_Post botToken chatID message)"

end
