(* ===== verification/Security_Audit.thy ===== *)
theory Security_Audit
  imports Telegram
begin

text \<open>
  \<^verbatim>\<open>internal/audit/audit.go\<close>: the three groups of checks, the report they fill in and the
  message built from it.  A level is a string in the source and stays one.  The time stamp of the
  report is an argument.
\<close>

record SecurityAlert =
  al_Level :: string
  al_Component :: string
  al_Issue :: string
  al_Details :: string
  al_Timestamp :: int

record AuditReport =
  rep_Hostname :: string
  rep_Timestamp :: int
  SystemChecks :: "SecurityAlert list"
  DockerChecks :: "SecurityAlert list"
  NomadChecks :: "SecurityAlert list"
  CriticalCount :: int
  WarningCount :: int
  PassedCount :: int

abbreviation CRITICAL :: string where "CRITICAL \<equiv> ''CRITICAL''"

abbreviation WARNING :: string where "WARNING \<equiv> ''WARNING''"

abbreviation INFO :: string where "INFO \<equiv> ''INFO''"

text \<open>An alert as the source builds it: the time stamp is left at its zero value.\<close>

definition alert :: "string \<Rightarrow> string \<Rightarrow> string \<Rightarrow> string \<Rightarrow> SecurityAlert" where
  "alert level component issue details =
     \<lparr>al_Level = level, al_Component = component, al_Issue = issue, al_Details = details,
      al_Timestamp = 0\<rparr>"

subsection \<open>System checks\<close>

record system_check =
  sc_name :: string
  sc_cmd :: string
  sc_pass :: "string \<Rightarrow> bool"
  sc_issue :: string

definition nonempty :: "string \<Rightarrow> bool" where
  "nonempty s \<longleftrightarrow> length s > 0"

definition system_checks :: "system_check list" where
  "system_checks =
    [\<lparr>sc_name = ''SSH key-based auth'',
      sc_cmd = ''grep -i 'passwordauthentication no' /etc/ssh/sshd_config'',
      sc_pass = nonempty,
      sc_issue = ''SSH password authentication is enabled''\<rparr>,
     \<lparr>sc_name = ''Firewall active'',
      sc_cmd = ''sudo ufw status | grep 'Status: active'' @ SQ,
      sc_pass = nonempty,
      sc_issue = ''UFW firewall is not active''\<rparr>,
     \<lparr>sc_name = ''Fail2Ban running'',
      sc_cmd = ''sudo systemctl is-active fail2ban'',
      sc_pass = (\<lambda>s. Contains s ''active''),
      sc_issue = ''Fail2Ban service is not running''\<rparr>,
     \<lparr>sc_name = ''SELinux/AppArmor'',
      sc_cmd = ''getenforce 2>/dev/null || aa-status 2>/dev/null | head -1'',
      sc_pass = (\<lambda>s. length (TrimSpace s) > 0),
      sc_issue = ''No MAC (SELinux/AppArmor) detected''\<rparr>,
     \<lparr>sc_name = ''Sudo audit logging'',
      sc_cmd = ''grep -i 'audit.*sudo' /etc/audit/rules.d/* 2>/dev/null | head -1'',
      sc_pass = nonempty,
      sc_issue = ''Sudo commands are not being audited''\<rparr>]"

definition system_step :: "'w SSHRunner \<Rightarrow> system_check \<Rightarrow> AuditReport \<Rightarrow> ('w, AuditReport) state" where
  "system_step client c report = do {
     (out, _) \<leftarrow> Run client (sc_cmd c);
     State_Monad.return
       (if sc_pass c out then report\<lparr>PassedCount := PassedCount report + 1\<rparr>
        else report\<lparr>WarningCount := WarningCount report + 1,
                    SystemChecks := SystemChecks report @
                      [alert WARNING ''SYSTEM'' (sc_name c) (sc_issue c)]\<rparr>) }"

definition auditSystemSecurity :: "'w SSHRunner \<Rightarrow> AuditReport \<Rightarrow> ('w, AuditReport) state" where
  "auditSystemSecurity client report = for_each (system_step client) system_checks report"

subsection \<open>Docker checks\<close>

record level_check =
  lc_name :: string
  lc_cmd :: string
  lc_pass :: "string \<Rightarrow> bool"
  lc_issue :: string
  lc_level :: string

definition is_zero :: "string \<Rightarrow> bool" where
  "is_zero s \<longleftrightarrow> TrimSpace s = ''0''"

definition docker_checks :: "level_check list" where
  "docker_checks =
    [\<lparr>lc_name = ''Docker daemon security'',
      lc_cmd = ''docker info | grep 'Security Options'' @ SQ,
      lc_pass = (\<lambda>s. length s > 10),
      lc_issue = ''Docker daemon has no security options enabled'',
      lc_level = WARNING\<rparr>,
     \<lparr>lc_name = ''Container resource limits'',
      lc_cmd = ''docker ps --format '{{.Names}}' | xargs -I {} docker inspect {} | grep -i 'memory.*0' | wc -l'',
      lc_pass = is_zero,
      lc_issue = ''Some containers have no memory limits'',
      lc_level = WARNING\<rparr>,
     \<lparr>lc_name = ''Privileged containers'',
      lc_cmd = ''docker ps --format '{{json .}}' | grep -i privileged | wc -l'',
      lc_pass = is_zero,
      lc_issue = ''Privileged containers detected'',
      lc_level = CRITICAL\<rparr>,
     \<lparr>lc_name = ''Docker socket permissions'',
      lc_cmd = ''ls -l /var/run/docker.sock | awk '{print $1}'' @ SQ,
      lc_pass = (\<lambda>s. Contains s ''srw''),
      lc_issue = ''Docker socket has incorrect permissions'',
      lc_level = CRITICAL\<rparr>]"

definition docker_step :: "'w SSHRunner \<Rightarrow> level_check \<Rightarrow> AuditReport \<Rightarrow> ('w, AuditReport) state" where
  "docker_step client c report = do {
     (out, _) \<leftarrow> Run client (lc_cmd c);
     State_Monad.return
       (if lc_pass c out then report\<lparr>PassedCount := PassedCount report + 1\<rparr>
        else
          (let a = alert (lc_level c) ''DOCKER'' (lc_name c) (lc_issue c);
               report' = (if lc_level c = CRITICAL
                          then report\<lparr>CriticalCount := CriticalCount report + 1\<rparr>
                          else report\<lparr>WarningCount := WarningCount report + 1\<rparr>)
           in report'\<lparr>DockerChecks := DockerChecks report' @ [a]\<rparr>)) }"

definition auditDockerSecurity :: "'w SSHRunner \<Rightarrow> AuditReport \<Rightarrow> ('w, AuditReport) state" where
  "auditDockerSecurity client report = do {
     (_, err) \<leftarrow> Run client ''which docker'';
     (if err \<noteq> None then
        State_Monad.return (report\<lparr>DockerChecks := DockerChecks report @
          [alert INFO ''DOCKER'' ''Docker not installed'' ''Docker is not installed on this system'']\<rparr>)
      else for_each (docker_step client) docker_checks report) }"

subsection \<open>Nomad checks\<close>

definition nomad_checks :: "level_check list" where
  "nomad_checks =
    [\<lparr>lc_name = ''Nomad TLS enabled'',
      lc_cmd = ''grep -i 'tls.*true' /etc/nomad.d/nomad.hcl 2>/dev/null'',
      lc_pass = nonempty,
      lc_issue = ''Nomad TLS encryption is not enabled'',
      lc_level = WARNING\<rparr>,
     \<lparr>lc_name = ''Nomad ACL enabled'',
      lc_cmd = ''grep -i 'acl.*enabled' /etc/nomad.d/nomad.hcl 2>/dev/null'',
      lc_pass = nonempty,
      lc_issue = ''Nomad ACL is not enabled'',
      lc_level = WARNING\<rparr>,
     \<lparr>lc_name = ''Nomad audit logging'',
      lc_cmd = ''grep -i 'audit' /etc/nomad.d/nomad.hcl 2>/dev/null'',
      lc_pass = nonempty,
      lc_issue = ''Nomad audit logging is not configured'',
      lc_level = INFO\<rparr>]"

definition nomad_step :: "'w SSHRunner \<Rightarrow> level_check \<Rightarrow> AuditReport \<Rightarrow> ('w, AuditReport) state" where
  "nomad_step client c report = do {
     (out, _) \<leftarrow> Run client (lc_cmd c);
     State_Monad.return
       (if lc_pass c out then report\<lparr>PassedCount := PassedCount report + 1\<rparr>
        else
          (let a = alert (lc_level c) ''NOMAD'' (lc_name c) (lc_issue c);
               report' = (if lc_level c = CRITICAL
                          then report\<lparr>CriticalCount := CriticalCount report + 1\<rparr>
                          else report\<lparr>WarningCount := WarningCount report + 1\<rparr>)
           in report'\<lparr>NomadChecks := NomadChecks report' @ [a]\<rparr>)) }"

definition auditNomadSecurity :: "'w SSHRunner \<Rightarrow> AuditReport \<Rightarrow> ('w, AuditReport) state" where
  "auditNomadSecurity client report = do {
     (_, err) \<leftarrow> Run client ''which nomad'';
     (if err \<noteq> None then
        State_Monad.return (report\<lparr>NomadChecks := NomadChecks report @
          [alert INFO ''NOMAD'' ''Nomad not installed'' ''Nomad is not installed on this system'']\<rparr>)
      else for_each (nomad_step client) nomad_checks report) }"

subsection \<open>The message\<close>

text \<open>The UTF-8 bytes of the symbols in the message.\<close>

definition emoji :: "string \<Rightarrow> string" where
  "emoji level =
     (if level = ''CRITICAL'' then [CHR 0xF0, CHR 0x9F, CHR 0x94, CHR 0xB4]
      else if level = ''WARNING'' then [CHR 0xF0, CHR 0x9F, CHR 0x9F, CHR 0xA1]
      else if level = ''INFO'' then [CHR 0xE2, CHR 0x84, CHR 0xB9, CHR 0xEF, CHR 0xB8, CHR 0x8F]
      else if level = ''PASSED'' then [CHR 0xE2, CHR 0x9C, CHR 0x85]
      else [])"

definition magnifier :: string where "magnifier = [CHR 0xF0, CHR 0x9F, CHR 0x94, CHR 0x8D]"

definition bullet :: string where "bullet = [CHR 0xE2, CHR 0x80, CHR 0xA2]"

definition alert_line :: "SecurityAlert \<Rightarrow> string" where
  "alert_line a = bullet @ '' `'' @ al_Issue a @ ''`: '' @ al_Details a @ NL"

text \<open>One of the six loops: the lines of the alerts of one level in one list.\<close>

definition add_alerts :: "string \<Rightarrow> SecurityAlert list \<Rightarrow> string \<Rightarrow> string" where
  "add_alerts level alerts message =
     foldl (\<lambda>m a. if al_Level a = level then m @ alert_line a else m) message alerts"

definition buildAuditMessage :: "AuditReport \<Rightarrow> string" where
  "buildAuditMessage report =
     (let m0 = ''*'' @ magnifier @ '' Security Audit Report*'' @ NL;
          m1 = m0 @ ''Host: `'' @ rep_Hostname report @ ''`'' @ NL;
          m2 = m1 @ NL @ ''*Summary:*'' @ NL;
          m3 = m2 @ emoji ''CRITICAL'' @ '' Critical: '' @ itoa (CriticalCount report) @ NL;
          m4 = m3 @ emoji ''WARNING'' @ '' Warnings: '' @ itoa (WarningCount report) @ NL;
          m5 = m4 @ emoji ''PASSED'' @ '' Passed: '' @ itoa (PassedCount report) @ NL;
          m6 = (if CriticalCount report > 0
                then add_alerts CRITICAL (NomadChecks report)
                       (add_alerts CRITICAL (DockerChecks report)
                          (add_alerts CRITICAL (SystemChecks report)
                             (m5 @ NL @ ''*'' @ emoji ''CRITICAL'' @ '' CRITICAL ISSUES:*'' @ NL)))
                else m5)
      in if WarningCount report > 0
         then add_alerts WARNING (NomadChecks report)
                (add_alerts WARNING (DockerChecks report)
                   (add_alerts WARNING (SystemChecks report)
                      (m6 @ NL @ ''*'' @ emoji ''WARNING'' @ '' WARNINGS:*'' @ NL)))
         else m6)"

subsection \<open>The audit\<close>

record TelegramConfig =
  BotToken :: string
  ChatID :: string

definition sendAuditReport ::
  "'w http_post \<Rightarrow> TelegramConfig \<Rightarrow> AuditReport \<Rightarrow> ('w, telegram_error option) state"
where
  "sendAuditReport http_Post cfg report =
     (if BotToken cfg = [] \<or> ChatID cfg = [] then State_Monad.return (Some ConfigIncomplete)
      else SendTelegramMessage http_Post (BotToken cfg) (ChatID cfg) (buildAuditMessage report))"

definition new_report :: "string \<Rightarrow> int \<Rightarrow> AuditReport" where
  "new_report hostname now =
     \<lparr>rep_Hostname = hostname, rep_Timestamp = now, SystemChecks = [], DockerChecks = [],
      NomadChecks = [], CriticalCount = 0, WarningCount = 0, PassedCount = 0\<rparr>"

text \<open>
  The error the source returns beside the report is always nil; a report that could not be sent
  is only logged.
\<close>

definition RunSecurityAudit ::
  "'w http_post \<Rightarrow> int \<Rightarrow> 'w SSHRunner \<Rightarrow> TelegramConfig option \<Rightarrow> ('w, AuditReport) state"
where
  "RunSecurityAudit http_Post now client telegramCfg = do {
     (hostname, _) \<leftarrow> Run client ''hostname'';
     r1 \<leftarrow> auditSystemSecurity client (new_report (TrimSpace hostname) now);
     r2 \<leftarrow> auditDockerSecurity client r1;
     report \<leftarrow> auditNomadSecurity client r2;
     (case telegramCfg of
        None \<Rightarrow> State_Monad.return report
      | Some cfg \<Rightarrow>
          if BotToken cfg \<noteq> [] then do {
            _ \<leftarrow> sendAuditReport http_Post cfg report;
            State_Monad.return report }
          else State_Monad.return report) }"

subsection \<open>Accounting\<close>

text \<open>
  All alerts of a report, in the order \<^verbatim>\<open>cmd/gs\<close> prints them; \<open>graded\<close> ones come from a check,
  the others say that Docker or Nomad is missing and are not counted.
\<close>

definition all_alerts :: "AuditReport \<Rightarrow> SecurityAlert list" where
  "all_alerts r = SystemChecks r @ DockerChecks r @ NomadChecks r"

definition docker_missing :: SecurityAlert where
  "docker_missing = alert INFO ''DOCKER'' ''Docker not installed'' ''Docker is not installed on this system''"

definition nomad_missing :: SecurityAlert where
  "nomad_missing = alert INFO ''NOMAD'' ''Nomad not installed'' ''Nomad is not installed on this system''"

definition graded :: "SecurityAlert \<Rightarrow> bool" where
  "graded a \<longleftrightarrow> a \<noteq> docker_missing \<and> a \<noteq> nomad_missing"

definition count_alerts :: "(SecurityAlert \<Rightarrow> bool) \<Rightarrow> AuditReport \<Rightarrow> int" where
  "count_alerts P r = int (length (filter P (all_alerts r)))"

definition balanced :: "AuditReport \<Rightarrow> bool" where
  "balanced r \<longleftrightarrow>
     CriticalCount r = count_alerts (\<lambda>a. al_Level a = CRITICAL) r \<and>
     WarningCount r = count_alerts (\<lambda>a. al_Level a \<noteq> CRITICAL \<and> graded a) r"

definition total_checks :: "AuditReport \<Rightarrow> int" where
  "total_checks r = PassedCount r + WarningCount r + CriticalCount r"

definition same_header :: "AuditReport \<Rightarrow> AuditReport \<Rightarrow> bool" where
  "same_header r r' \<longleftrightarrow> rep_Hostname r' = rep_Hostname r \<and> rep_Timestamp r' = rep_Timestamp r"

lemma same_header_refl [simp]: "same_header r r"
  by (simp add: same_header_def)

lemma same_header_trans [trans]: "same_header a b \<Longrightarrow> same_header b c \<Longrightarrow> same_header a c"
  by (simp add: same_header_def)

text \<open>
  What the three groups of checks have in common, and what the audit relies on when it runs them
  one after the other: the counters keep agreeing with the alerts, some number of checks is added
  to the total, and the header of the report stays.
\<close>

locale audit_stage =
  fixes stage :: "AuditReport \<Rightarrow> ('w, AuditReport) state"
    and checks :: "int set"
  assumes stage_balanced: "balanced r \<Longrightarrow> balanced (fst (run_state (stage r) w))"
    and stage_total: "total_checks (fst (run_state (stage r) w)) - total_checks r \<in> checks"
    and stage_header: "same_header r (fst (run_state (stage r) w))"

locale audit_pipeline =
  sys: audit_stage sys checks1 + dock: audit_stage dock checks2 + nom: audit_stage nom checks3
  for sys :: "AuditReport \<Rightarrow> ('w, AuditReport) state" and checks1
    and dock :: "AuditReport \<Rightarrow> ('w, AuditReport) state" and checks2
    and nom :: "AuditReport \<Rightarrow> ('w, AuditReport) state" and checks3
begin

lemma pipeline_balanced:
  "balanced r \<Longrightarrow> balanced (fst (run_state (do { r1 \<leftarrow> sys r; r2 \<leftarrow> dock r1; nom r2 }) w))"
  by (auto split: prod.splits)
    (metis dock.stage_balanced fst_conv nom.stage_balanced sys.stage_balanced)

lemma pipeline_total:
  "\<exists>a \<in> checks1. \<exists>b \<in> checks2. \<exists>c \<in> checks3.
     total_checks (fst (run_state (do { r1 \<leftarrow> sys r; r2 \<leftarrow> dock r1; nom r2 }) w)) = total_checks r + a + b + c"
proof -
  obtain r1 w1 where 1: "run_state (sys r) w = (r1, w1)" by fastforce
  obtain r2 w2 where 2: "run_state (dock r1) w1 = (r2, w2)" by fastforce
  obtain r3 w3 where 3: "run_state (nom r2) w2 = (r3, w3)" by fastforce
  have "total_checks r1 - total_checks r \<in> checks1" "total_checks r2 - total_checks r1 \<in> checks2"
    "total_checks r3 - total_checks r2 \<in> checks3"
    using sys.stage_total[of r w] dock.stage_total[of r1 w1] nom.stage_total[of r2 w2] 1 2 3 by simp_all
  then show ?thesis
    using 1 2 3
    by (intro bexI[of _ "total_checks r1 - total_checks r"] bexI[of _ "total_checks r2 - total_checks r1"]
        bexI[of _ "total_checks r3 - total_checks r2"]) simp_all
qed

lemma pipeline_header:
  "same_header r (fst (run_state (do { r1 \<leftarrow> sys r; r2 \<leftarrow> dock r1; nom r2 }) w))"
proof -
  obtain r1 w1 where 1: "run_state (sys r) w = (r1, w1)" by fastforce
  obtain r2 w2 where 2: "run_state (dock r1) w1 = (r2, w2)" by fastforce
  show ?thesis
    using sys.stage_header[of r w] dock.stage_header[of r1 w1] nom.stage_header[of r2 w2] 1 2
    by (simp add: same_header_def)
qed

end

subsection \<open>The stages meet the contract\<close>

lemma for_each_total:
  assumes "\<And>x s w. x \<in> set xs \<Longrightarrow> total_checks (fst (run_state (f x s) w)) = total_checks s + 1"
  shows "total_checks (fst (run_state (for_each f xs s) w)) = total_checks s + int (length xs)"
  using assms
proof (induction xs arbitrary: s w)
  case Nil
  then show ?case by simp
next
  case (Cons x xs)
  obtain s' w' where r: "run_state (f x s) w = (s', w')" by fastforce
  have "total_checks s' = total_checks s + 1" using Cons.prems[of x s w] r by simp
  then show ?case using Cons.IH[of s' w'] Cons.prems r by simp
qed

lemma count_alerts_simps [simp]:
  "count_alerts P (r\<lparr>PassedCount := n\<rparr>) = count_alerts P r"
  "count_alerts P (r\<lparr>WarningCount := n\<rparr>) = count_alerts P r"
  "count_alerts P (r\<lparr>CriticalCount := n\<rparr>) = count_alerts P r"
  "count_alerts P (r\<lparr>SystemChecks := SystemChecks r @ [a]\<rparr>) = count_alerts P r + (if P a then 1 else 0)"
  "count_alerts P (r\<lparr>DockerChecks := DockerChecks r @ [a]\<rparr>) = count_alerts P r + (if P a then 1 else 0)"
  "count_alerts P (r\<lparr>NomadChecks := NomadChecks r @ [a]\<rparr>) = count_alerts P r + (if P a then 1 else 0)"
  by (simp_all add: count_alerts_def all_alerts_def)

lemma alert_simps [simp]:
  "al_Level (alert l c i d) = l" "al_Issue (alert l c i d) = i" "al_Details (alert l c i d) = d"
  by (simp_all add: alert_def)

lemma graded_issue: "i \<noteq> ''Docker not installed'' \<Longrightarrow> i \<noteq> ''Nomad not installed'' \<Longrightarrow> graded (alert l c i d)"
  by (auto simp: graded_def docker_missing_def nomad_missing_def alert_def)

lemma missing_not_graded [simp]: "\<not> graded docker_missing" "\<not> graded nomad_missing"
  by (simp_all add: graded_def)

lemma check_issues:
  "c \<in> set docker_checks \<union> set nomad_checks \<Longrightarrow> graded (alert l co (lc_name c) d)"
  "s \<in> set system_checks \<Longrightarrow> graded (alert l co (sc_name s) d)"
  by (auto simp: docker_checks_def nomad_checks_def system_checks_def intro!: graded_issue)

lemma WARNING_not_CRITICAL [simp]: "(''WARNING'' :: string) \<noteq> ''CRITICAL''" "(''INFO'' :: string) \<noteq> ''CRITICAL''"
  "(''INFO'' :: string) \<noteq> ''WARNING''"
  by simp_all

lemma balanced_graded_step:
  assumes "graded a" "balanced r"
  shows "al_Level a \<noteq> CRITICAL \<Longrightarrow>
      balanced (r\<lparr>WarningCount := WarningCount r + 1, SystemChecks := SystemChecks r @ [a]\<rparr>)"
    and "al_Level a \<noteq> CRITICAL \<Longrightarrow>
      balanced (r\<lparr>WarningCount := WarningCount r + 1, DockerChecks := DockerChecks r @ [a]\<rparr>)"
    and "al_Level a \<noteq> CRITICAL \<Longrightarrow>
      balanced (r\<lparr>WarningCount := WarningCount r + 1, NomadChecks := NomadChecks r @ [a]\<rparr>)"
    and "al_Level a = CRITICAL \<Longrightarrow>
      balanced (r\<lparr>CriticalCount := CriticalCount r + 1, DockerChecks := DockerChecks r @ [a]\<rparr>)"
    and "al_Level a = CRITICAL \<Longrightarrow>
      balanced (r\<lparr>CriticalCount := CriticalCount r + 1, NomadChecks := NomadChecks r @ [a]\<rparr>)"
  using assms by (simp_all add: balanced_def count_alerts_def all_alerts_def)

lemma balanced_passed [simp]: "balanced (r\<lparr>PassedCount := n\<rparr>) = balanced r"
  by (simp add: balanced_def)

lemma balanced_missing:
  "balanced r \<Longrightarrow> balanced (r\<lparr>DockerChecks := DockerChecks r @ [docker_missing]\<rparr>)"
  "balanced r \<Longrightarrow> balanced (r\<lparr>NomadChecks := NomadChecks r @ [nomad_missing]\<rparr>)"
  by (simp_all add: balanced_def) (simp_all add: docker_missing_def nomad_missing_def)

lemma system_step_effect:
  assumes "c \<in> set system_checks"
  shows "total_checks (fst (run_state (system_step client c r) w)) = total_checks r + 1"
    and "balanced r \<Longrightarrow> balanced (fst (run_state (system_step client c r) w))"
    and "same_header r (fst (run_state (system_step client c r) w))"
  using check_issues(2)[OF assms]
  by (auto simp: system_step_def total_checks_def same_header_def run_simps intro: balanced_graded_step
      split: prod.splits)

lemma docker_step_effect:
  assumes "c \<in> set docker_checks"
  shows "total_checks (fst (run_state (docker_step client c r) w)) = total_checks r + 1"
    and "balanced r \<Longrightarrow> balanced (fst (run_state (docker_step client c r) w))"
    and "same_header r (fst (run_state (docker_step client c r) w))"
  using check_issues(1)[of c] assms
  by (auto simp: docker_step_def total_checks_def same_header_def Let_def intro: balanced_graded_step
      split: prod.splits)

lemma nomad_step_effect:
  assumes "c \<in> set nomad_checks"
  shows "total_checks (fst (run_state (nomad_step client c r) w)) = total_checks r + 1"
    and "balanced r \<Longrightarrow> balanced (fst (run_state (nomad_step client c r) w))"
    and "same_header r (fst (run_state (nomad_step client c r) w))"
  using check_issues(1)[of c] assms
  by (auto simp: nomad_step_def total_checks_def same_header_def Let_def intro: balanced_graded_step
      split: prod.splits)

lemma for_each_same_header:
  assumes "\<And>x s w. x \<in> set xs \<Longrightarrow> same_header s (fst (run_state (f x s) w))"
  shows "same_header s (fst (run_state (for_each f xs s) w))"
  by (rule for_each_acc_inv[where I = "same_header s"]) (use assms in \<open>auto simp: same_header_def\<close>)

lemma system_effect:
  "balanced r \<Longrightarrow> balanced (fst (run_state (auditSystemSecurity client r) w))"
  "total_checks (fst (run_state (auditSystemSecurity client r) w)) = total_checks r + 5"
  "same_header r (fst (run_state (auditSystemSecurity client r) w))"
proof -
  show "balanced r \<Longrightarrow> balanced (fst (run_state (auditSystemSecurity client r) w))"
    unfolding auditSystemSecurity_def by (rule for_each_acc_inv) (auto intro: system_step_effect)
  show "total_checks (fst (run_state (auditSystemSecurity client r) w)) = total_checks r + 5"
    unfolding auditSystemSecurity_def
    by (subst for_each_total) (auto intro: system_step_effect simp: system_checks_def)
  show "same_header r (fst (run_state (auditSystemSecurity client r) w))"
    unfolding auditSystemSecurity_def by (rule for_each_same_header) (rule system_step_effect)
qed

lemma docker_effect:
  "balanced r \<Longrightarrow> balanced (fst (run_state (auditDockerSecurity client r) w))"
  "total_checks (fst (run_state (auditDockerSecurity client r) w)) - total_checks r \<in> {0, 4}"
  "same_header r (fst (run_state (auditDockerSecurity client r) w))"
proof -
  obtain out err w' where run: "run_state (Run client ''which docker'') w = ((out, err), w')"
    by (metis prod.exhaust)
  let ?r = "fst (run_state (for_each (docker_step client) docker_checks r) w')"
  have "total_checks ?r = total_checks r + 4"
    by (subst for_each_total) (auto intro: docker_step_effect simp: docker_checks_def)
  moreover have "same_header r ?r" by (rule for_each_same_header) (rule docker_step_effect)
  moreover have "balanced r \<Longrightarrow> balanced ?r"
    by (rule for_each_acc_inv) (auto intro: docker_step_effect)
  ultimately show "balanced r \<Longrightarrow> balanced (fst (run_state (auditDockerSecurity client r) w))"
    "total_checks (fst (run_state (auditDockerSecurity client r) w)) - total_checks r \<in> {0, 4}"
    "same_header r (fst (run_state (auditDockerSecurity client r) w))"
    using balanced_missing(1)[of r]
    by (auto simp: auditDockerSecurity_def run total_checks_def same_header_def docker_missing_def)
qed

lemma nomad_effect:
  "balanced r \<Longrightarrow> balanced (fst (run_state (auditNomadSecurity client r) w))"
  "total_checks (fst (run_state (auditNomadSecurity client r) w)) - total_checks r \<in> {0, 3}"
  "same_header r (fst (run_state (auditNomadSecurity client r) w))"
proof -
  obtain out err w' where run: "run_state (Run client ''which nomad'') w = ((out, err), w')"
    by (metis prod.exhaust)
  let ?r = "fst (run_state (for_each (nomad_step client) nomad_checks r) w')"
  have "total_checks ?r = total_checks r + 3"
    by (subst for_each_total) (auto intro: nomad_step_effect simp: nomad_checks_def)
  moreover have "same_header r ?r" by (rule for_each_same_header) (rule nomad_step_effect)
  moreover have "balanced r \<Longrightarrow> balanced ?r"
    by (rule for_each_acc_inv) (auto intro: nomad_step_effect)
  ultimately show "balanced r \<Longrightarrow> balanced (fst (run_state (auditNomadSecurity client r) w))"
    "total_checks (fst (run_state (auditNomadSecurity client r) w)) - total_checks r \<in> {0, 3}"
    "same_header r (fst (run_state (auditNomadSecurity client r) w))"
    using balanced_missing(2)[of r]
    by (auto simp: auditNomadSecurity_def run total_checks_def same_header_def nomad_missing_def)
qed

interpretation audit: audit_pipeline "auditSystemSecurity client" "{5}"
  "auditDockerSecurity client" "{0, 4}" "auditNomadSecurity client" "{0, 3}"
  for client :: "'w SSHRunner"
  by unfold_locales (rule system_effect docker_effect nomad_effect | assumption | simp add: system_effect)+

subsection \<open>The report as a function of the replies\<close>

text \<open>
  What the report says is decided by the replies alone: \<open>audit_spec\<close> computes it from the record
  of the commands and replies, with no counters and no order of updates.
\<close>

definition answer :: "trace \<Rightarrow> string \<Rightarrow> string" where
  "answer tr cmd = (case map_of tr cmd of Some (out, _) \<Rightarrow> out | None \<Rightarrow> [])"

definition installed :: "trace \<Rightarrow> string \<Rightarrow> bool" where
  "installed tr tool = (case map_of tr (''which '' @ tool) of Some (_, None) \<Rightarrow> True | _ \<Rightarrow> False)"

definition failed_system :: "trace \<Rightarrow> system_check list \<Rightarrow> system_check list" where
  "failed_system tr cs = filter (\<lambda>c. \<not> sc_pass c (answer tr (sc_cmd c))) cs"

definition failed_level :: "trace \<Rightarrow> level_check list \<Rightarrow> level_check list" where
  "failed_level tr cs = filter (\<lambda>c. \<not> lc_pass c (answer tr (lc_cmd c))) cs"

definition system_alert :: "system_check \<Rightarrow> SecurityAlert" where
  "system_alert c = alert WARNING ''SYSTEM'' (sc_name c) (sc_issue c)"

definition level_alert :: "string \<Rightarrow> level_check \<Rightarrow> SecurityAlert" where
  "level_alert co c = alert (lc_level c) co (lc_name c) (lc_issue c)"

definition critical :: "level_check \<Rightarrow> bool" where
  "critical c \<longleftrightarrow> lc_level c = CRITICAL"

definition audit_spec :: "int \<Rightarrow> trace \<Rightarrow> AuditReport" where
  "audit_spec now tr =
     (let dock = (if installed tr ''docker'' then docker_checks else []);
          nom = (if installed tr ''nomad'' then nomad_checks else []);
          fs = failed_system tr system_checks; fd = failed_level tr dock; fn = failed_level tr nom
      in \<lparr>rep_Hostname = TrimSpace (answer tr ''hostname''), rep_Timestamp = now,
          SystemChecks = map system_alert fs,
          DockerChecks = (if installed tr ''docker'' then map (level_alert ''DOCKER'') fd else [docker_missing]),
          NomadChecks = (if installed tr ''nomad'' then map (level_alert ''NOMAD'') fn else [nomad_missing]),
          CriticalCount = int (length (filter critical (fd @ fn))),
          WarningCount = int (length fs) + int (length (filter (\<lambda>c. \<not> critical c) (fd @ fn))),
          PassedCount = int (length (system_checks)) + int (length dock) + int (length nom)
            - int (length fs) - int (length fd) - int (length fn)\<rparr>)"

text \<open>The commands an audit sends.\<close>

definition audit_script :: "bool \<Rightarrow> bool \<Rightarrow> string list" where
  "audit_script docker nomad =
     [''hostname''] @ map sc_cmd system_checks @ [''which docker''] @
     (if docker then map lc_cmd docker_checks else []) @ [''which nomad''] @
     (if nomad then map lc_cmd nomad_checks else [])"

definition grade_system :: "system_check \<Rightarrow> string \<Rightarrow> AuditReport \<Rightarrow> AuditReport" where
  "grade_system c out report =
     (if sc_pass c out then report\<lparr>PassedCount := PassedCount report + 1\<rparr>
      else report\<lparr>WarningCount := WarningCount report + 1,
                  SystemChecks := SystemChecks report @ [system_alert c]\<rparr>)"

definition grade_level ::
  "string \<Rightarrow> (SecurityAlert list \<Rightarrow> AuditReport \<Rightarrow> AuditReport) \<Rightarrow> level_check \<Rightarrow> string \<Rightarrow> AuditReport \<Rightarrow> AuditReport"
where
  "grade_level co add c out report =
     (if lc_pass c out then report\<lparr>PassedCount := PassedCount report + 1\<rparr>
      else add [level_alert co c]
             (if critical c then report\<lparr>CriticalCount := CriticalCount report + 1\<rparr>
              else report\<lparr>WarningCount := WarningCount report + 1\<rparr>))"

definition add_docker :: "SecurityAlert list \<Rightarrow> AuditReport \<Rightarrow> AuditReport" where
  "add_docker as r = r\<lparr>DockerChecks := DockerChecks r @ as\<rparr>"

definition add_nomad :: "SecurityAlert list \<Rightarrow> AuditReport \<Rightarrow> AuditReport" where
  "add_nomad as r = r\<lparr>NomadChecks := NomadChecks r @ as\<rparr>"

lemma step_grades:
  "system_step client = (\<lambda>c s. do { (out, _) \<leftarrow> Run client (sc_cmd c); State_Monad.return (grade_system c out s) })"
  "docker_step client =
     (\<lambda>c s. do { (out, _) \<leftarrow> Run client (lc_cmd c); State_Monad.return (grade_level ''DOCKER'' add_docker c out s) })"
  "nomad_step client =
     (\<lambda>c s. do { (out, _) \<leftarrow> Run client (lc_cmd c); State_Monad.return (grade_level ''NOMAD'' add_nomad c out s) })"
  by (simp_all add: fun_eq_iff system_step_def docker_step_def nomad_step_def grade_system_def grade_level_def
      system_alert_def level_alert_def add_docker_def add_nomad_def critical_def Let_def cong: if_cong)

lemma fold_grade_system:
  "fold (\<lambda>c. grade_system c (answer tr (sc_cmd c))) cs r =
     r\<lparr>SystemChecks := SystemChecks r @ map system_alert (failed_system tr cs),
       WarningCount := WarningCount r + int (length (failed_system tr cs)),
       PassedCount := PassedCount r + int (length cs) - int (length (failed_system tr cs))\<rparr>"
  by (induction cs arbitrary: r) (auto simp: failed_system_def grade_system_def)

lemma fold_grade_docker:
  "fold (\<lambda>c. grade_level co add_docker c (answer tr (lc_cmd c))) cs r =
     r\<lparr>DockerChecks := DockerChecks r @ map (level_alert co) (failed_level tr cs),
       CriticalCount := CriticalCount r + int (length (filter critical (failed_level tr cs))),
       WarningCount := WarningCount r + int (length (filter (\<lambda>c. \<not> critical c) (failed_level tr cs))),
       PassedCount := PassedCount r + int (length cs) - int (length (failed_level tr cs))\<rparr>"
  by (induction cs arbitrary: r) (auto simp: failed_level_def grade_level_def add_docker_def)

lemma fold_grade_nomad:
  "fold (\<lambda>c. grade_level co add_nomad c (answer tr (lc_cmd c))) cs r =
     r\<lparr>NomadChecks := NomadChecks r @ map (level_alert co) (failed_level tr cs),
       CriticalCount := CriticalCount r + int (length (filter critical (failed_level tr cs))),
       WarningCount := WarningCount r + int (length (filter (\<lambda>c. \<not> critical c) (failed_level tr cs))),
       PassedCount := PassedCount r + int (length cs) - int (length (failed_level tr cs))\<rparr>"
  by (induction cs arbitrary: r) (auto simp: failed_level_def grade_level_def add_nomad_def)

lemma fold_answer:
  assumes "distinct (map fst tr)" "length rs = length cs" "set (zip (map cmd cs) rs) \<subseteq> set tr"
  shows "fold (\<lambda>(c, r). g c (fst r)) (zip cs rs) s = fold (\<lambda>c. g c (answer tr (cmd c))) cs s"
  using assms(2,3)
proof (induction cs rs arbitrary: s rule: list_induct2')
  case (4 c cs r rs)
  have "map_of tr (cmd c) = Some r" using 4 assms(1) by simp
  then have "answer tr (cmd c) = fst r" by (simp add: answer_def split: prod.split)
  then show ?case using 4 by simp
qed simp_all

lemma system_trace:
  "\<exists>rs. length rs = length system_checks \<and>
     sends snd (auditSystemSecurity (traced client) r) w (zip (map sc_cmd system_checks) rs) \<and>
     fst (run_state (auditSystemSecurity (traced client) r) w) =
       fold (\<lambda>(c, r). grade_system c (fst r)) (zip system_checks rs) r"
  unfolding auditSystemSecurity_def step_grades by (rule traced.for_each_graded)

text \<open>The stages for Docker and Nomad have one shape: a probe, then all the checks or one alert.\<close>

lemma stage_trace:
  fixes stage g
  assumes stage: "\<And>r. stage r = do { (_, err) \<leftarrow> Run (traced client) probe;
    if err \<noteq> None then State_Monad.return (add [missing] r)
    else for_each (\<lambda>c s. do { (out, _) \<leftarrow> Run (traced client) (lc_cmd c); State_Monad.return (g c out s) }) cs r }"
  shows "\<exists>out err rs. length rs = length (if err = None then cs else []) \<and>
    sends snd (stage r) w ((probe, (out, err)) # zip (map lc_cmd (if err = None then cs else [])) rs) \<and>
    fst (run_state (stage r) w) =
      (if err = None then fold (\<lambda>(c, r). g c (fst r)) (zip cs rs) r else add [missing] r)"
proof -
  obtain out err w' where run: "run_state (Run (traced client) probe) w = ((out, err), w')"
    by (metis prod.exhaust)
  have log: "snd w' = snd w @ [(probe, (out, err))]"
    using traced.rlog_Run[of client probe w] run by simp
  show ?thesis
  proof (cases err)
    case None
    let ?loop = "for_each (\<lambda>c s. do { (out, _) \<leftarrow> Run (traced client) (lc_cmd c); State_Monad.return (g c out s) }) cs r"
    obtain rs where "length rs = length cs" "sends snd ?loop w' (zip (map lc_cmd cs) rs)"
      "fst (run_state ?loop w') = fold (\<lambda>(c, r). g c (fst r)) (zip cs rs) r"
      using traced.for_each_graded[of cs client lc_cmd g r w'] by blast
    then show ?thesis
      using run log None by (intro exI[of _ out] exI[of _ None] exI[of _ rs]) (simp add: sends_def stage)
  next
    case (Some e)
    then show ?thesis
      using run log by (intro exI[of _ out] exI[of _ "Some e"] exI[of _ "[]"]) (simp add: sends_def stage)
  qed
qed

lemma docker_trace:
  "\<exists>out err rs. length rs = length (if err = None then docker_checks else []) \<and>
     sends snd (auditDockerSecurity (traced client) r) w
       ((''which docker'', (out, err)) # zip (map lc_cmd (if err = None then docker_checks else [])) rs) \<and>
     fst (run_state (auditDockerSecurity (traced client) r) w) =
       (if err = None then fold (\<lambda>(c, r). grade_level ''DOCKER'' add_docker c (fst r)) (zip docker_checks rs) r
        else add_docker [docker_missing] r)"
  by (rule stage_trace[where client = client]) (simp only: auditDockerSecurity_def step_grades add_docker_def[symmetric] docker_missing_def[symmetric] cong: if_cong)

lemma nomad_trace:
  "\<exists>out err rs. length rs = length (if err = None then nomad_checks else []) \<and>
     sends snd (auditNomadSecurity (traced client) r) w
       ((''which nomad'', (out, err)) # zip (map lc_cmd (if err = None then nomad_checks else [])) rs) \<and>
     fst (run_state (auditNomadSecurity (traced client) r) w) =
       (if err = None then fold (\<lambda>(c, r). grade_level ''NOMAD'' add_nomad c (fst r)) (zip nomad_checks rs) r
        else add_nomad [nomad_missing] r)"
  by (rule stage_trace[where client = client]) (simp only: auditNomadSecurity_def step_grades add_nomad_def[symmetric] nomad_missing_def[symmetric] cong: if_cong)

lemma distinct_audit_script: "distinct (audit_script d n)"
  by (cases d; cases n) (simp_all add: audit_script_def system_checks_def docker_checks_def nomad_checks_def)

text \<open>The network of Telegram leaves the record of commands alone.\<close>

definition quiet_http :: "'w http_post \<Rightarrow> ('w \<times> trace) http_post" where
  "quiet_http h = (\<lambda>url ct body. State (\<lambda>(w, tr). case run_state (h url ct body) w of (a, w') \<Rightarrow> (a, (w', tr))))"

definition gather :: "int \<Rightarrow> 'w SSHRunner \<Rightarrow> ('w, AuditReport) state" where
  "gather now client = do {
     (hostname, _) \<leftarrow> Run client ''hostname'';
     r1 \<leftarrow> auditSystemSecurity client (new_report (TrimSpace hostname) now);
     r2 \<leftarrow> auditDockerSecurity client r1;
     auditNomadSecurity client r2 }"

lemma sends_http: "sends snd (quiet_http h u ct b) w es \<longleftrightarrow> es = []"
  by (auto simp: sends_def quiet_http_def split: prod.splits)

lemma sends_report: "sends snd (sendAuditReport (quiet_http h) cfg r) w []"
  by (auto simp: sends_def sendAuditReport_def SendTelegramMessage_def marshal_message_def quiet_http_def
      split: prod.splits)

lemma report_unlogged:
  "run_state (sendAuditReport (quiet_http h) cfg r) (a, b) = (c, d, e) \<Longrightarrow> e = b"
  using sends_report[of h cfg r "(a, b)"] by (simp add: sends_def)

lemma RunSecurityAudit_gather:
  "fst (run_state (RunSecurityAudit (quiet_http h) now (traced client) cfg) w) =
     fst (run_state (gather now (traced client)) w)"
  "snd (snd (run_state (RunSecurityAudit (quiet_http h) now (traced client) cfg) w)) =
     snd (snd (run_state (gather now (traced client)) w))"
  by (auto simp: RunSecurityAudit_def gather_def split: prod.splits option.splits dest: report_unlogged)

text \<open>The refinement: the report and the commands, from the recorded replies.\<close>

lemma spec_fields:
  assumes "installed tr ''docker'' = d" "installed tr ''nomad'' = n"
  shows "audit_spec now tr =
    (let r1 = fold (\<lambda>c. grade_system c (answer tr (sc_cmd c))) system_checks
                (new_report (TrimSpace (answer tr ''hostname'')) now);
         r2 = (if d then fold (\<lambda>c. grade_level ''DOCKER'' add_docker c (answer tr (lc_cmd c))) docker_checks r1
               else add_docker [docker_missing] r1)
     in if n then fold (\<lambda>c. grade_level ''NOMAD'' add_nomad c (answer tr (lc_cmd c))) nomad_checks r2
        else add_nomad [nomad_missing] r2)"
  using assms
  by (simp add: audit_spec_def Let_def fold_grade_system fold_grade_docker fold_grade_nomad new_report_def
      add_docker_def add_nomad_def)
     (simp add: failed_level_def)

text \<open>The record of a whole audit and its report, from the replies in the order of the stages.\<close>

definition audit_log :: "reply \<Rightarrow> reply list \<Rightarrow> reply \<Rightarrow> reply list \<Rightarrow> reply \<Rightarrow> reply list \<Rightarrow> trace" where
  "audit_log h srs d drs n nrs =
     [(''hostname'', h)] @ zip (map sc_cmd system_checks) srs @
     [(''which docker'', d)] @ zip (map lc_cmd (if snd d = None then docker_checks else [])) drs @
     [(''which nomad'', n)] @ zip (map lc_cmd (if snd n = None then nomad_checks else [])) nrs"

definition graded_report :: "int \<Rightarrow> reply \<Rightarrow> reply list \<Rightarrow> reply \<Rightarrow> reply list \<Rightarrow> reply \<Rightarrow> reply list \<Rightarrow> AuditReport" where
  "graded_report now h srs d drs n nrs =
     (let r1 = fold (\<lambda>(c, r). grade_system c (fst r)) (zip system_checks srs) (new_report (TrimSpace (fst h)) now);
          r2 = (if snd d = None then fold (\<lambda>(c, r). grade_level ''DOCKER'' add_docker c (fst r)) (zip docker_checks drs) r1
                else add_docker [docker_missing] r1)
      in if snd n = None then fold (\<lambda>(c, r). grade_level ''NOMAD'' add_nomad c (fst r)) (zip nomad_checks nrs) r2
         else add_nomad [nomad_missing] r2)"

definition complete_replies :: "reply list \<Rightarrow> reply \<Rightarrow> reply list \<Rightarrow> reply \<Rightarrow> reply list \<Rightarrow> bool" where
  "complete_replies srs d drs n nrs \<longleftrightarrow>
     length srs = length system_checks \<and> length drs = length (if snd d = None then docker_checks else []) \<and>
     length nrs = length (if snd n = None then nomad_checks else [])"

lemma gather_runs:
  "\<exists>h srs d drs n nrs. complete_replies srs d drs n nrs \<and>
     trace_of (gather now (traced client)) w = audit_log h srs d drs n nrs \<and>
     result_of (gather now (traced client)) w = graded_report now h srs d drs n nrs"
proof -
  let ?c = "traced client"
  obtain hout herr w1 where h: "run_state (Run ?c ''hostname'') (w, []) = ((hout, herr), w1)"
    by (metis prod.exhaust)
  have l1: "snd w1 = [(''hostname'', (hout, herr))]"
    using traced.rlog_Run[of client "''hostname''" "(w, [])"] h by simp
  let ?r0 = "new_report (TrimSpace hout) now"
  obtain r1 w2 where s: "run_state (auditSystemSecurity ?c ?r0) w1 = (r1, w2)" by (metis prod.exhaust)
  obtain r2 w3 where d: "run_state (auditDockerSecurity ?c r1) w2 = (r2, w3)" by (metis prod.exhaust)
  obtain r3 w4 where n: "run_state (auditNomadSecurity ?c r2) w3 = (r3, w4)" by (metis prod.exhaust)
  obtain srs where srs: "length srs = length system_checks"
    "snd w2 = snd w1 @ zip (map sc_cmd system_checks) srs"
    "r1 = fold (\<lambda>(c, r). grade_system c (fst r)) (zip system_checks srs) ?r0"
    using system_trace[of client ?r0 w1] s by (auto simp: sends_def)
  obtain dout derr drs where drs: "length drs = length (if derr = None then docker_checks else [])"
    "snd w3 = snd w2 @ (''which docker'', (dout, derr)) #
       zip (map lc_cmd (if derr = None then docker_checks else [])) drs"
    "r2 = (if derr = None then fold (\<lambda>(c, r). grade_level ''DOCKER'' add_docker c (fst r)) (zip docker_checks drs) r1
        else add_docker [docker_missing] r1)"
    using docker_trace[of client r1 w2] d by (auto simp: sends_def)
  obtain nout nerr nrs where nrs: "length nrs = length (if nerr = None then nomad_checks else [])"
    "snd w4 = snd w3 @ (''which nomad'', (nout, nerr)) #
       zip (map lc_cmd (if nerr = None then nomad_checks else [])) nrs"
    "r3 = (if nerr = None then fold (\<lambda>(c, r). grade_level ''NOMAD'' add_nomad c (fst r)) (zip nomad_checks nrs) r2
        else add_nomad [nomad_missing] r2)"
    using nomad_trace[of client r2 w3] n by (auto simp: sends_def)
  have "run_state (gather now ?c) (w, []) = (r3, w4)" by (simp add: gather_def h s d n)
  moreover have "snd w4 = audit_log (hout, herr) srs (dout, derr) drs (nout, nerr) nrs"
    using l1 srs(2) drs(2) nrs(2) by (simp add: audit_log_def)
  moreover have "r3 = graded_report now (hout, herr) srs (dout, derr) drs (nout, nerr) nrs"
    unfolding graded_report_def Let_def fst_conv snd_conv srs(3)[symmetric] drs(3)[symmetric] by (rule nrs(3))
  ultimately show ?thesis
    using srs(1) drs(1) nrs(1)
    by (intro exI[of _ "(hout, herr)"] exI[of _ srs] exI[of _ "(dout, derr)"] exI[of _ drs] exI[of _ "(nout, nerr)"] exI[of _ nrs])
      (simp add: complete_replies_def trace_of_def result_of_def)
qed

text \<open>No command is in the script twice, so the record holds the reply to each.\<close>

lemma audit_log_script:
  assumes "complete_replies srs d drs n nrs"
  shows "map fst (audit_log h srs d drs n nrs) = audit_script (snd d = None) (snd n = None)"
  using assms by (simp add: audit_log_def audit_script_def complete_replies_def)

lemma audit_log_answers:
  fixes h d n
  assumes "complete_replies srs d drs n nrs"
  defines "tr \<equiv> audit_log h srs d drs n nrs"
  shows "installed tr ''docker'' = (snd d = None)" "installed tr ''nomad'' = (snd n = None)"
    "answer tr ''hostname'' = fst h"
proof -
  have dist: "distinct (map fst tr)" unfolding tr_def audit_log_script[OF assms(1)] by (rule distinct_audit_script)
  then have mem: "map_of tr c = Some r" if "(c, r) \<in> set tr" for c r using that by simp
  have "map_of tr ''hostname'' = Some h" "map_of tr ''which docker'' = Some d" "map_of tr ''which nomad'' = Some n"
    by (rule mem; simp add: tr_def audit_log_def)+
  then show "installed tr ''docker'' = (snd d = None)" "installed tr ''nomad'' = (snd n = None)"
    "answer tr ''hostname'' = fst h"
    by (auto simp: installed_def answer_def case_prod_beta split: option.splits)
qed

lemma graded_report_spec:
  assumes "complete_replies srs d drs n nrs"
  shows "graded_report now h srs d drs n nrs = audit_spec now (audit_log h srs d drs n nrs)" (is "_ = audit_spec now ?tr")
proof -
  have dist: "distinct (map fst ?tr)" unfolding audit_log_script[OF assms] by (rule distinct_audit_script)
  have sub: "set (zip (map sc_cmd system_checks) srs) \<subseteq> set ?tr"
    "snd d = None \<Longrightarrow> set (zip (map lc_cmd docker_checks) drs) \<subseteq> set ?tr"
    "snd n = None \<Longrightarrow> set (zip (map lc_cmd nomad_checks) nrs) \<subseteq> set ?tr"
    unfolding audit_log_def by auto
  have len: "length srs = length system_checks" "snd d = None \<Longrightarrow> length drs = length docker_checks"
    "snd n = None \<Longrightarrow> length nrs = length nomad_checks"
    using assms by (simp_all add: complete_replies_def)
  have sys: "fold (\<lambda>(c, r). grade_system c (fst r)) (zip system_checks srs) r = fold (\<lambda>c. grade_system c (answer ?tr (sc_cmd c))) system_checks r" for r
    by (rule fold_answer[OF dist len(1) sub(1)])
  have docker: "fold (\<lambda>(c, r). grade_level ''DOCKER'' add_docker c (fst r)) (zip docker_checks drs) r =
      fold (\<lambda>c. grade_level ''DOCKER'' add_docker c (answer ?tr (lc_cmd c))) docker_checks r" if "snd d = None" for r
    by (rule fold_answer[OF dist len(2)[OF that] sub(2)[OF that]])
  have nomad: "fold (\<lambda>(c, r). grade_level ''NOMAD'' add_nomad c (fst r)) (zip nomad_checks nrs) r =
      fold (\<lambda>c. grade_level ''NOMAD'' add_nomad c (answer ?tr (lc_cmd c))) nomad_checks r" if "snd n = None" for r
    by (rule fold_answer[OF dist len(3)[OF that] sub(3)[OF that]])
  show ?thesis
    unfolding spec_fields[OF audit_log_answers(1,2)[OF assms]] audit_log_answers(3)[OF assms] graded_report_def Let_def sys
    by (cases "snd d = None"; cases "snd n = None") (simp_all only: docker nomad if_True if_False)
qed

lemma gather_spec:
  "let tr = trace_of (gather now (traced client)) w in
     result_of (gather now (traced client)) w = audit_spec now tr \<and>
     map fst tr = audit_script (installed tr ''docker'') (installed tr ''nomad'')"
proof -
  obtain h srs d drs n nrs where c: "complete_replies srs d drs n nrs"
    and "trace_of (gather now (traced client)) w = audit_log h srs d drs n nrs"
    and "result_of (gather now (traced client)) w = graded_report now h srs d drs n nrs"
    using gather_runs[of now client w] by (elim exE conjE) (rule that)
  then show ?thesis
    using graded_report_spec[OF c] audit_log_script[OF c] audit_log_answers(1,2)[OF c] by (simp add: Let_def)
qed

subsection \<open>Properties\<close>

text \<open>What the documentation names and the program does not use.\<close>

definition readme_commands :: "string list" where
  "readme_commands = [''auditctl'', ''ls -la'', ''nomad operator'', ''nomad acl'', ''nomad service'']"

lemma audit_script_not_readme:
  "list_all (\<lambda>cmd. list_all (\<lambda>s. \<not> Contains cmd s) readme_commands) (audit_script d n)"
  by (cases d; cases n) (simp only:, code_simp)+

text \<open>
  C7: the report of an audit is the specified function of the replies that were received, and the
  commands sent are exactly the script of the audit, with the checks of Docker and of Nomad
  present when and only when \<^verbatim>\<open>which\<close> found them.  Telegram has no influence on either.  The script
  is that of \<^verbatim>\<open>audit.go\<close>, which reads configuration files with \<^verbatim>\<open>grep\<close>; of the commands that the
  section "How Audit Works" of \<^verbatim>\<open>README.md\<close> gives for the same checks, \<^verbatim>\<open>auditctl -l\<close>, \<^verbatim>\<open>ls -la\<close> of the
  socket of Docker, \<^verbatim>\<open>nomad operator raft list-peers\<close>, \<^verbatim>\<open>nomad acl policy list\<close> and the one for
  the services of Nomad, none is ever sent, nor is any command with these words in it.
\<close>

theorem RunSecurityAudit_refines_spec:
  "let run = RunSecurityAudit (quiet_http h) now (traced client) cfg; tr = trace_of run w in
     result_of run w = audit_spec now tr \<and>
     map fst tr = audit_script (installed tr ''docker'') (installed tr ''nomad'') \<and>
     list_all (\<lambda>cmd. list_all (\<lambda>s. \<not> Contains cmd s) readme_commands) (map fst tr)"
  using gather_spec[of now client w] RunSecurityAudit_gather[of h now client cfg "(w, [])"]
  by (simp add: Let_def trace_of_def result_of_def audit_script_not_readme)

text \<open>
  C24: the counters of a report agree with its alerts for every server: as many critical alerts as
  the critical count says, as many other graded alerts as the warning count says (alerts of level
  INFO included), and passed, warning and critical checks together are 5, 8, 9 or 12.  The
  host name is the trimmed reply to \<^verbatim>\<open>hostname\<close> and the time stamp is the time of the run.
\<close>

theorem RunSecurityAudit_accounts:
  "let report = fst (run_state (RunSecurityAudit http_Post now client cfg) w) in
     balanced report \<and> total_checks report \<in> {5, 8, 9, 12} \<and> rep_Timestamp report = now \<and>
     rep_Hostname report = TrimSpace (fst (fst (run_state (Run client ''hostname'') w)))"
proof -
  obtain host err w1 where h: "run_state (Run client ''hostname'') w = ((host, err), w1)"
    by (metis prod.exhaust)
  let ?r0 = "new_report (TrimSpace host) now"
  let ?pipe = "do { r1 \<leftarrow> auditSystemSecurity client ?r0; r2 \<leftarrow> auditDockerSecurity client r1; auditNomadSecurity client r2 }"
  have eq: "fst (run_state (RunSecurityAudit http_Post now client cfg) w) = fst (run_state ?pipe w1)"
    by (simp add: RunSecurityAudit_def h split: prod.splits option.splits)
  have "balanced ?r0" by (simp add: new_report_def balanced_def count_alerts_def all_alerts_def)
  then have b: "balanced (fst (run_state ?pipe w1))" by (rule audit.pipeline_balanced)
  have zero: "total_checks ?r0 = 0" by (simp add: total_checks_def new_report_def)
  have "total_checks (fst (run_state ?pipe w1)) \<in> {5, 8, 9, 12}"
    using audit.pipeline_total[of client ?r0 w1] unfolding zero by auto
  moreover have "same_header ?r0 (fst (run_state ?pipe w1))" by (rule audit.pipeline_header)
  ultimately show ?thesis using b unfolding eq Let_def by (simp add: h same_header_def new_report_def)
qed

text \<open>The message in closed form: a head, then the lines of each level that has a section.\<close>

definition message_head :: "AuditReport \<Rightarrow> string" where
  "message_head r =
     ''*'' @ magnifier @ '' Security Audit Report*'' @ NL @ ''Host: `'' @ rep_Hostname r @ ''`'' @ NL @
     NL @ ''*Summary:*'' @ NL @
     emoji ''CRITICAL'' @ '' Critical: '' @ itoa (CriticalCount r) @ NL @
     emoji ''WARNING'' @ '' Warnings: '' @ itoa (WarningCount r) @ NL @
     emoji ''PASSED'' @ '' Passed: '' @ itoa (PassedCount r) @ NL"

definition message_lines :: "string \<Rightarrow> AuditReport \<Rightarrow> string" where
  "message_lines level r = concat (map alert_line (filter (\<lambda>a. al_Level a = level) (all_alerts r)))"

lemma add_alerts_lines:
  "add_alerts level as m = m @ concat (map alert_line (filter (\<lambda>a. al_Level a = level) as))"
  unfolding add_alerts_def by (induction as arbitrary: m) simp_all

lemma buildAuditMessage_closed:
  "buildAuditMessage r = message_head r @
     (if CriticalCount r > 0
      then NL @ ''*'' @ emoji ''CRITICAL'' @ '' CRITICAL ISSUES:*'' @ NL @ message_lines CRITICAL r else []) @
     (if WarningCount r > 0
      then NL @ ''*'' @ emoji ''WARNING'' @ '' WARNINGS:*'' @ NL @ message_lines WARNING r else [])"
  by (simp add: buildAuditMessage_def Let_def add_alerts_lines message_head_def message_lines_def all_alerts_def
      del: append.simps)

lemma balanced_CRITICAL: "balanced r \<Longrightarrow> a \<in> set (all_alerts r) \<Longrightarrow> al_Level a = CRITICAL \<Longrightarrow> CriticalCount r > 0"
  by (auto simp: balanced_def count_alerts_def length_filter_conv_card card_gt_0_iff in_set_conv_nth)

lemma balanced_WARNING: "balanced r \<Longrightarrow> a \<in> set (all_alerts r) \<Longrightarrow> al_Level a = WARNING \<Longrightarrow> WarningCount r > 0"
proof -
  assume a: "balanced r" "a \<in> set (all_alerts r)" "al_Level a = WARNING"
  then have "al_Level a \<noteq> CRITICAL \<and> graded a" by (auto simp: graded_def docker_missing_def nomad_missing_def)
  then have "a \<in> set (filter (\<lambda>a. al_Level a \<noteq> CRITICAL \<and> graded a) (all_alerts r))" using a by simp
  then have "0 < length (filter (\<lambda>a. al_Level a \<noteq> CRITICAL \<and> graded a) (all_alerts r))"
    by (rule length_pos_if_in_set)
  then show ?thesis using a(1) unfolding balanced_def count_alerts_def by linarith
qed

lemma message_line:
  assumes "a \<in> set (all_alerts r)"
  shows "\<exists>p q. message_lines (al_Level a) r = p @ alert_line a @ q"
proof -
  have "a \<in> set (filter (\<lambda>b. al_Level b = al_Level a) (all_alerts r))" using assms by simp
  then obtain xs ys where "filter (\<lambda>b. al_Level b = al_Level a) (all_alerts r) = xs @ a # ys"
    by (meson split_list)
  then show ?thesis
    by (intro exI[of _ "concat (map alert_line xs)"] exI[of _ "concat (map alert_line ys)"])
      (simp add: message_lines_def)
qed

text \<open>The report without its alerts of level INFO.\<close>

definition without_info :: "AuditReport \<Rightarrow> AuditReport" where
  "without_info r =
     r\<lparr>SystemChecks := filter (\<lambda>a. al_Level a \<noteq> INFO) (SystemChecks r),
       DockerChecks := filter (\<lambda>a. al_Level a \<noteq> INFO) (DockerChecks r),
       NomadChecks := filter (\<lambda>a. al_Level a \<noteq> INFO) (NomadChecks r)\<rparr>"

lemma without_info_simps [simp]:
  "rep_Hostname (without_info r) = rep_Hostname r" "CriticalCount (without_info r) = CriticalCount r"
  "WarningCount (without_info r) = WarningCount r" "PassedCount (without_info r) = PassedCount r"
  by (simp_all add: without_info_def)

lemma without_info_lines:
  assumes "l \<noteq> INFO"
  shows "message_lines l (without_info r) = message_lines l r"
proof -
  have f: "filter (\<lambda>a. al_Level a \<noteq> INFO \<and> al_Level a = l) xs = filter (\<lambda>a. al_Level a = l) xs" for xs
    using assms by (intro filter_cong) auto
  show ?thesis by (simp add: f message_lines_def all_alerts_def without_info_def)
qed

text \<open>
  C39: the message of a report whose counters agree with its alerts names every critical and every
  warning alert on a line of its own, below a head that gives the host and the three counters;
  alerts of level INFO leave no trace in it, although the missing audit log of Nomad is counted
  among the warnings.
\<close>

theorem buildAuditMessage_complete:
  assumes "balanced r" and "a \<in> set (all_alerts r)" and "al_Level a \<in> {CRITICAL, WARNING}"
  shows "(\<exists>pre post. buildAuditMessage r = message_head r @ pre @ alert_line a @ post) \<and>
    buildAuditMessage (without_info r) = buildAuditMessage r"
proof
  obtain p q where pq: "message_lines (al_Level a) r = p @ alert_line a @ q"
    using message_line[OF assms(2)] by blast
  show "\<exists>pre post. buildAuditMessage r = message_head r @ pre @ alert_line a @ post"
  proof (cases "al_Level a = CRITICAL")
    case True
    then show ?thesis
      using balanced_CRITICAL[OF assms(1,2)] pq unfolding buildAuditMessage_closed
      by (intro exI[of _ "NL @ ''*'' @ emoji ''CRITICAL'' @ '' CRITICAL ISSUES:*'' @ NL @ p"]
          exI[of _ "q @ (if WarningCount r > 0
             then NL @ ''*'' @ emoji ''WARNING'' @ '' WARNINGS:*'' @ NL @ message_lines WARNING r else [])"])
        (simp del: append.simps)
  next
    case False
    then have w: "al_Level a = WARNING" using assms(3) by simp
    let ?c = "if CriticalCount r > 0
      then NL @ ''*'' @ emoji ''CRITICAL'' @ '' CRITICAL ISSUES:*'' @ NL @ message_lines CRITICAL r else []"
    show ?thesis
      using balanced_WARNING[OF assms(1,2) w] pq w unfolding buildAuditMessage_closed
      by (intro exI[of _ "?c @ NL @ ''*'' @ emoji ''WARNING'' @ '' WARNINGS:*'' @ NL @ p"] exI[of _ q])
        (simp del: append.simps)
  qed
  show "buildAuditMessage (without_info r) = buildAuditMessage r"
    by (simp add: buildAuditMessage_closed message_head_def without_info_lines del: append.simps)
qed

definition example_report :: AuditReport where
  "example_report =
     \<lparr>rep_Hostname = ''h'', rep_Timestamp = 0, SystemChecks = [alert WARNING ''SYSTEM'' ''i'' ''d''],
      DockerChecks = [docker_missing], NomadChecks = [alert INFO ''NOMAD'' ''Nomad audit logging'' ''x''],
      CriticalCount = 0, WarningCount = 2, PassedCount = 0\<rparr>"

theorem buildAuditMessage_complete_witness:
  "(\<exists>pre post. buildAuditMessage example_report =
      message_head example_report @ pre @ alert_line (alert WARNING ''SYSTEM'' ''i'' ''d'') @ post) \<and>
   buildAuditMessage (without_info example_report) = buildAuditMessage example_report"
proof (rule buildAuditMessage_complete)
  show "balanced example_report" by code_simp
  show "alert WARNING ''SYSTEM'' ''i'' ''d'' \<in> set (all_alerts example_report)"
    by (simp add: example_report_def all_alerts_def)
  show "al_Level (alert WARNING ''SYSTEM'' ''i'' ''d'') \<in> {CRITICAL, WARNING}" by simp
qed

text \<open>
  C40: a stopped Fail2Ban goes unnoticed: the reply \<^verbatim>\<open>inactive\<close> that \<^verbatim>\<open>systemctl is-active\<close> gives for
  a stopped service holds the text \<^verbatim>\<open>active\<close>, so whatever the server answers otherwise, the
  report made from that reply has no alert for the Fail2Ban check.
\<close>

theorem audit_accepts_inactive_fail2ban:
  assumes "(''sudo systemctl is-active fail2ban'', (''inactive'' @ NL, err)) \<in>
      set (trace_of (RunSecurityAudit (quiet_http h) now (traced client) cfg) w)"
  shows "''Fail2Ban running'' \<notin>
      al_Issue ` set (SystemChecks (result_of (RunSecurityAudit (quiet_http h) now (traced client) cfg) w))"
proof -
  let ?tr = "trace_of (RunSecurityAudit (quiet_http h) now (traced client) cfg) w"
  have spec: "result_of (RunSecurityAudit (quiet_http h) now (traced client) cfg) w = audit_spec now ?tr"
    and script: "map fst ?tr = audit_script (installed ?tr ''docker'') (installed ?tr ''nomad'')"
    using gather_spec[of now client w] RunSecurityAudit_gather[of h now client cfg "(w, [])"]
    by (simp_all add: Let_def trace_of_def result_of_def)
  have "map_of ?tr ''sudo systemctl is-active fail2ban'' = Some (''inactive'' @ NL, err)"
    using assms script distinct_audit_script by (intro map_of_is_SomeI) simp_all
  then have "answer ?tr ''sudo systemctl is-active fail2ban'' = ''inactive'' @ NL"
    by (simp only: answer_def option.case prod.case)
  moreover have "Contains (''inactive'' @ NL) ''active''" by code_simp
  ultimately show ?thesis
    unfolding spec by (auto simp: audit_spec_def Let_def failed_system_def system_checks_def system_alert_def)
qed

theorem audit_accepts_inactive_fail2ban_witness:
  "''Fail2Ban running'' \<notin> al_Issue ` set (SystemChecks (result_of
     (RunSecurityAudit (quiet_http (\<lambda>_ _ _. State_Monad.return (Inl ''''))) 0
        (traced (constant_client (''inactive'' @ NL, Some ''''))) None) ()))"
proof (rule audit_accepts_inactive_fail2ban)
  show "(''sudo systemctl is-active fail2ban'', (''inactive'' @ NL, Some '''')) \<in> set (trace_of
     (RunSecurityAudit (quiet_http (\<lambda>_ _ _. State_Monad.return (Inl ''''))) 0
        (traced (constant_client (''inactive'' @ NL, Some ''''))) None) ())"
    by code_simp
qed

end
