(* ===== verification/Remote_Read.thy ===== *)
theory Remote_Read
  imports Runner
begin

text \<open>
  Reading files of the server: \<^verbatim>\<open>readRemoteFile\<close> of \<^verbatim>\<open>internal/extractor/certs.go\<close> and
  \<^verbatim>\<open>ExtractDatabase\<close> of \<^verbatim>\<open>internal/extractor/sqlite.go\<close>, which try one command after the other
  until one gives some content.  What their callers rely on is a locale: a read that succeeds
  returns content that is not empty and that the server sent in reply to one of the commands for
  that very path.
\<close>

datatype read_error = UnreadableFile string | UnreadableDatabase string

text \<open>One step of the chain: run the command, accept a reply without error that is not empty.\<close>

definition read_attempt :: "'w SSHRunner \<Rightarrow> string \<Rightarrow> ('w, bytes option) state" where
  "read_attempt client cmd = do {
     (out, err) \<leftarrow> Run client cmd;
     State_Monad.return (if err = None \<and> length out > 0 then Some out else None) }"

definition cat_cmd :: "string \<Rightarrow> string" where
  "cat_cmd p = ''cat '' @ p @ '' 2>/dev/null''"

definition sudo_cat_cmd :: "string \<Rightarrow> string" where
  "sudo_cat_cmd p = ''sudo cat '' @ p @ '' 2>/dev/null''"

definition root_cat_cmd :: "string \<Rightarrow> string" where
  "root_cat_cmd p = ''sudo -u root cat '' @ p @ '' 2>/dev/null || sudo cat '' @ p @ '' 2>/dev/null''"

definition readRemoteFile :: "'w SSHRunner \<Rightarrow> string \<Rightarrow> ('w, read_error + bytes) state" where
  "readRemoteFile client filePath = do {
     r \<leftarrow> first_ok (read_attempt client) [cat_cmd filePath, sudo_cat_cmd filePath];
     State_Monad.return (case r of Some out \<Rightarrow> Inr out | None \<Rightarrow> Inl (UnreadableFile filePath)) }"

definition ExtractDatabase :: "'w SSHRunner \<Rightarrow> string \<Rightarrow> ('w, read_error + bytes) state" where
  "ExtractDatabase client dbPath = do {
     r \<leftarrow> first_ok (read_attempt client) [cat_cmd dbPath, sudo_cat_cmd dbPath, root_cat_cmd dbPath];
     State_Monad.return (case r of Some out \<Rightarrow> Inr out | None \<Rightarrow> Inl (UnreadableDatabase dbPath)) }"

text \<open>
  The loop that reads a list of paths and keeps what could be read under a key of the path.
\<close>

definition collect ::
  "(string \<Rightarrow> ('w, 'e + bytes) state) \<Rightarrow> (string \<Rightarrow> string) \<Rightarrow> string list \<Rightarrow> bytes gomap \<Rightarrow> ('w, bytes gomap) state"
where
  "collect rd key paths m =
     for_each (\<lambda>path m. do {
       r \<leftarrow> rd path;
       State_Monad.return
         (case r of
            Inl _ \<Rightarrow> m
          | Inr data \<Rightarrow> if length data > 0 then map_put (key path) data m else m) })
       paths m"

subsection \<open>The contract of a reader\<close>

locale remote_reader = reply_log client rlog
  for client :: "'w SSHRunner" and rlog :: "'w \<Rightarrow> trace" +
  fixes rd :: "string \<Rightarrow> ('w, 'e + bytes) state"
    and cmds :: "string \<Rightarrow> string list"
  assumes rd_contract: "run_state (rd p) w = (r, w') \<Longrightarrow>
      \<exists>es. rlog w' = rlog w @ es \<and> set (map fst es) \<subseteq> set (cmds p) \<and>
        (\<forall>d. r = Inr d \<longrightarrow> d \<noteq> [] \<and> (\<exists>c \<in> set (cmds p). (c, (d, None)) \<in> set es))"
begin

text \<open>\<open>came_from w p d\<close>: content \<open>d\<close> was sent by the server in reply to a command that reads \<open>p\<close>.\<close>

definition came_from :: "'w \<Rightarrow> string \<Rightarrow> bytes \<Rightarrow> bool" where
  "came_from w p d \<longleftrightarrow> d \<noteq> [] \<and> (\<exists>c \<in> set (cmds p). (c, (d, None)) \<in> set (rlog w))"

lemma came_from_mono: "came_from w p d \<Longrightarrow> rlog w' = rlog w @ es \<Longrightarrow> came_from w' p d"
  by (auto simp: came_from_def)

lemma rd_Inr: "run_state (rd p) w = (Inr d, w') \<Longrightarrow> came_from w' p d"
  using rd_contract[of p w "Inr d" w'] by (auto simp: came_from_def)

lemma rd_extends: "run_state (rd p) w = (r, w') \<Longrightarrow> \<exists>es. rlog w' = rlog w @ es"
  using rd_contract[of p w r w'] by blast

lemma rd_policy: "(\<And>e. fst e \<in> set (cmds p) \<Longrightarrow> P e) \<Longrightarrow> policy rlog P (rd p)"
  unfolding policy_def sends_def
proof
  fix w
  assume P: "\<And>e. fst e \<in> set (cmds p) \<Longrightarrow> P e"
  obtain r w' where "run_state (rd p) w = (r, w')" by fastforce
  then show "\<exists>es. rlog (snd (run_state (rd p) w)) = rlog w @ es \<and> list_all P es"
    using rd_contract[of p w r w'] P by (fastforce simp: list_all_iff)
qed

text \<open>Every entry that a collecting loop leaves was there before or came from its path.\<close>

lemma collect_inv:
  assumes "I m w"
    and keep: "\<And>m w w' es. I m w \<Longrightarrow> rlog w' = rlog w @ es \<Longrightarrow> I m w'"
    and add: "\<And>m w p d. I m w \<Longrightarrow> p \<in> set paths \<Longrightarrow> came_from w p d \<Longrightarrow> I (map_put (key p) d m) w"
    and run: "run_state (collect rd key paths m) w = (m', w')"
  shows "I m' w'"
proof -
  have "I (fst (run_state (collect rd key paths m) w)) (snd (run_state (collect rd key paths m) w))"
    unfolding collect_def
  proof (rule for_each_inv)
    show "I m w" by fact
    fix p s v
    assume p: "p \<in> set paths" and I: "I s v"
    obtain r v' where r: "run_state (rd p) v = (r, v')" by fastforce
    have "I s v'" using I keep rd_extends[OF r] by blast
    then have "I (case r of Inl _ \<Rightarrow> s | Inr data \<Rightarrow> if length data > 0 then map_put (key p) data s else s) v'"
      using add[OF _ p] rd_Inr[of p v _ v'] r by (auto split: sum.split)
    then show "I (fst (run_state (do { r \<leftarrow> rd p; State_Monad.return
        (case r of Inl _ \<Rightarrow> s | Inr data \<Rightarrow> if length data > 0 then map_put (key p) data s else s) }) v))
      (snd (run_state (do { r \<leftarrow> rd p; State_Monad.return
        (case r of Inl _ \<Rightarrow> s | Inr data \<Rightarrow> if length data > 0 then map_put (key p) data s else s) }) v))"
      by (simp add: r)
  qed
  then show ?thesis by (simp add: run)
qed

lemma collect_provenance:
  assumes "run_state (collect rd key paths []) w = (m, w')"
  shows "wf_gomap m" "(k, d) \<in> set m \<Longrightarrow> \<exists>p \<in> set paths. k = key p \<and> came_from w' p d"
proof -
  let ?I = "\<lambda>m w. wf_gomap m \<and> (\<forall>(k, d) \<in> set m. \<exists>p \<in> set paths. k = key p \<and> came_from w p d)"
  have "?I m w'"
  proof (rule collect_inv[OF _ _ _ assms])
    show "?I [] w" by simp
    show "?I m v'" if "?I m v" "rlog v' = rlog v @ es" for m v v' es
      using that came_from_mono by fastforce
    show "?I (map_put (key p) d m) v" if "?I m v" "p \<in> set paths" "came_from v p d" for m v p d
      using that set_put_subset[of "key p" d m] by fastforce
  qed
  then show "wf_gomap m" "(k, d) \<in> set m \<Longrightarrow> \<exists>p \<in> set paths. k = key p \<and> came_from w' p d" by auto
qed

end

subsection \<open>Both readers meet it\<close>

context reply_log
begin

lemma first_ok_reads:
  "run_state (first_ok (read_attempt client) cs) w = (r, w') \<Longrightarrow>
   \<exists>es. rlog w' = rlog w @ es \<and> set (map fst es) \<subseteq> set cs \<and>
     (\<forall>d. r = Some d \<longrightarrow> d \<noteq> [] \<and> (\<exists>c \<in> set cs. (c, (d, None)) \<in> set es))"
proof (induction cs arbitrary: w)
  case Nil
  then show ?case by simp
next
  case (Cons c cs)
  obtain out err w1 where 1: "run_state (Run client c) w = ((out, err), w1)" by (metis prod.exhaust)
  have log: "rlog w1 = rlog w @ [(c, (out, err))]" using rlog_Run[of c w] 1 by simp
  have att: "run_state (read_attempt client c) w = (if err = None \<and> out \<noteq> [] then Some out else None, w1)"
    using 1 by (simp add: read_attempt_def)
  show ?case
  proof (cases "err = None \<and> out \<noteq> []")
    case True
    then have "r = Some out" "w' = w1" using Cons.prems att by simp_all
    then show ?thesis using log True by simp
  next
    case False
    then have "run_state (first_ok (read_attempt client) cs) w1 = (r, w')"
      using Cons.prems att by (simp only: first_ok.simps run_state_bind prod.case if_False option.case)
    then obtain es where "rlog w' = rlog w1 @ es" "set (map fst es) \<subseteq> set cs"
      "\<forall>d. r = Some d \<longrightarrow> d \<noteq> [] \<and> (\<exists>c \<in> set cs. (c, (d, None)) \<in> set es)"
      using Cons.IH by blast
    then show ?thesis
      using log by (intro exI[of _ "(c, (out, err)) # es"]) auto
  qed
qed

lemma first_ok_reader:
  assumes "run_state (do { r \<leftarrow> first_ok (read_attempt client) cs;
      State_Monad.return (case r of Some out \<Rightarrow> Inr out | None \<Rightarrow> Inl e) }) w = (r, w')"
  shows "\<exists>es. rlog w' = rlog w @ es \<and> set (map fst es) \<subseteq> set cs \<and>
    (\<forall>d. r = Inr d \<longrightarrow> d \<noteq> [] \<and> (\<exists>c \<in> set cs. (c, (d, None)) \<in> set es))"
proof -
  obtain q v where q: "run_state (first_ok (read_attempt client) cs) w = (q, v)" by fastforce
  then have "w' = v" "r = (case q of Some out \<Rightarrow> Inr out | None \<Rightarrow> Inl e)" using assms by simp_all
  then show ?thesis using first_ok_reads[OF q] by (auto split: option.splits)
qed

end

definition file_cmds :: "string \<Rightarrow> string list" where
  "file_cmds p = [cat_cmd p, sudo_cat_cmd p]"

definition database_cmds :: "string \<Rightarrow> string list" where
  "database_cmds p = [cat_cmd p, sudo_cat_cmd p, root_cat_cmd p]"

interpretation file_reader: remote_reader "traced client" snd "readRemoteFile (traced client)" file_cmds
  for client :: "'w SSHRunner"
  by unfold_locales (auto simp only: readRemoteFile_def file_cmds_def dest!: traced.first_ok_reader)

interpretation database_reader: remote_reader "traced client" snd "ExtractDatabase (traced client)" database_cmds
  for client :: "'w SSHRunner"
  by unfold_locales (auto simp only: ExtractDatabase_def database_cmds_def dest!: traced.first_ok_reader)

end
