(* ===== verification/Certs.thy ===== *)
theory Certs
  imports Remote_Read
begin

text \<open>
  \<^verbatim>\<open>internal/extractor/certs.go\<close>: the certificates of every domain, the configuration and the
  statistics of Xray, the paths of certificates on the server; with \<open>certificateRestorePath\<close> of
  \<^verbatim>\<open>internal/extractor/extractor.go\<close>, which says where a certificate goes back to.
\<close>

definition list_domains_cmd :: string where
  "list_domains_cmd = ''ls -la /etc/letsencrypt/live/ 2>/dev/null | tail -n +4 | awk '{print $NF}'' @ SQ"

definition live_path :: "string \<Rightarrow> string \<Rightarrow> string" where
  "live_path domain file = ''/etc/letsencrypt/live/'' @ domain @ ''/'' @ file"

definition cert_key :: "string \<Rightarrow> string \<Rightarrow> string" where
  "cert_key domain file = domain @ ''/'' @ file"

subsection \<open>One domain\<close>

text \<open>
  The body of the loop reads three files, each the same way, and \<^verbatim>\<open>continue\<close>s at the first that
  cannot be read: a loop over the three names that stops early.
\<close>

definition cert_files :: "string list" where
  "cert_files = [''cert.pem'', ''privkey.pem'', ''fullchain.pem'']"

fun domain_files :: "'w SSHRunner \<Rightarrow> string \<Rightarrow> string list \<Rightarrow> bytes gomap \<Rightarrow> ('w, bytes gomap) state" where
  "domain_files client domain [] certs = State_Monad.return certs"
| "domain_files client domain (file # files) certs = do {
     r \<leftarrow> readRemoteFile client (live_path domain file);
     (case r of
        Inl _ \<Rightarrow> State_Monad.return certs
      | Inr data \<Rightarrow> domain_files client domain files (map_put (cert_key domain file) data certs)) }"

definition domain_step :: "'w SSHRunner \<Rightarrow> string \<Rightarrow> bytes gomap \<Rightarrow> ('w, bytes gomap) state" where
  "domain_step client field certs =
     (let domain = TrimSpace field
      in if domain = [] \<or> domain = ''.'' \<or> domain = ''..'' then State_Monad.return certs
         else domain_files client domain cert_files certs)"

text \<open>The error beside the map is always nil.\<close>

definition ExtractCertificates :: "'w SSHRunner \<Rightarrow> ('w, bytes gomap) state" where
  "ExtractCertificates client = do {
     (out, err) \<leftarrow> Run client list_domains_cmd;
     (if err \<noteq> None \<or> TrimSpace out = [] then State_Monad.return []
      else for_each (domain_step client) (Fields out) []) }"

subsection \<open>Xray\<close>

definition xray_paths :: "string list" where
  "xray_paths =
     [''/etc/xray/config.json'', ''/opt/xray/config.json'', ''/app/config.json'',
      ''/usr/local/etc/xray/config.json'']"

text \<open>\<^term>\<open>None\<close> is the error \<^verbatim>\<open>xray config not found\<close>.\<close>

definition ExtractXrayConfig :: "'w SSHRunner \<Rightarrow> ('w, bytes option) state" where
  "ExtractXrayConfig client =
     first_ok (\<lambda>path. do {
       r \<leftarrow> readRemoteFile client path;
       State_Monad.return
         (case r of Inl _ \<Rightarrow> None | Inr data \<Rightarrow> if length data > 0 then Some data else None) })
       xray_paths"

definition xray_stats_cmd :: string where
  "xray_stats_cmd = ''curl -s http://127.0.0.1:10085/query 2>/dev/null | head -c 10000''"

definition ExtractXrayState :: "'w SSHRunner \<Rightarrow> ('w, bytes gomap) state" where
  "ExtractXrayState client = do {
     config \<leftarrow> ExtractXrayConfig client;
     (let st = (case config of Some c \<Rightarrow> if length c > 0 then map_put ''config.json'' c [] else [] | None \<Rightarrow> [])
      in do {
        (out, err) \<leftarrow> Run client xray_stats_cmd;
        State_Monad.return
          (if err = None \<and> length out > 0 then map_put ''xray_stats.json'' out st else st) }) }"

subsection \<open>Paths\<close>

definition find_certs_cmd :: string where
  "find_certs_cmd = ''find /etc/letsencrypt/live/ -type f -name '*.pem' 2>/dev/null''"

definition BackupCertificatePaths :: "'w SSHRunner \<Rightarrow> ('w, string list) state" where
  "BackupCertificatePaths client = do {
     (out, err) \<leftarrow> Run client find_certs_cmd;
     State_Monad.return
       (if err \<noteq> None then [] else filter (\<lambda>line. line \<noteq> []) (Split (TrimSpace out) CHR 0x0A)) }"

definition certificateRestorePath :: "string \<Rightarrow> string" where
  "certificateRestorePath name =
     (case Split name CHR ''/'' of
        [a, b] \<Rightarrow> ''/etc/letsencrypt/live/'' @ a @ ''/'' @ b
      | _ \<Rightarrow> [])"

subsection \<open>Facts\<close>

text \<open>What is extracted under a key goes back to the path it was read from.\<close>

lemma restore_path_key:
  assumes "CHR ''/'' \<notin> set domain" "CHR ''/'' \<notin> set file"
  shows "certificateRestorePath (cert_key domain file) = live_path domain file"
proof -
  have "Split (cert_key domain file) CHR ''/'' = [domain, file]"
    using Split_append_sep[of domain "CHR ''/''" "file"] assms by (simp add: cert_key_def Split_no_sep)
  then show ?thesis by (simp add: certificateRestorePath_def live_path_def)
qed

lemma restore_path_slash:
  assumes "CHR ''/'' \<in> set domain"
  shows "certificateRestorePath (cert_key domain file) = []"
proof -
  obtain a b where d: "domain = a @ CHR ''/'' # b" using assms by (meson split_list)
  have "Split (cert_key domain file) CHR ''/'' = Split a CHR ''/'' @ Split b CHR ''/'' @ Split file CHR ''/''"
    using Split_append_sep[of a "CHR ''/''" "b @ CHR ''/'' # file"] Split_append_sep[of b "CHR ''/''" "file"]
    by (simp add: d cert_key_def)
  moreover obtain x xs where "Split a CHR ''/'' = x # xs" by (meson Split_not_Nil neq_Nil_conv)
  moreover obtain y ys where "Split b CHR ''/'' = y # ys" by (meson Split_not_Nil neq_Nil_conv)
  moreover obtain z zs where "Split file CHR ''/'' = z # zs" by (meson Split_not_Nil neq_Nil_conv)
  ultimately show ?thesis
    by (cases xs; cases ys; cases zs) (auto simp: certificateRestorePath_def split: list.split)
qed

lemma cert_files_no_slash: "f \<in> set cert_files \<Longrightarrow> CHR ''/'' \<notin> set f"
  by (auto simp: cert_files_def)

text \<open>
  The invariant of the extraction: a certificate's files are there in order, none without those
  before it, and each came from the path it is named after.
\<close>

definition certs_ordered :: "bytes gomap \<Rightarrow> bool" where
  "certs_ordered certs \<longleftrightarrow>
     (\<forall>domain. (cert_key domain ''fullchain.pem'' \<in> set (map_keys certs) \<longrightarrow>
                  cert_key domain ''privkey.pem'' \<in> set (map_keys certs)) \<and>
               (cert_key domain ''privkey.pem'' \<in> set (map_keys certs) \<longrightarrow>
                  cert_key domain ''cert.pem'' \<in> set (map_keys certs)))"

lemma cert_key_inj:
  "CHR ''/'' \<notin> set f \<Longrightarrow> CHR ''/'' \<notin> set g \<Longrightarrow> cert_key d f = cert_key e g \<longleftrightarrow> d = e \<and> f = g"
proof -
  assume "CHR ''/'' \<notin> set f" "CHR ''/'' \<notin> set g"
  moreover have "rev (takeWhile (\<lambda>c. c \<noteq> CHR ''/'') (rev (cert_key d f))) = f" if "CHR ''/'' \<notin> set f" for d f
  proof -
    have "takeWhile (\<lambda>c. c \<noteq> CHR ''/'') (rev f @ CHR ''/'' # rev d) = rev f"
      using that by (subst takeWhile_append2) auto
    then show ?thesis by (simp add: cert_key_def)
  qed
  ultimately show ?thesis by (metis append_same_eq cert_key_def)
qed

lemma key_put_simps:
  "cert_key e ''cert.pem'' = cert_key d ''cert.pem'' \<longleftrightarrow> e = d"
  "cert_key e ''privkey.pem'' = cert_key d ''privkey.pem'' \<longleftrightarrow> e = d"
  "cert_key e ''fullchain.pem'' = cert_key d ''fullchain.pem'' \<longleftrightarrow> e = d"
  "cert_key e ''cert.pem'' \<noteq> cert_key d ''privkey.pem''" "cert_key e ''cert.pem'' \<noteq> cert_key d ''fullchain.pem''"
  "cert_key e ''privkey.pem'' \<noteq> cert_key d ''cert.pem''" "cert_key e ''privkey.pem'' \<noteq> cert_key d ''fullchain.pem''"
  "cert_key e ''fullchain.pem'' \<noteq> cert_key d ''cert.pem''" "cert_key e ''fullchain.pem'' \<noteq> cert_key d ''privkey.pem''"
  by (simp_all add: cert_key_inj)

lemma certs_ordered_Nil: "certs_ordered []"
  by (simp add: certs_ordered_def)

lemma certs_ordered_put:
  assumes "certs_ordered m"
  shows "certs_ordered (map_put (cert_key d ''cert.pem'') x m)"
    "certs_ordered (map_put (cert_key d ''privkey.pem'') y (map_put (cert_key d ''cert.pem'') x m))"
    "certs_ordered (map_put (cert_key d ''fullchain.pem'') z
       (map_put (cert_key d ''privkey.pem'') y (map_put (cert_key d ''cert.pem'') x m)))"
  using assms by (auto simp: certs_ordered_def key_put_simps)

text \<open>Each entry is named after a file of a domain and came from that file.\<close>

definition cert_entry :: "('w \<times> trace) \<Rightarrow> string \<Rightarrow> bytes \<Rightarrow> bool" where
  "cert_entry x k d \<longleftrightarrow>
     (\<exists>domain. \<exists>f \<in> set cert_files. k = cert_key domain f \<and> file_reader.came_from x (live_path domain f) d)"

definition certs_inv :: "bytes gomap \<Rightarrow> ('w \<times> trace) \<Rightarrow> bool" where
  "certs_inv certs x \<longleftrightarrow> wf_gomap certs \<and> (\<forall>(k, d) \<in> set certs. cert_entry x k d)"

lemma cert_entry_mono:
  fixes x x' :: "'w \<times> trace"
  assumes "cert_entry x k d" "snd x' = snd x @ es"
  shows "cert_entry x' k d"
proof -
  obtain domain f where f: "f \<in> set cert_files" "k = cert_key domain f"
    "file_reader.came_from x (live_path domain f) d"
    using assms(1) unfolding cert_entry_def by (elim exE bexE conjE) (rule that)
  have "file_reader.came_from x' (live_path domain f) d"
    using f(3) assms(2) by (rule file_reader.came_from_mono)
  then show ?thesis
    unfolding cert_entry_def using f(1,2) by (intro exI[of _ domain] bexI[of _ f] conjI)
qed

lemma certs_inv_mono:
  fixes x x' :: "'w \<times> trace"
  shows "certs_inv certs x \<Longrightarrow> snd x' = snd x @ es \<Longrightarrow> certs_inv certs x'"
  unfolding certs_inv_def using cert_entry_mono[of x _ _ x' es] by auto

lemma certs_inv_put:
  assumes "certs_inv certs x" "f \<in> set cert_files" "file_reader.came_from x (live_path domain f) d"
  shows "certs_inv (map_put (cert_key domain f) d certs) x"
proof -
  have "cert_entry x (cert_key domain f) d"
    unfolding cert_entry_def by (rule exI, rule bexI[OF _ assms(2)], rule conjI[OF refl assms(3)])
  then have "case e of (k, d) \<Rightarrow> cert_entry x k d" if "e \<in> set (map_put (cert_key domain f) d certs)" for e
    using that assms(1) set_put_subset[of "cert_key domain f" d certs] by (auto simp: certs_inv_def)
  then show ?thesis using assms(1) by (auto simp: certs_inv_def)
qed

lemma domain_files_inv:
  "certs_inv certs x \<Longrightarrow> set files \<subseteq> set cert_files \<Longrightarrow>
   run_state (domain_files (traced client) domain files certs) x = (certs', x') \<Longrightarrow> certs_inv certs' x'"
proof (induction files arbitrary: certs x)
  case Nil
  then show ?case by simp
next
  case (Cons f files)
  obtain r y where r: "run_state (readRemoteFile (traced client) (live_path domain f)) x = (r, y)" by (metis prod.exhaust)
  have inv: "certs_inv certs y"
    using certs_inv_mono[OF Cons.prems(1)] file_reader.rd_extends[OF r] by blast
  show ?case
  proof (cases r)
    case (Inl e)
    then show ?thesis using Cons.prems(3) r inv by simp
  next
    case (Inr d)
    have "certs_inv (map_put (cert_key domain f) d certs) y"
      using certs_inv_put[OF inv] file_reader.rd_Inr[of client _ x d y] r Inr Cons.prems(2) by simp
    moreover have "run_state (domain_files (traced client) domain files (map_put (cert_key domain f) d certs)) y
        = (certs', x')"
      using Cons.prems(3) r Inr by simp
    ultimately show ?thesis using Cons.IH Cons.prems(2) by simp
  qed
qed

lemma domain_files_ordered:
  "certs_ordered m \<Longrightarrow> certs_ordered (fst (run_state (domain_files client d cert_files m) w))"
  using certs_ordered_put[of m d] by (auto simp: cert_files_def split: prod.splits sum.splits)

lemma domain_step_inv:
  "certs_inv certs x \<Longrightarrow> run_state (domain_step (traced client) field certs) x = (certs', x') \<Longrightarrow> certs_inv certs' x'"
  using domain_files_inv[of certs x cert_files] by (auto simp: domain_step_def Let_def split: if_splits)

lemma domain_step_ordered:
  "certs_ordered m \<Longrightarrow> certs_ordered (fst (run_state (domain_step client field m) w))"
  using domain_files_ordered by (auto simp: domain_step_def Let_def)

lemma ExtractCertificates_inv:
  fixes client :: "'w SSHRunner"
  assumes "run_state (ExtractCertificates (traced client)) (w, []) = (certs, x)"
  shows "certs_inv certs x" "certs_ordered certs"
proof -
  obtain out err y where r: "run_state (Run (traced client) list_domains_cmd) (w, []) = ((out, err), y)"
    by (metis prod.exhaust)
  let ?loop = "for_each (domain_step (traced client)) (Fields out) []"
  have nil: "certs_inv [] z" for z :: "'w \<times> trace" by (simp add: certs_inv_def)
  obtain m z where l: "run_state ?loop y = (m, z)" by (metis prod.exhaust)
  have "certs_inv m z"
    by (rule for_each_run_inv[where I = certs_inv, OF l nil]) (rule domain_step_inv)
  moreover have "certs_ordered (fst (run_state ?loop y))"
    by (rule for_each_acc_inv) (use certs_ordered_Nil domain_step_ordered in auto)
  ultimately show "certs_inv certs x" "certs_ordered certs"
    using assms r nil certs_ordered_Nil l
    by (auto simp: ExtractCertificates_def split: if_splits)
qed

subsection \<open>Properties\<close>

text \<open>
  C30: a certificate file of a domain without a slash goes back where it came from: every entry of
  the extracted certificates is the non-empty reply to a command that read some file of some domain,
  and when the domain holds no slash, the path to which it is restored is that same path.  When it
  holds one, the entry has no restore path, and so it is not restored at all.
\<close>

theorem certificates_return_to_their_path:
  assumes "run_state (ExtractCertificates (traced client)) (w, []) = (certs, (w', tr))"
    and "map_of certs k = Some d"
  shows "d \<noteq> [] \<and> (\<exists>domain. \<exists>f \<in> set cert_files. k = cert_key domain f \<and>
     (\<exists>c \<in> set (file_cmds (live_path domain f)). (c, (d, None)) \<in> set tr) \<and>
     certificateRestorePath k = (if CHR ''/'' \<in> set domain then [] else live_path domain f))"
proof -
  have "cert_entry (w', tr) k d"
    using ExtractCertificates_inv(1)[OF assms(1)] map_of_SomeD[OF assms(2)] by (auto simp: certs_inv_def)
  then obtain domain f where f: "f \<in> set cert_files" "k = cert_key domain f"
    "file_reader.came_from (w', tr) (live_path domain f) d" by (auto simp: cert_entry_def)
  moreover have "certificateRestorePath k = (if CHR ''/'' \<in> set domain then [] else live_path domain f)"
    using f(1,2) restore_path_key restore_path_slash cert_files_no_slash by simp
  ultimately show ?thesis by (auto simp: file_reader.came_from_def)
qed

text \<open>A server with one domain, all of whose files have the same content.\<close>

theorem certificates_return_to_their_path_witness:
  "\<exists>tr domain. \<exists>f \<in> set cert_files. ''a/cert.pem'' = cert_key domain f \<and>
     (\<exists>c \<in> set (file_cmds (live_path domain f)). (c, (''a'', None)) \<in> set (tr :: trace)) \<and>
     certificateRestorePath ''a/cert.pem'' = (if CHR ''/'' \<in> set domain then [] else live_path domain f)"
proof -
  obtain certs w' tr where r: "run_state (ExtractCertificates (traced (constant_client (''a'', None)))) ((), []) = (certs, (w', tr))"
    by (metis prod.exhaust)
  have "map_of (fst (run_state (ExtractCertificates (traced (constant_client (''a'', None)))) ((), []))) ''a/cert.pem''
      = Some ''a''"
    by code_simp
  then have "map_of certs ''a/cert.pem'' = Some ''a''" using r by simp
  from certificates_return_to_their_path[OF r this] show ?thesis by blast
qed

text \<open>
  C33: certificates are extracted in order for every server and every interleaving of failures: the
  chain of a domain is there only with its private key, and the private key only with its
  certificate.
\<close>

theorem ExtractCertificates_ordered:
  "certs_ordered (fst (run_state (ExtractCertificates client) w))"
proof -
  obtain out err y where r: "run_state (Run client list_domains_cmd) w = ((out, err), y)"
    by (metis prod.exhaust)
  have "certs_ordered (fst (run_state (for_each (domain_step client) (Fields out) []) y))"
    by (rule for_each_acc_inv) (use certs_ordered_Nil domain_step_ordered in auto)
  then show ?thesis using r certs_ordered_Nil by (simp add: ExtractCertificates_def)
qed

end
