(* ===== verification/Databases.thy ===== *)
theory Databases
  imports Remote_Read
begin

text \<open>
  \<^verbatim>\<open>internal/extractor/sqlite.go\<close> but for \<open>ExtractDatabase\<close> (see \<open>Remote_Read\<close>): collecting the
  databases of the standard paths, and the checks, statistics and comparison of their contents.
\<close>

definition all_db_paths :: "string list" where
  "all_db_paths =
     [''/opt/3x-ui/db/x-ui.db'', ''/opt/x-ui/db/x-ui.db'', ''/app/db/x-ui.db'', ''/var/lib/xui/x-ui.db'',
      ''/root/.config/x-ui/db/x-ui.db'', ''/home/x-ui/.config/x-ui/db/x-ui.db'', ''/opt/xray/db/x-ui.db'',
      ''/etc/x-ui/db/x-ui.db'']"

text \<open>The error beside the map is always nil.\<close>

definition ExtractAllDatabases :: "'w SSHRunner \<Rightarrow> ('w, bytes gomap) state" where
  "ExtractAllDatabases client = collect (ExtractDatabase client) (\<lambda>path. path) all_db_paths []"

subsection \<open>Integrity\<close>

datatype integrity_error = TooSmallForHeader nat | InvalidHeader string | FileTooSmall nat

definition sqliteHeader :: string where "sqliteHeader = ''SQLite format 3''"

definition VerifyDatabaseIntegrity :: "bytes \<Rightarrow> integrity_error option" where
  "VerifyDatabaseIntegrity data =
     (if length data < length sqliteHeader then Some (TooSmallForHeader (length data))
      else if take (length sqliteHeader) data \<noteq> sqliteHeader
        then Some (InvalidHeader (take (length sqliteHeader) data))
      else if length data < 512 then Some (FileTooSmall (length data))
      else None)"

text \<open>A backup smaller than 64 KiB only logs a warning; the wrapped error is the cause.\<close>

definition ValidateDatabaseBackup :: "bytes \<Rightarrow> string \<Rightarrow> integrity_error option" where
  "ValidateDatabaseBackup data srcPath =
     (case VerifyDatabaseIntegrity data of Some err \<Rightarrow> Some err | None \<Rightarrow> None)"

subsection \<open>Metadata and the primary path\<close>

definition metadata_cmds :: "string \<Rightarrow> (string \<times> string) list" where
  "metadata_cmds p =
     [(''size_bytes'', ''stat -c %s '' @ p @ '' 2>/dev/null || stat -f %z '' @ p @ '' 2>/dev/null''),
      (''modified'', ''stat -c %y '' @ p @ '' 2>/dev/null | cut -d'' @ SQ @ '' '' @ SQ @ '' -f1-2''),
      (''permissions'', ''stat -c %a '' @ p @ '' 2>/dev/null''),
      (''owner'', ''stat -c %U:%G '' @ p @ '' 2>/dev/null''),
      (''sha256'', ''sha256sum '' @ p @ '' 2>/dev/null | cut -d'' @ SQ @ '' '' @ SQ @ '' -f1'')]"

definition DatabaseMetadata :: "'w SSHRunner \<Rightarrow> string \<Rightarrow> ('w, string gomap) state" where
  "DatabaseMetadata client dbPath =
     for_each (\<lambda>(key, cmd) metadata. do {
       (out, err) \<leftarrow> Run client cmd;
       State_Monad.return (if err = None then map_put key (TrimSpace out) metadata else metadata) })
       (metadata_cmds dbPath) []"

definition find_db_cmd :: string where
  "find_db_cmd = ''find /opt /app /var/lib -name '*x-ui*.db' -type f 2>/dev/null | head -1''"

definition defaultPath :: string where "defaultPath = ''/opt/3x-ui/db/x-ui.db''"

definition BackupDatabasePath :: "'w SSHRunner \<Rightarrow> ('w, string) state" where
  "BackupDatabasePath client = do {
     (out, err) \<leftarrow> Run client find_db_cmd;
     State_Monad.return
       (if err = None \<and> TrimSpace out \<noteq> [] then TrimSpace out else defaultPath) }"

subsection \<open>Comparison\<close>

text \<open>
  The values of the result.  The growth is \<^verbatim>\<open>float64(new - old) / float64(old) * 100\<close>; it is kept
  as that expression, with its two operands, since nothing depends on its rounding.
\<close>

datatype diff_value = DInt int | DStr string | DBool bool | DGrowth int int

definition CompareDatabase :: "bytes \<Rightarrow> bytes \<Rightarrow> diff_value gomap" where
  "CompareDatabase oldData newData =
     (let r1 = map_put ''old_size_bytes'' (DInt (int (length oldData))) [];
          r2 = map_put ''new_size_bytes'' (DInt (int (length newData))) r1;
          r3 = map_put ''size_change_bytes'' (DInt (int (length newData) - int (length oldData))) r2;
          oldHash = sha256 oldData; newHash = sha256 newData;
          r4 = map_put ''old_hash'' (DStr (hex_encode oldHash)) r3;
          r5 = map_put ''new_hash'' (DStr (hex_encode newHash)) r4;
          r6 = map_put ''identical'' (DBool (oldHash = newHash)) r5
      in if length newData > length oldData
         then map_put ''growth_percent'' (DGrowth (int (length newData) - int (length oldData)) (int (length oldData))) r6
         else r6)"

subsection \<open>Facts\<close>

lemma VerifyDatabaseIntegrity_None:
  "VerifyDatabaseIntegrity data = None \<longleftrightarrow> HasPrefix data sqliteHeader \<and> 512 \<le> length data"
proof -
  have "take (length sqliteHeader) data = sqliteHeader \<longleftrightarrow> prefix sqliteHeader data"
    by (metis append_eq_conv_conj prefixE prefixI append_take_drop_id)
  then show ?thesis
    by (auto simp: VerifyDatabaseIntegrity_def HasPrefix_def dest: prefix_length_le)
qed

text \<open>The keys of the metadata are keys of the table, in its order, each with the trimmed reply.\<close>

lemma metadata_keys: "map fst (metadata_cmds p) = [''size_bytes'', ''modified'', ''permissions'', ''owner'', ''sha256'']"
  by (simp add: metadata_cmds_def)

subsection \<open>Properties\<close>

text \<open>
  Every database that \<^verbatim>\<open>ExtractAllDatabases\<close> returns is stored under the path it was read
  from, is not empty, and is what the server answered without error to one of the commands that
  read that path; no path is stored twice.
\<close>

theorem ExtractAllDatabases_provenance:
  assumes "run_state (ExtractAllDatabases (traced client)) (w, []) = (dbs, (w', tr))"
    and "map_of dbs p = Some d"
  shows "wf_gomap dbs \<and> p \<in> set all_db_paths \<and> d \<noteq> [] \<and> (\<exists>c \<in> set (database_cmds p). (c, (d, None)) \<in> set tr)"
  using database_reader.collect_provenance[OF assms(1)[unfolded ExtractAllDatabases_def]] map_of_SomeD[OF assms(2)]
  by (auto simp: database_reader.came_from_def)

theorem ExtractAllDatabases_provenance_witness:
  "\<exists>dbs tr. wf_gomap (dbs :: bytes gomap) \<and> ''/app/db/x-ui.db'' \<in> set all_db_paths \<and> ''db'' \<noteq> [] \<and>
     (\<exists>c \<in> set (database_cmds ''/app/db/x-ui.db''). (c, (''db'', None)) \<in> set (tr :: trace))"
proof -
  obtain dbs w' tr where r: "run_state (ExtractAllDatabases (traced (constant_client (''db'', None)))) ((), []) = (dbs, (w', tr))"
    by (metis prod.exhaust)
  have "map_of (fst (run_state (ExtractAllDatabases (traced (constant_client (''db'', None)))) ((), []))) ''/app/db/x-ui.db''
      = Some ''db''"
    by code_simp
  then have "map_of dbs ''/app/db/x-ui.db'' = Some ''db''" using r by simp
  from ExtractAllDatabases_provenance[OF r this] show ?thesis by blast
qed

text \<open>
  A database passes the integrity check exactly when it starts with the SQLite header and has
  at least 512 bytes; a backup is accepted under the same condition, whatever its path.
\<close>

theorem VerifyDatabaseIntegrity_iff:
  "(VerifyDatabaseIntegrity data = None \<longleftrightarrow> HasPrefix data ''SQLite format 3'' \<and> 512 \<le> length data) \<and>
   ValidateDatabaseBackup data srcPath = VerifyDatabaseIntegrity data"
  using VerifyDatabaseIntegrity_None[of data]
  by (auto simp: sqliteHeader_def ValidateDatabaseBackup_def split: option.splits)

text \<open>
  Comparing two databases reports the sizes and their difference exactly; it calls them
  identical exactly when their digests agree, which it does for equal contents; and it reports a
  growth, with the old size as divisor, exactly when the new one is larger, an empty old one
  (a division by zero) included.
\<close>

theorem CompareDatabase_correct:
  "let r = map_of (CompareDatabase a b) in
     r ''old_size_bytes'' = Some (DInt (int (length a))) \<and>
     r ''new_size_bytes'' = Some (DInt (int (length b))) \<and>
     r ''size_change_bytes'' = Some (DInt (int (length b) - int (length a))) \<and>
     r ''identical'' = Some (DBool (sha256 a = sha256 b)) \<and>
     r ''old_hash'' = Some (DStr (sha256_hex a)) \<and> r ''new_hash'' = Some (DStr (sha256_hex b)) \<and>
     r ''growth_percent'' =
       (if length a < length b then Some (DGrowth (int (length b) - int (length a)) (int (length a))) else None)"
  by (simp add: CompareDatabase_def Let_def sha256_hex_def)

end
