(* ===== verification/Restore.thy ===== *)
theory Restore
  imports Runner
begin

text \<open>
  \<^verbatim>\<open>internal/extractor/restore.go\<close>: writing a file on the server unless it is already there, and
  checking by digest and size that it arrived.
\<close>

record remoteFileInfo =
  rf_sha256 :: string
  rf_size :: int

datatype inspect_error =
    NotAccessible string
  | UnexpectedOutput string
  | SizeNotAccessible string
  | InvalidSize string string

datatype restore_error =
    ParentDirFailed string string
  | WriteFileFailed string string
  | VerifyFailed string inspect_error
  | ChecksumMismatch string "string \<times> int" "string \<times> int"

subsection \<open>The commands\<close>

definition sudo_prefix :: "bool \<Rightarrow> string" where
  "sudo_prefix useSudo = (if useSudo then ''sudo '' else [])"

definition sha_cmd :: "string \<Rightarrow> bool \<Rightarrow> string" where
  "sha_cmd p useSudo = sudo_prefix useSudo @ ''sha256sum '' @ p @ '' 2>/dev/null''"

definition stat_cmd :: "string \<Rightarrow> bool \<Rightarrow> string" where
  "stat_cmd p useSudo =
     sudo_prefix useSudo @ ''stat -c %s '' @ p @ '' 2>/dev/null || '' @
     sudo_prefix useSudo @ ''stat -f %z '' @ p @ '' 2>/dev/null''"

definition parent_cmd :: "string \<Rightarrow> bool \<Rightarrow> string" where
  "parent_cmd p useSudo =
     (let cmd = ''mkdir -p '' @ Dir p in if useSudo then ''sudo '' @ cmd else cmd)"

definition write_cmd :: "string \<Rightarrow> bytes \<Rightarrow> bool \<Rightarrow> string" where
  "write_cmd p data useSudo =
     (let encoded = base64 data; teeCmd = (if useSudo then ''sudo tee'' else ''tee'')
      in ''echo '' @ SQ @ encoded @ SQ @ '' | base64 -d | '' @ teeCmd @ '' '' @ p @ '' > /dev/null'')"

subsection \<open>Inspecting, making the directory, restoring\<close>

definition inspectRemoteFile ::
  "'w SSHRunner \<Rightarrow> string \<Rightarrow> bool \<Rightarrow> ('w, inspect_error + remoteFileInfo) state"
where
  "inspectRemoteFile client p useSudo = do {
     (shaOut, err) \<leftarrow> Run client (sha_cmd p useSudo);
     (if err \<noteq> None \<or> TrimSpace shaOut = [] then State_Monad.return (Inl (NotAccessible p))
      else (case Fields (TrimSpace shaOut) of
        [] \<Rightarrow> State_Monad.return (Inl (UnexpectedOutput p))
      | sha # _ \<Rightarrow> do {
          (sizeOut, err) \<leftarrow> Run client (stat_cmd p useSudo);
          State_Monad.return
            (if err \<noteq> None \<or> TrimSpace sizeOut = [] then Inl (SizeNotAccessible p)
             else (case Atoi (TrimSpace sizeOut) of
               None \<Rightarrow> Inl (InvalidSize p (TrimSpace sizeOut))
             | Some sizeVal \<Rightarrow> Inr \<lparr>rf_sha256 = sha, rf_size = sizeVal\<rparr>)) })) }"

definition ensureRemoteParentDir :: "'w SSHRunner \<Rightarrow> string \<Rightarrow> bool \<Rightarrow> ('w, restore_error option) state" where
  "ensureRemoteParentDir client p useSudo = check (ParentDirFailed p) (Run client (parent_cmd p useSudo))"

definition same_file :: "remoteFileInfo \<Rightarrow> bytes \<Rightarrow> bool" where
  "same_file info data \<longleftrightarrow> rf_sha256 info = sha256_hex data \<and> rf_size info = int (length data)"

definition restoreBytesIfChanged ::
  "'w SSHRunner \<Rightarrow> string \<Rightarrow> bytes \<Rightarrow> bool \<Rightarrow> ('w, restore_error option) state"
where
  "restoreBytesIfChanged client p data useSudo =
     (if length data = 0 then State_Monad.return None
      else do {
        current \<leftarrow> inspectRemoteFile client p useSudo;
        (if (case current of Inl _ \<Rightarrow> False | Inr info \<Rightarrow> same_file info data) then State_Monad.return None
         else
           and_then (ensureRemoteParentDir client p useSudo)
          (and_then (check (WriteFileFailed p) (Run client (write_cmd p data useSudo)))
             (do {
                verified \<leftarrow> inspectRemoteFile client p useSudo;
                State_Monad.return
                  (case verified of
                     Inl err \<Rightarrow> Some (VerifyFailed p err)
                   | Inr info \<Rightarrow>
                       if \<not> same_file info data
                       then Some (ChecksumMismatch p (sha256_hex data, int (length data)) (rf_sha256 info, rf_size info))
                       else None) }))) })"

subsection \<open>Servers that answer inspections honestly\<close>

text \<open>
  What \<^verbatim>\<open>sha256sum\<close> and \<^verbatim>\<open>stat\<close> are relied on for: they report digest and size of the file at the
  path, \<^term>\<open>file w = None\<close> when there is none, and change nothing.  Nothing is asked of the
  commands that create and write.
\<close>

definition honest_inspection :: "'w SSHRunner \<Rightarrow> string \<Rightarrow> bool \<Rightarrow> ('w \<Rightarrow> bytes option) \<Rightarrow> bool" where
  "honest_inspection client p useSudo file \<longleftrightarrow>
     (\<forall>w. file (snd (run_state (Run client (sha_cmd p useSudo)) w)) = file w \<and>
          (file w = None \<longrightarrow> snd (fst (run_state (Run client (sha_cmd p useSudo)) w)) \<noteq> None) \<and>
          (\<forall>d. file w = Some d \<longrightarrow> fst (run_state (Run client (sha_cmd p useSudo)) w) =
                 (sha256_hex d @ ''  '' @ p @ NL, None))) \<and>
     (\<forall>w. file (snd (run_state (Run client (stat_cmd p useSudo)) w)) = file w \<and>
          (\<forall>d. file w = Some d \<longrightarrow> fst (run_state (Run client (stat_cmd p useSudo)) w) =
                 (itoa (int (length d)) @ NL, None)))"

definition plain_path :: "string \<Rightarrow> bool" where
  "plain_path p \<longleftrightarrow> p \<noteq> [] \<and> (\<forall>c \<in> set p. graphic c)"

definition file_info :: "bytes \<Rightarrow> remoteFileInfo" where
  "file_info d = \<lparr>rf_sha256 = sha256_hex d, rf_size = int (length d)\<rparr>"

lemma sha_line_trim:
  assumes "plain_path p"
  shows "TrimSpace (sha256_hex d @ ''  '' @ p @ NL) = sha256_hex d @ ''  '' @ p"
proof -
  have "TrimSpace (sha256_hex d @ ''  '' @ p @ NL) = TrimSpace (sha256_hex d @ ''  '' @ p)"
    using TrimSpace_newline[of "sha256_hex d @ ''  '' @ p"] by simp
  moreover have "TrimSpace (sha256_hex d @ ''  '' @ p) = sha256_hex d @ ''  '' @ p"
    by (rule TrimSpace_graphic) (use assms sha256_hex_graphic[of d] in \<open>auto simp: plain_path_def\<close>)
  ultimately show ?thesis by simp
qed

lemma sha_line_fields:
  "\<exists>fs. Fields (sha256_hex d @ ''  '' @ p) = sha256_hex d # fs"
  using Fields_word_space[of "sha256_hex d" "CHR 0x20 # p"] sha256_hex_graphic[of d] by simp

lemma honest_shaD:
  assumes "honest_inspection client p useSudo file" "run_state (Run client (sha_cmd p useSudo)) w = ((out, err), w')"
  shows "file w' = file w" "file w = None \<Longrightarrow> err \<noteq> None"
    "file w = Some d \<Longrightarrow> out = sha256_hex d @ ''  '' @ p @ NL \<and> err = None"
  using assms(1)[unfolded honest_inspection_def, THEN conjunct1, rule_format, of w] assms(2) by simp_all

lemma honest_statD:
  assumes "honest_inspection client p useSudo file" "run_state (Run client (stat_cmd p useSudo)) w = ((out, err), w')"
  shows "file w' = file w" "file w = Some d \<Longrightarrow> out = itoa (int (length d)) @ NL \<and> err = None"
  using assms(1)[unfolded honest_inspection_def, THEN conjunct2, rule_format, of w] assms(2) by simp_all

text \<open>On such a server an inspection tells digest and size of the file, and leaves it alone.\<close>

lemma inspect_honest:
  assumes honest: "honest_inspection client p useSudo file" and p: "plain_path p"
    and run: "run_state (inspectRemoteFile client p useSudo) w = (r, w')"
  shows "file w' = file w"
    "file w = None \<Longrightarrow> r = Inl (NotAccessible p)"
    "file w = Some d \<Longrightarrow> int (length d) < 2 ^ 63 \<Longrightarrow> r = Inr (file_info d)"
    "r = Inr info \<Longrightarrow> \<exists>d. file w = Some d \<and> info = file_info d"
proof -
  obtain o1 e1 w1 where 1: "run_state (Run client (sha_cmd p useSudo)) w = ((o1, e1), w1)"
    by (metis prod.exhaust)
  obtain o2 e2 w2 where 2: "run_state (Run client (stat_cmd p useSudo)) w1 = ((o2, e2), w2)"
    by (metis prod.exhaust)
  note sha = honest_shaD[OF honest 1] and stat = honest_statD[OF honest 2]
  have none: "run_state (inspectRemoteFile client p useSudo) w = (Inl (NotAccessible p), w1)" if "file w = None"
    using sha(2)[OF that] 1 by (auto simp: inspectRemoteFile_def)
  have some: "run_state (inspectRemoteFile client p useSudo) w =
      ((if int (length d) < 2 ^ 63 then Inr (file_info d) else Inl (InvalidSize p (itoa (int (length d))))), w2)"
    if "file w = Some d" for d
  proof -
    have a: "o1 = sha256_hex d @ ''  '' @ p @ NL" "e1 = None" using sha(3)[OF that] by simp_all
    have b: "o2 = itoa (int (length d)) @ NL" "e2 = None" using stat(2)[of d] sha(1) that by simp_all
    have t1: "TrimSpace o1 = sha256_hex d @ CHR 0x20 # CHR 0x20 # p"
      using sha_line_trim[OF p, of d] a(1) by simp
    have t2: "TrimSpace o2 = itoa (int (length d))" using b(1) by simp
    obtain fs where fs: "Fields (sha256_hex d @ CHR 0x20 # CHR 0x20 # p) = sha256_hex d # fs"
      using sha_line_fields[of d p] by auto
    show ?thesis
      using Atoi_itoa[of "int (length d)"] Atoi_itoa_value[of "int (length d)"] Atoi_range[of "itoa (int (length d))"]
      unfolding inspectRemoteFile_def
      by (cases "Atoi (itoa (int (length d)))") (auto simp: 1 2 a(2) b(2) t1 t2 fs file_info_def)
  qed
  show "file w' = file w"
    using none some run sha(1) stat(1) by (cases "file w") auto
  show "file w = None \<Longrightarrow> r = Inl (NotAccessible p)" using none run by simp
  show "file w = Some d \<Longrightarrow> int (length d) < 2 ^ 63 \<Longrightarrow> r = Inr (file_info d)" using some run by simp
  show "r = Inr info \<Longrightarrow> \<exists>d. file w = Some d \<and> info = file_info d"
    using none some run by (cases "file w") (auto split: if_splits)
qed

subsection \<open>What a restore achieves and what it sends\<close>

lemma same_file_info: "same_file (file_info d) data \<longleftrightarrow> file_info d = file_info data"
  by (simp add: same_file_def file_info_def)

lemma restore_nil_cases:
  assumes "data \<noteq> []" "run_state (restoreBytesIfChanged client p data useSudo) w = (None, w')"
  shows "\<exists>v info. run_state (inspectRemoteFile client p useSudo) v = (Inr info, w') \<and> same_file info data"
proof -
  obtain r w1 where 1: "run_state (inspectRemoteFile client p useSudo) w = (r, w1)" by fastforce
  show ?thesis
  proof (cases "case r of Inl _ \<Rightarrow> False | Inr info \<Rightarrow> same_file info data")
    case True
    then show ?thesis
      using assms 1 by (intro exI[of _ w]) (auto simp: restoreBytesIfChanged_def split: sum.splits)
  next
    case False
    then show ?thesis
      using assms 1
      by (auto simp: restoreBytesIfChanged_def and_then_def check_def
          split: prod.splits option.splits sum.splits if_splits)
  qed
qed

lemma restore_verified:
  assumes "honest_inspection client p useSudo file" "plain_path p" "data \<noteq> []"
    "run_state (restoreBytesIfChanged client p data useSudo) w = (None, w')"
  shows "\<exists>d. file w' = Some d \<and> file_info d = file_info data"
proof -
  obtain v info where v: "run_state (inspectRemoteFile client p useSudo) v = (Inr info, w')" "same_file info data"
    using restore_nil_cases[OF assms(3,4)] by blast
  then show ?thesis
    using inspect_honest(1,4)[OF assms(1,2) v(1)] by (auto simp: same_file_info)
qed



context command_log
begin

lemma inspect_sends:
  "sends log (inspectRemoteFile client p useSudo) w [sha_cmd p useSudo] \<or>
   sends log (inspectRemoteFile client p useSudo) w [sha_cmd p useSudo, stat_cmd p useSudo]"
proof -
  obtain o1 e1 w1 where 1: "run_state (Run client (sha_cmd p useSudo)) w = ((o1, e1), w1)"
    by (metis prod.exhaust)
  obtain o2 e2 w2 where 2: "run_state (Run client (stat_cmd p useSudo)) w1 = ((o2, e2), w2)"
    by (metis prod.exhaust)
  have "log w1 = log w @ [sha_cmd p useSudo]" "log w2 = log w1 @ [stat_cmd p useSudo]"
    using log_Run[of "sha_cmd p useSudo" w] log_Run[of "stat_cmd p useSudo" w1] 1 2 by simp_all
  then show ?thesis by (auto simp: sends_def inspectRemoteFile_def 1 2 split: list.split)
qed

lemma inspect_sends_ok:
  assumes "run_state (inspectRemoteFile client p useSudo) w = (Inr info, w')"
  shows "sends log (inspectRemoteFile client p useSudo) w [sha_cmd p useSudo, stat_cmd p useSudo]"
proof -
  obtain o1 e1 w1 where 1: "run_state (Run client (sha_cmd p useSudo)) w = ((o1, e1), w1)"
    by (metis prod.exhaust)
  obtain o2 e2 w2 where 2: "run_state (Run client (stat_cmd p useSudo)) w1 = ((o2, e2), w2)"
    by (metis prod.exhaust)
  have "log w1 = log w @ [sha_cmd p useSudo]" "log w2 = log w1 @ [stat_cmd p useSudo]"
    using log_Run[of "sha_cmd p useSudo" w] log_Run[of "stat_cmd p useSudo" w1] 1 2 by simp_all
  then show ?thesis
    using assms by (auto simp: sends_def inspectRemoteFile_def 1 2 split: list.splits if_splits)
qed

lemma inspect_policy [policy_intros]:
  assumes "P (sha_cmd p useSudo)" "P (stat_cmd p useSudo)"
  shows "policy log P (inspectRemoteFile client p useSudo)"
  unfolding policy_def
proof
  fix w
  show "\<exists>es. sends log (inspectRemoteFile client p useSudo) w es \<and> list_all P es"
    using inspect_sends[of p useSudo w] assms
    by (elim disjE) (rule exI, erule conjI, simp)+
qed

end

text \<open>The commands of a restore: some front part of inspection, directory, write, inspection.\<close>

definition inspections :: "string \<Rightarrow> bool \<Rightarrow> string list set" where
  "inspections p useSudo = {[sha_cmd p useSudo], [sha_cmd p useSudo, stat_cmd p useSudo]}"

context command_log
begin

lemma inspect_sends_some: "\<exists>es \<in> inspections p useSudo. sends log (inspectRemoteFile client p useSudo) w es"
  using inspect_sends[of p useSudo w] by (auto simp: inspections_def)

lemma restore_sends:
  assumes "data \<noteq> []"
  shows "\<exists>i1 \<in> inspections p useSudo. \<exists>i2 \<in> inspections p useSudo. \<exists>es.
    sends log (restoreBytesIfChanged client p data useSudo) w es \<and>
    prefix es (i1 @ [parent_cmd p useSudo, write_cmd p data useSudo] @ i2)"
proof -
  obtain r w1 where 1: "run_state (inspectRemoteFile client p useSudo) w = (r, w1)" by fastforce
  obtain e2 w2 where 2: "run_state (ensureRemoteParentDir client p useSudo) w1 = (e2, w2)" by fastforce
  obtain e3 w3 where 3: "run_state (check (WriteFileFailed p) (Run client (write_cmd p data useSudo))) w2 = (e3, w3)"
    by fastforce
  obtain r4 w4 where 4: "run_state (inspectRemoteFile client p useSudo) w3 = (r4, w4)" by fastforce
  obtain i1 where i1: "i1 \<in> inspections p useSudo" "log w1 = log w @ i1"
    using inspect_sends_some[of p useSudo w] 1 by (auto simp: sends_def)
  obtain i2 where i2: "i2 \<in> inspections p useSudo" "log w4 = log w3 @ i2"
    using inspect_sends_some[of p useSudo w3] 4 by (auto simp: sends_def)
  have l2: "log w2 = log w1 @ [parent_cmd p useSudo]" and l3: "log w3 = log w2 @ [write_cmd p data useSudo]"
    using 2 3 log_Run by (auto simp: ensureRemoteParentDir_def check_def split: prod.splits) (metis snd_conv)+
  note runs = 1 2 3 4 assms
  let ?all = "i1 @ [parent_cmd p useSudo, write_cmd p data useSudo] @ i2"
  have "\<exists>es. sends log (restoreBytesIfChanged client p data useSudo) w es \<and> prefix es ?all"
  proof (cases "case r of Inl _ \<Rightarrow> False | Inr info \<Rightarrow> same_file info data")
    case True
    then show ?thesis
      using runs i1(2) by (intro exI[of _ i1]) (auto simp: restoreBytesIfChanged_def sends_def split: sum.splits)
  next
    case differs: False
    have rest: "restoreBytesIfChanged client p data useSudo = do {
      current \<leftarrow> inspectRemoteFile client p useSudo;
      (if (case current of Inl _ \<Rightarrow> False | Inr info \<Rightarrow> same_file info data) then State_Monad.return None
       else and_then (ensureRemoteParentDir client p useSudo)
        (and_then (check (WriteFileFailed p) (Run client (write_cmd p data useSudo)))
          (do { verified \<leftarrow> inspectRemoteFile client p useSudo;
                State_Monad.return (case verified of Inl err \<Rightarrow> Some (VerifyFailed p err)
                  | Inr info \<Rightarrow> if \<not> same_file info data
                      then Some (ChecksumMismatch p (sha256_hex data, int (length data)) (rf_sha256 info, rf_size info))
                      else None) }))) }"
      using assms by (simp add: restoreBytesIfChanged_def)
    consider "e2 \<noteq> None" | "e2 = None" "e3 \<noteq> None" | "e2 = None" "e3 = None" by blast
    then show ?thesis
    proof cases
      case 1
      then show ?thesis
        using runs differs i1(2) l2 unfolding rest
        by (intro exI[of _ "i1 @ [parent_cmd p useSudo]"]) (auto simp: sends_def and_then_def prefix_def)
    next
      case 2
      then show ?thesis
        using runs differs i1(2) l2 l3 unfolding rest
        by (intro exI[of _ "i1 @ [parent_cmd p useSudo, write_cmd p data useSudo]"])
          (auto simp: sends_def and_then_def prefix_def)
    next
      case 3
      then show ?thesis
        using runs differs i1(2) i2(2) l2 l3 unfolding rest
        by (intro exI[of _ ?all]) (auto simp: sends_def and_then_def)
    qed
  qed
  then show ?thesis using i1(1) i2(1) by blast
qed

end

subsection \<open>What the shell makes of the write command\<close>

text \<open>The text between the first and the second single quote of a command with exactly two.\<close>

definition quoted_payload :: "string \<Rightarrow> string option" where
  "quoted_payload cmd = (case Split cmd CHR 0x27 of [_, s, _] \<Rightarrow> Some s | _ \<Rightarrow> None)"

lemma base64_no_quote: "CHR 0x27 \<notin> set (base64 data)"
  using base64_alphabet[of data] by (auto simp: b64_alphabet_def)

lemma write_cmd_shape:
  "write_cmd p data useSudo =
     ''echo '' @ CHR 0x27 # base64 data @ CHR 0x27 #
       ('' | base64 -d | '' @ sudo_prefix useSudo @ ''tee '' @ p @ '' > /dev/null'')"
  by (simp add: write_cmd_def sudo_prefix_def)

lemma quoted_payload_write:
  assumes "CHR 0x27 \<notin> set p"
  shows "quoted_payload (write_cmd p data useSudo) = Some (base64 data)"
proof -
  let ?rest = "'' | base64 -d | '' @ sudo_prefix useSudo @ ''tee '' @ p @ '' > /dev/null''"
  have rest: "CHR 0x27 \<notin> set ?rest" using assms by (simp add: sudo_prefix_def)
  have echo: "CHR 0x27 \<notin> set ''echo ''" by simp
  have "Split (write_cmd p data useSudo) CHR 0x27 = [''echo '', base64 data, ?rest]"
    unfolding write_cmd_shape Split_append_sep Split_no_sep[OF echo] Split_no_sep[OF base64_no_quote]
      Split_no_sep[OF rest] by simp
  then show ?thesis by (simp only: quoted_payload_def list.case)
qed

subsection \<open>A server with one file\<close>

text \<open>
  The world is the file at the path \<open>p\<close>.  The client answers inspections of it and decodes what
  the write command hands to \<^verbatim>\<open>base64 -d\<close>; every other command succeeds and does nothing.
\<close>

definition disk_client :: "string \<Rightarrow> bool \<Rightarrow> bytes option SSHRunner" where
  "disk_client p useSudo =
     \<lparr>Run = (\<lambda>cmd. State (\<lambda>f.
        if cmd = sha_cmd p useSudo then
          (case f of None \<Rightarrow> (([], Some ''exit status 1''), f)
           | Some d \<Rightarrow> ((sha256_hex d @ ''  '' @ p @ NL, None), f))
        else if cmd = stat_cmd p useSudo then
          (case f of None \<Rightarrow> (([], Some ''exit status 1''), f)
           | Some d \<Rightarrow> ((itoa (int (length d)) @ NL, None), f))
        else if prefix ''echo '' cmd then
          (case quoted_payload cmd of None \<Rightarrow> (([], None), f) | Some s \<Rightarrow> (([], None), unbase64 s))
        else (([], None), f))),
      Close = State_Monad.return None\<rparr>"

lemma command_shapes:
  "sha_cmd p s \<noteq> stat_cmd q t" "\<not> prefix ''echo '' (parent_cmd p s)" "parent_cmd p s \<noteq> sha_cmd q t"
  "parent_cmd p s \<noteq> stat_cmd q t" "write_cmd p d s \<noteq> sha_cmd q t" "write_cmd p d s \<noteq> stat_cmd q t"
  "prefix ''echo '' (write_cmd p d s)"
  by (simp_all add: sha_cmd_def stat_cmd_def parent_cmd_def write_cmd_shape sudo_prefix_def Let_def)

lemma disk_honest: "honest_inspection (disk_client p s) p s (\<lambda>f. f)"
  using command_shapes(1)[of p s p s, symmetric]
  by (auto simp: honest_inspection_def disk_client_def split: option.splits)

lemma disk_Run:
  "run_state (Run (disk_client p s) (parent_cmd q t)) f = (([], None), f)"
  "CHR 0x27 \<notin> set q \<Longrightarrow> run_state (Run (disk_client p s) (write_cmd q d t)) f = (([], None), Some d)"
  using command_shapes by (simp_all add: disk_client_def quoted_payload_write unbase64_base64)

lemma disk_restores:
  assumes p: "plain_path p" "CHR 0x27 \<notin> set p" and data: "data \<noteq> []" "int (length data) < 2 ^ 63"
  shows "run_state (restoreBytesIfChanged (disk_client p s) p data s) None = (None, Some data)"
proof -
  obtain r0 w0 where 0: "run_state (inspectRemoteFile (disk_client p s) p s) None = (r0, w0)" by fastforce
  have "r0 = Inl (NotAccessible p)" "w0 = None"
    using inspect_honest(1,2)[OF disk_honest p(1) 0] by simp_all
  moreover obtain r1 w1 where 1: "run_state (inspectRemoteFile (disk_client p s) p s) (Some data) = (r1, w1)"
    by fastforce
  moreover have "r1 = Inr (file_info data)" "w1 = Some data"
    using inspect_honest(1,3)[OF disk_honest p(1) 1] data by simp_all
  ultimately show ?thesis
    using 0 data(1) disk_Run(1)[of p s p s None] disk_Run(2)[OF p(2), of p s data s None]
    by (simp add: restoreBytesIfChanged_def ensureRemoteParentDir_def and_then_def check_def same_file_info)
qed

subsection \<open>Properties\<close>

text \<open>
  C27: a restore of data that is not empty and that returns nil is verified: on a server that answers \<^verbatim>\<open>sha256sum\<close> and \<^verbatim>\<open>stat\<close>
  truthfully, whatever its other commands do, the file at the path then exists and has the digest
  and the size of the data.
\<close>

theorem restoreBytesIfChanged_verified:
  assumes "honest_inspection client p useSudo file" and "plain_path p" and "data \<noteq> []"
    and "run_state (restoreBytesIfChanged client p data useSudo) w = (None, w')"
  shows "\<exists>d. file w' = Some d \<and> sha256_hex d = sha256_hex data \<and> length d = length data"
  using restore_verified[OF assms] by (auto simp: file_info_def)

theorem restoreBytesIfChanged_verified_witness:
  "\<exists>d. Some ''hello'' = Some d \<and> sha256_hex d = sha256_hex ''hello'' \<and> length d = length ''hello''"
  by (rule restoreBytesIfChanged_verified[OF disk_honest[of "''/a''" True] _ _ disk_restores])
    (simp_all add: plain_path_def graphic_def)



text \<open>
  C29: a restore of an empty payload sends nothing.  Any other sends a front part of these commands
  and nothing else: an inspection (\<^verbatim>\<open>sha256sum\<close>, perhaps \<^verbatim>\<open>stat\<close>) of the path, the creation of its
  parent directory, the write to it through \<^verbatim>\<open>base64 -d\<close> and \<^verbatim>\<open>tee\<close>, and one more inspection; the
  text in the write decodes to the data, for every path and every content.
\<close>

theorem restoreBytesIfChanged_commands:
  "if data = [] then cmds_of (restoreBytesIfChanged (traced client) p data useSudo) w = []
   else \<exists>i1 i2 s.
     {i1, i2} \<subseteq>
       {[sudo_prefix useSudo @ ''sha256sum '' @ p @ '' 2>/dev/null''],
        [sudo_prefix useSudo @ ''sha256sum '' @ p @ '' 2>/dev/null'',
         sudo_prefix useSudo @ ''stat -c %s '' @ p @ '' 2>/dev/null || '' @
           sudo_prefix useSudo @ ''stat -f %z '' @ p @ '' 2>/dev/null'']} \<and>
     unbase64 s = Some data \<and>
     prefix (cmds_of (restoreBytesIfChanged (traced client) p data useSudo) w)
       (i1 @ [sudo_prefix useSudo @ ''mkdir -p '' @ Dir p,
              ''echo '' @ SQ @ s @ SQ @ '' | base64 -d | '' @ sudo_prefix useSudo @ ''tee '' @ p @ '' > /dev/null''] @ i2)"
proof (cases "data = []")
  case True
  then show ?thesis by (simp add: restoreBytesIfChanged_def cmds_of_def trace_of_def)
next
  case False
  obtain i1 i2 es where i: "i1 \<in> inspections p useSudo" "i2 \<in> inspections p useSudo"
    and es: "sends (\<lambda>w. map fst (snd w)) (restoreBytesIfChanged (traced client) p data useSudo) (w, []) es"
      "prefix es (i1 @ [parent_cmd p useSudo, write_cmd p data useSudo] @ i2)"
    using traced.commands.restore_sends[OF False, of p useSudo client "(w, [])"] by blast
  have "cmds_of (restoreBytesIfChanged (traced client) p data useSudo) w = es" by (rule cmds_of_sends[OF es(1)])
  moreover have "parent_cmd p useSudo = sudo_prefix useSudo @ ''mkdir -p '' @ Dir p"
    "write_cmd p data useSudo =
      ''echo '' @ SQ @ base64 data @ SQ @ '' | base64 -d | '' @ sudo_prefix useSudo @ ''tee '' @ p @ '' > /dev/null''"
    by (simp_all add: parent_cmd_def write_cmd_def sudo_prefix_def)
  ultimately have "{i1, i2} \<subseteq> inspections p useSudo \<and> unbase64 (base64 data) = Some data \<and>
      prefix (cmds_of (restoreBytesIfChanged (traced client) p data useSudo) w)
       (i1 @ [sudo_prefix useSudo @ ''mkdir -p '' @ Dir p,
              ''echo '' @ SQ @ base64 data @ SQ @ '' | base64 -d | '' @ sudo_prefix useSudo @ ''tee '' @ p @ '' > /dev/null''] @ i2)"
    using i es(2) unbase64_base64 by simp
  then show ?thesis using False unfolding inspections_def sha_cmd_def stat_cmd_def if_not_P[OF False] by blast
qed

end
