(* ===== verification/Go_Json_Decode.thy ===== *)
theory Go_Json_Decode
  imports Go_Json Prelude
begin

text \<open>
  \<^verbatim>\<open>json.Unmarshal\<close> as the program uses it: the grammar, the strings with their escapes and the
  replacement of invalid UTF-8, the range of numbers, the limit of nesting, and the decoding into
  the Go types of the program.  A number is its literal, which nothing looks at, and whether it fits
  a \<^verbatim>\<open>float64\<close>; an object
  is kept as the list of its members in the order of the text.
\<close>

datatype json =
    JNull
  | JBool bool
  | JNum string bool
  | JStr string
  | JArr "json list"
  | JObj "(string \<times> json) list"

subsection \<open>Strings\<close>

definition hex_value :: "char \<Rightarrow> nat option" where
  "hex_value c =
     (let n = (of_char c :: nat)
      in if 48 \<le> n \<and> n \<le> 57 then Some (n - 48)
         else if 97 \<le> n \<and> n \<le> 102 then Some (n - 87)
         else if 65 \<le> n \<and> n \<le> 70 then Some (n - 55) else None)"

text \<open>Four hexadecimal digits at the front of a string.\<close>

definition hex4 :: "string \<Rightarrow> nat option" where
  "hex4 s =
     (case s of
        a # b # c # d # _ \<Rightarrow>
          (case (hex_value a, hex_value b, hex_value c, hex_value d) of
             (Some i, Some j, Some k, Some l) \<Rightarrow> Some (((i * 16 + j) * 16 + k) * 16 + l)
           | _ \<Rightarrow> None)
      | _ \<Rightarrow> None)"

definition encode_rune :: "nat \<Rightarrow> string" where
  "encode_rune n =
     (if n < 0x80 then [char_of n]
      else if n < 0x800 then [char_of (0xC0 + n div 64), char_of (0x80 + n mod 64)]
      else if n < 0x10000 then
        [char_of (0xE0 + n div 4096), char_of (0x80 + n div 64 mod 64), char_of (0x80 + n mod 64)]
      else [char_of (0xF0 + n div 262144), char_of (0x80 + n div 4096 mod 64),
            char_of (0x80 + n div 64 mod 64), char_of (0x80 + n mod 64)])"

definition replacement :: string where "replacement = [CHR 0xEF, CHR 0xBF, CHR 0xBD]"

definition high_surrogate :: "nat \<Rightarrow> bool" where
  "high_surrogate n \<longleftrightarrow> 0xD800 \<le> n \<and> n < 0xDC00"

definition low_surrogate :: "nat \<Rightarrow> bool" where
  "low_surrogate n \<longleftrightarrow> 0xDC00 \<le> n \<and> n < 0xE000"

text \<open>The text of \<open>\u\<close> and what follows it: the bytes of the rune and how much was used.\<close>

definition unescape_u :: "string \<Rightarrow> (string \<times> nat) option" where
  "unescape_u s =
     (case hex4 s of
        None \<Rightarrow> None
      | Some n \<Rightarrow>
          if high_surrogate n \<or> low_surrogate n then
            (case (if high_surrogate n \<and> prefix (BS @ ''u'') (drop 4 s) then hex4 (drop 6 s) else None) of
               Some m \<Rightarrow>
                 if low_surrogate m then Some (encode_rune (0x10000 + (n - 0xD800) * 1024 + (m - 0xDC00)), 10)
                 else Some (replacement, 4)
             | None \<Rightarrow> Some (replacement, 4))
          else Some (encode_rune n, 4))"

definition simple_escape :: "char \<Rightarrow> char option" where
  "simple_escape c =
     (if c = CHR 0x22 \<or> c = CHR 0x5C \<or> c = CHR ''/'' then Some c
      else if c = CHR ''b'' then Some CHR 0x08
      else if c = CHR ''f'' then Some CHR 0x0C
      else if c = CHR ''n'' then Some CHR 0x0A
      else if c = CHR ''r'' then Some CHR 0x0D
      else if c = CHR ''t'' then Some CHR 0x09
      else None)"

text \<open>
  One item of a string literal, not its closing quote: the bytes it stands for and its length.
\<close>

definition char_item :: "string \<Rightarrow> (string \<times> nat) option" where
  "char_item s =
     (case s of
        [] \<Rightarrow> None
      | c # cs \<Rightarrow>
          if c = CHR 0x5C then
            (case cs of
               [] \<Rightarrow> None
             | e # es \<Rightarrow>
                 if e = CHR ''u'' then map_option (\<lambda>(bs, n). (bs, n + 2)) (unescape_u es)
                 else map_option (\<lambda>b. ([b], 2)) (simple_escape e))
          else if (of_char c :: nat) < 0x20 then None
          else if byte_in 0 0x7F c then Some ([c], 1)
          else (case rune_size s of None \<Rightarrow> Some (replacement, 1) | Some n \<Rightarrow> Some (take n s, n)))"

lemma char_item_pos: "char_item s = Some (bs, n) \<Longrightarrow> 0 < n"
  by (auto simp: char_item_def dest: rune_size_pos split: list.splits if_splits option.splits)

text \<open>The part of a string literal after its opening quote: the string and the rest of the input.\<close>

function parse_chars :: "string \<Rightarrow> (string \<times> string) option" where
  "parse_chars s =
     (if prefix [CHR 0x22] s then Some ([], tl s)
      else (case char_item s of
        None \<Rightarrow> None
      | Some (bs, n) \<Rightarrow> map_option (\<lambda>(t, r). (bs @ t, r)) (parse_chars (drop n s))))"
  by pat_completeness auto
termination
proof (relation "measure length")
  fix s x bs n
  assume "char_item s = Some x" "(bs, n) = x"
  then have i: "char_item s = Some (bs, n)" by simp
  then have "s \<noteq> []" by (auto simp: char_item_def)
  then show "(drop n s, s) \<in> measure length" using char_item_pos[OF i] by simp
qed simp

declare parse_chars.simps [simp del]

subsection \<open>Numbers\<close>

definition take_digits :: "string \<Rightarrow> string \<times> string" where
  "take_digits s = (takeWhile is_digit s, dropWhile is_digit s)"

text \<open>The literal at the front of a string and the rest: sign, whole part, fraction, exponent.\<close>

definition split_whole :: "string \<Rightarrow> (string \<times> string) option" where
  "split_whole s =
     (case s of
        [] \<Rightarrow> None
      | c # cs \<Rightarrow> if c = CHR ''0'' then Some ([c], cs)
                 else if is_digit c then Some (take_digits s) else None)"

definition split_frac :: "string \<Rightarrow> (string \<times> string) option" where
  "split_frac s =
     (case s of
        [] \<Rightarrow> Some ([], [])
      | c # cs \<Rightarrow>
          if c = CHR ''.'' then
            (if fst (take_digits cs) = [] then None else Some (c # fst (take_digits cs), snd (take_digits cs)))
          else Some ([], s))"

definition split_exp :: "string \<Rightarrow> (string \<times> string) option" where
  "split_exp s =
     (case s of
        [] \<Rightarrow> Some ([], [])
      | c # cs \<Rightarrow>
          if c = CHR ''e'' \<or> c = CHR ''E'' then
            (let sgn = (if cs \<noteq> [] \<and> (hd cs = CHR ''+'' \<or> hd cs = CHR ''-'') then [hd cs] else []);
                 ds = drop (length sgn) cs
             in if fst (take_digits ds) = [] then None
                else Some (c # sgn @ fst (take_digits ds), snd (take_digits ds)))
          else Some ([], s))"

text \<open>
  A literal whose value does not fit a \<^verbatim>\<open>float64\<close> is an error: its digits and its exponent give a
  value of at least \<open>2 ^ 1024 - 2 ^ 970\<close>, where rounding goes to infinity.  The two easy cases are
  decided by the position of the first digit, so that no large power is computed.
\<close>

definition float_fits :: "string \<Rightarrow> string \<Rightarrow> string \<Rightarrow> bool" where
  "float_fits whole frac expo =
     (let m = digits_val (whole @ tl frac);
          e0 = (if expo = [] then 0
                else if hd (tl expo) = CHR ''-'' then - int (digits_val (tl (tl expo)))
                else if hd (tl expo) = CHR ''+'' then int (digits_val (tl (tl expo)))
                else int (digits_val (tl expo)));
          e = e0 - int (length (tl frac));
          top = int (length (nat_str m)) + e
      in if m = 0 \<or> top \<le> 308 then True
         else if top > 309 then False
         else if e \<ge> 0 then int m * 10 ^ nat e < 2 ^ 1024 - 2 ^ 970
         else int m < (2 ^ 1024 - 2 ^ 970) * 10 ^ nat (- e))"

definition parse_number :: "string \<Rightarrow> (json \<times> string) option" where
  "parse_number s =
     (let sgn = (if s \<noteq> [] \<and> hd s = CHR ''-'' then [hd s] else [])
      in case split_whole (drop (length sgn) s) of
           None \<Rightarrow> None
         | Some (whole, r1) \<Rightarrow>
             (case split_frac r1 of
                None \<Rightarrow> None
              | Some (frac, r2) \<Rightarrow>
                  (case split_exp r2 of
                     None \<Rightarrow> None
                   | Some (expo, r3) \<Rightarrow>
                       Some (JNum (sgn @ whole @ frac @ expo) (float_fits whole frac expo), r3))))"

subsection \<open>Values\<close>

definition json_ws :: "char \<Rightarrow> bool" where
  "json_ws c \<longleftrightarrow> c = CHR 0x20 \<or> c = CHR 0x09 \<or> c = CHR 0x0A \<or> c = CHR 0x0D"

definition skip_ws :: "string \<Rightarrow> string" where
  "skip_ws s = dropWhile json_ws s"

text \<open>A value that is neither an array nor an object, given its first character.\<close>

definition parse_leaf :: "char \<Rightarrow> string \<Rightarrow> (json \<times> string) option" where
  "parse_leaf c r =
     (if c = CHR 0x22 then map_option (\<lambda>(t, r'). (JStr t, r')) (parse_chars r)
      else if prefix ''null'' (c # r) then Some (JNull, drop 3 r)
      else if prefix ''true'' (c # r) then Some (JBool True, drop 3 r)
      else if prefix ''false'' (c # r) then Some (JBool False, drop 4 r)
      else parse_number (c # r))"

text \<open>
  \<open>parse_value n d s\<close> reads a value at the front of \<open>s\<close>; \<open>d\<close> is the nesting that is still allowed
  and \<open>n\<close> is fuel, of which a step of the parser that uses up input needs one.
\<close>

fun parse_value :: "nat \<Rightarrow> nat \<Rightarrow> string \<Rightarrow> (json \<times> string) option"
  and parse_elems :: "nat \<Rightarrow> nat \<Rightarrow> string \<Rightarrow> (json list \<times> string) option"
  and parse_members :: "nat \<Rightarrow> nat \<Rightarrow> string \<Rightarrow> ((string \<times> json) list \<times> string) option"
where
  "parse_value 0 d s = None"
| "parse_value (Suc n) d s =
     (case skip_ws s of
        [] \<Rightarrow> None
      | c # r \<Rightarrow>
          if c = CHR ''['' then
            (if d = 0 then None
             else if prefix '']'' (skip_ws r) then Some (JArr [], tl (skip_ws r))
             else map_option (\<lambda>(js, r'). (JArr js, r')) (parse_elems n (d - 1) r))
          else if c = CHR ''{'' then
            (if d = 0 then None
             else if prefix ''}'' (skip_ws r) then Some (JObj [], tl (skip_ws r))
             else map_option (\<lambda>(ms, r'). (JObj ms, r')) (parse_members n (d - 1) r))
          else parse_leaf c r)"
| "parse_elems 0 d s = None"
| "parse_elems (Suc n) d s =
     (case parse_value n d s of
        None \<Rightarrow> None
      | Some (j, r) \<Rightarrow>
          (case skip_ws r of
             [] \<Rightarrow> None
           | c # r' \<Rightarrow>
               if c = CHR '']'' then Some ([j], r')
               else if c = CHR '','' then map_option (\<lambda>(js, r''). (j # js, r'')) (parse_elems n d r')
               else None))"
| "parse_members 0 d s = None"
| "parse_members (Suc n) d s =
     (if prefix [CHR 0x22] (skip_ws s) then
        (case parse_chars (tl (skip_ws s)) of
           None \<Rightarrow> None
         | Some (k, r) \<Rightarrow>
             if prefix '':'' (skip_ws r) then
               (case parse_value n d (tl (skip_ws r)) of
                  None \<Rightarrow> None
                | Some (j, r1) \<Rightarrow>
                    (case skip_ws r1 of
                       [] \<Rightarrow> None
                     | c # r2 \<Rightarrow>
                         if c = CHR ''}'' then Some ([(k, j)], r2)
                         else if c = CHR '','' then map_option (\<lambda>(ms, r3). ((k, j) # ms, r3)) (parse_members n d r2)
                         else None))
             else None)
      else None)"

definition max_nesting :: nat where "max_nesting = 10000"

text \<open>The text of one value with white space around it; \<^term>\<open>None\<close> for every syntax error.\<close>

definition json_parse :: "bytes \<Rightarrow> json option" where
  "json_parse s =
     (case parse_value (Suc (length s)) max_nesting s of
        Some (j, r) \<Rightarrow> if skip_ws r = [] then Some j else None
      | None \<Rightarrow> None)"

lemma json_parse_examples:
  "json_parse '' [{\"a\":1.5 }, null]'' = Some (JArr [JObj [(''a'', JNum ''1.5'' True)], JNull])"
  "json_parse ''[1,]'' = None" "json_parse ''01'' = None"
  by code_simp+

subsection \<open>The fuel is enough\<close>

text \<open>
  A parser that succeeds uses up input, and needs no more fuel than the input it uses; so whatever
  some amount of fuel can parse, the length of the text is fuel enough for.
\<close>

lemma parse_chars_shorter: "parse_chars s = Some (t, r) \<Longrightarrow> length r < length s"
proof (induction s arbitrary: t rule: parse_chars.induct)
  case (1 s)
  show ?case
  proof (cases "prefix [CHR 0x22] s")
    case True
    then show ?thesis using 1 by (auto simp: parse_chars.simps[of s] prefix_def)
  next
    case False
    then obtain bs n t' where i: "char_item s = Some (bs, n)" and t': "parse_chars (drop n s) = Some (t', r)"
      using 1(2) by (auto simp: parse_chars.simps[of s] split: option.splits)
    then have "length r < length (drop n s)" using 1(1)[OF False i refl] by blast
    then show ?thesis by simp
  qed
qed

lemma skip_ws_length: "length (skip_ws s) \<le> length s"
  by (simp add: skip_ws_def length_dropWhile_le)

lemma parse_number_shorter: "parse_number s = Some (j, r) \<Longrightarrow> length r < length s"
proof -
  have dg: "length (snd (take_digits u)) \<le> length u" for u
    by (simp add: take_digits_def length_dropWhile_le)
  have whole: "length r1 < length u" if "split_whole u = Some (w, r1)" for u w r1
    using that by (cases u) (auto simp: split_whole_def take_digits_def length_dropWhile_le less_Suc_eq_le split: if_splits)
  have frac: "length r2 \<le> length u" if "split_frac u = Some (f, r2)" for u f r2
    using that dg[of "tl u"] by (cases u) (auto simp: split_frac_def split: if_splits)
  have expo: "length r3 \<le> length u" if "split_exp u = Some (x, r3)" for u x r3
  proof (cases u)
    case (Cons c cs)
    show ?thesis
      using that Cons dg[of "drop (Suc 0) cs"] dg[of cs]
      by (auto simp: split_exp_def Let_def split: if_splits)
  qed (use that in \<open>simp add: split_exp_def\<close>)
  assume "parse_number s = Some (j, r)"
  then show ?thesis
    unfolding parse_number_def Let_def
    by (auto split: option.splits if_splits dest!: whole frac expo) arith
qed

lemma skip_ws_Cons: "skip_ws s = c # r \<Longrightarrow> length r < length s"
  using skip_ws_length[of s] by simp

lemma parse_leaf_length: "parse_leaf c u = Some (j, r) \<Longrightarrow> length r < Suc (length u)"
  using parse_chars_shorter[of u] parse_number_shorter[of "c # u"]
  by (auto simp: parse_leaf_def less_Suc_eq_le split: if_splits)

text \<open>A call that leaves \<open>r\<close> of \<open>s\<close> gives the same with any fuel from the used length on.\<close>

definition fuelled :: "string \<Rightarrow> string \<Rightarrow> (nat \<Rightarrow> 'a option) \<Rightarrow> 'a \<Rightarrow> bool" where
  "fuelled s r p x \<longleftrightarrow> length r < length s \<and> (\<forall>m \<ge> length s - length r. p m = Some x)"

lemma fuelledD:
  "fuelled s r p x \<Longrightarrow> length r < length s"
  "fuelled s r p x \<Longrightarrow> length s - length r \<le> m \<Longrightarrow> p m = Some x"
  by (simp_all add: fuelled_def)

lemma fuelled_step:
  assumes "length r < length s" "\<And>k. length s \<le> Suc k + length r \<Longrightarrow> p (Suc k) = Some x"
  shows "fuelled s r p x"
  unfolding fuelled_def
proof (intro conjI allI impI)
  fix m assume m: "length s - length r \<le> m"
  then obtain k where k: "m = Suc k" using assms(1) by (cases m) auto
  then show "p m = Some x" using assms(2)[of k] m by simp
qed (rule assms(1))

lemma parse_value_fuelled:
  assumes "parse_value (Suc n) d s = Some (j, r)" and u: "skip_ws s = c # u"
    and IH: "\<And>js. c = CHR ''['' \<Longrightarrow> d \<noteq> 0 \<Longrightarrow> \<not> prefix '']'' (skip_ws u) \<Longrightarrow> parse_elems n (d - 1) u = Some (js, r) \<Longrightarrow>
      fuelled u r (\<lambda>m. parse_elems m (d - 1) u) (js, r)"
    "\<And>ms. c = CHR ''{'' \<Longrightarrow> d \<noteq> 0 \<Longrightarrow> \<not> prefix ''}'' (skip_ws u) \<Longrightarrow> parse_members n (d - 1) u = Some (ms, r) \<Longrightarrow>
      fuelled u r (\<lambda>m. parse_members m (d - 1) u) (ms, r)"
  shows "fuelled s r (\<lambda>m. parse_value m d s) (j, r)"
proof -
  note step = assms(1)[unfolded parse_value.simps(2) u list.case]
  have lu: "length u < length s" using skip_ws_Cons[OF u] .
  consider (leaf) "c \<noteq> CHR ''[''" "c \<noteq> CHR ''{''" "parse_leaf c u = Some (j, r)"
    | (empty) "c = CHR ''[''" "d \<noteq> 0" "prefix '']'' (skip_ws u)" "j = JArr []" "r = tl (skip_ws u)"
    | (none) "c = CHR ''{''" "d \<noteq> 0" "prefix ''}'' (skip_ws u)" "j = JObj []" "r = tl (skip_ws u)"
    | (arr) js where "c = CHR ''[''" "d \<noteq> 0" "\<not> prefix '']'' (skip_ws u)" "parse_elems n (d - 1) u = Some (js, r)" "j = JArr js"
    | (obj) ms where "c = CHR ''{''" "d \<noteq> 0" "\<not> prefix ''}'' (skip_ws u)" "parse_members n (d - 1) u = Some (ms, r)" "j = JObj ms"
    using step by (auto split: if_splits)
  then show ?thesis
  proof cases
    case leaf
    then show ?thesis using u lu parse_leaf_length[OF leaf(3)] by (intro fuelled_step) simp_all
  next
    case empty
    then show ?thesis using u lu skip_ws_length[of u] by (intro fuelled_step) (auto simp: less_Suc_eq_le)
  next
    case none
    then show ?thesis using u lu skip_ws_length[of u] by (intro fuelled_step) (auto simp: less_Suc_eq_le)
  next
    case arr
    note ih = IH(1)[OF arr(1-4)]
    show ?thesis using arr u lu fuelledD(1)[OF ih] fuelledD(2)[OF ih] by (intro fuelled_step) simp_all
  next
    case obj
    note ih = IH(2)[OF obj(1-4)]
    show ?thesis using obj u lu fuelledD(1)[OF ih] fuelledD(2)[OF ih] by (intro fuelled_step) simp_all
  qed
qed

lemma parse_elems_fuelled:
  assumes "parse_elems (Suc n) d s = Some (js, r)" and v: "parse_value n d s = Some (j, r1)" and u: "skip_ws r1 = c # u"
    and iv: "fuelled s r1 (\<lambda>m. parse_value m d s) (j, r1)"
    and IH: "\<And>js. c \<noteq> CHR '']'' \<Longrightarrow> c = CHR '','' \<Longrightarrow> parse_elems n d u = Some (js, r) \<Longrightarrow>
      fuelled u r (\<lambda>m. parse_elems m d u) (js, r)"
  shows "fuelled s r (\<lambda>m. parse_elems m d s) (js, r)"
proof -
  note lu = skip_ws_Cons[OF u] fuelledD(1)[OF iv]
  consider (last) "c = CHR '']''" "r = u" "js = [j]"
    | (more) js' where "c \<noteq> CHR '']''" "c = CHR '',''" "parse_elems n d u = Some (js', r)" "js = j # js'"
    using assms(1) v u by (auto split: if_splits)
  then show ?thesis
  proof cases
    case last
    then show ?thesis using u lu fuelledD(2)[OF iv] by (intro fuelled_step) simp_all
  next
    case more
    note ih = IH[OF more(1-3)]
    show ?thesis using more u lu fuelledD(1)[OF ih] fuelledD(2)[OF ih] fuelledD(2)[OF iv] by (intro fuelled_step) simp_all
  qed
qed

lemma parse_members_fuelled:
  assumes "parse_members (Suc n) d s = Some (ms, r)"
    and k: "prefix [CHR 0x22] (skip_ws s)" "parse_chars (tl (skip_ws s)) = Some (k, r0)" "prefix '':'' (skip_ws r0)"
    and v: "parse_value n d (tl (skip_ws r0)) = Some (j, r1)" and u: "skip_ws r1 = c # u"
    and iv: "fuelled (tl (skip_ws r0)) r1 (\<lambda>m. parse_value m d (tl (skip_ws r0))) (j, r1)"
    and IH: "\<And>ms. c \<noteq> CHR ''}'' \<Longrightarrow> c = CHR '','' \<Longrightarrow> parse_members n d u = Some (ms, r) \<Longrightarrow>
      fuelled u r (\<lambda>m. parse_members m d u) (ms, r)"
  shows "fuelled s r (\<lambda>m. parse_members m d s) (ms, r)"
proof -
  have "length r0 < length s" using parse_chars_shorter[OF k(2)] skip_ws_length[of s] by simp
  moreover have "length (tl (skip_ws r0)) < length r0"
    using k(3) skip_ws_length[of r0] by (cases "skip_ws r0") auto
  moreover note skip_ws_Cons[OF u] fuelledD(1)[OF iv]
  ultimately have lu: "length (tl (skip_ws r0)) < length s" "length u < length r1" "length r1 < length (tl (skip_ws r0))"
    by simp_all
  consider (last) "c = CHR ''}''" "r = u" "ms = [(k, j)]"
    | (more) ms' where "c \<noteq> CHR ''}''" "c = CHR '',''" "parse_members n d u = Some (ms', r)" "ms = (k, j) # ms'"
    using assms(1) k v u by (auto split: if_splits)
  then show ?thesis
  proof cases
    case last
    then show ?thesis using k u lu fuelledD(2)[OF iv] by (intro fuelled_step) simp_all
  next
    case more
    note ih = IH[OF more(1-3)]
    show ?thesis using more k u lu fuelledD(1)[OF ih] fuelledD(2)[OF ih] fuelledD(2)[OF iv] by (intro fuelled_step) simp_all
  qed
qed

lemma parse_fuel:
  "parse_value n d s = Some (j, r) \<Longrightarrow> fuelled s r (\<lambda>m. parse_value m d s) (j, r)"
  "parse_elems n d s = Some (js, r) \<Longrightarrow> fuelled s r (\<lambda>m. parse_elems m d s) (js, r)"
  "parse_members n d s = Some (ms, r) \<Longrightarrow> fuelled s r (\<lambda>m. parse_members m d s) (ms, r)"
proof (induction n d s and n d s and n d s arbitrary: j r and js r and ms r
    rule: parse_value_parse_elems_parse_members.induct)
  case (2 n d s)
  then obtain c u where u: "skip_ws s = c # u" by (cases "skip_ws s") auto
  show ?case using 2(1,2)[OF u] by (intro parse_value_fuelled[OF 2(3) u]) simp_all
next
  case (4 n d s)
  note step = 4(3)[unfolded parse_elems.simps(2)]
  obtain j r1 where v: "parse_value n d s = Some (j, r1)"
    using step by (cases "parse_value n d s"; cases "the (parse_value n d s)") simp_all
  obtain c u where u: "skip_ws r1 = c # u" using step v by (cases "skip_ws r1") simp_all
  show ?case using 4(2)[OF v refl u] by (intro parse_elems_fuelled[OF 4(3) v u 4(1)[OF v]]) simp_all
next
  case (6 n d s)
  note step = 6(3)[unfolded parse_members.simps(2)]
  have k1: "prefix [CHR 0x22] (skip_ws s)" using step by (simp split: if_splits)
  obtain k r0 where k2: "parse_chars (tl (skip_ws s)) = Some (k, r0)"
    using step k1 by (cases "parse_chars (tl (skip_ws s))"; cases "the (parse_chars (tl (skip_ws s)))") simp_all
  have k3: "prefix '':'' (skip_ws r0)" using step k1 k2 by (simp split: if_splits)
  let ?t = "tl (skip_ws r0)"
  obtain j r1 where v: "parse_value n d ?t = Some (j, r1)"
    using step k1 k2 k3 by (cases "parse_value n d ?t"; cases "the (parse_value n d ?t)") simp_all
  obtain c u where u: "skip_ws r1 = c # u" using step k1 k2 k3 v by (cases "skip_ws r1") simp_all
  show ?case using 6(2)[OF k1 k2 refl k3 v refl u]
    by (intro parse_members_fuelled[OF 6(3) k1 k2 k3 v u 6(1)[OF k1 k2 refl k3 v]]) simp_all
qed simp_all

text \<open>
  So the text decides: if any amount of fuel parses a text, \<open>json_parse\<close> gives the same value.
\<close>

lemma json_parse_fuel:
  assumes "parse_value n max_nesting s = Some (j, r)" "skip_ws r = []"
  shows "json_parse s = Some j"
  using fuelledD(2)[OF parse_fuel(1)[OF assms(1)], of "Suc (length s)"] assms(2)
  by (simp add: json_parse_def del: parse_value.simps)

subsection \<open>Go values\<close>

text \<open>
  What decoding into \<^verbatim>\<open>interface{}\<close> and into maps of it gives: an object becomes a map, where the
  last of several members with one key wins; a number that does not fit is an error.
\<close>

fun any_ok :: "json \<Rightarrow> bool" where
  "any_ok (JNum _ fits) = fits"
| "any_ok (JArr js) = list_all any_ok js"
| "any_ok (JObj ms) = list_all any_ok (map snd ms)"
| "any_ok _ = True"

definition put_members :: "json gomap \<Rightarrow> (string \<times> json) list \<Rightarrow> json gomap" where
  "put_members m ms = foldl (\<lambda>m f. map_put (fst f) (snd f) m) m ms"

definition go_map :: "(string \<times> json) list \<Rightarrow> json gomap" where
  "go_map ms = put_members [] ms"

text \<open>Into \<^verbatim>\<open>map[string]interface{}\<close> and \<^verbatim>\<open>[]map[string]interface{}\<close>; null leaves the nil value.\<close>

definition as_map :: "json \<Rightarrow> json gomap option" where
  "as_map j =
     (case j of
        JObj ms \<Rightarrow> if any_ok j then Some (go_map ms) else None
      | JNull \<Rightarrow> Some []
      | _ \<Rightarrow> None)"

definition unmarshal_map :: "bytes \<Rightarrow> json gomap option" where
  "unmarshal_map s = (case json_parse s of None \<Rightarrow> None | Some j \<Rightarrow> as_map j)"

definition unmarshal_maps :: "bytes \<Rightarrow> json gomap list option" where
  "unmarshal_maps s =
     (case json_parse s of
        Some (JArr js) \<Rightarrow> those (map as_map js)
      | Some JNull \<Rightarrow> Some []
      | _ \<Rightarrow> None)"

text \<open>\<^verbatim>\<open>x, ok := m[k].(T)\<close> for the three types the program asks for.\<close>

definition get_string :: "json gomap \<Rightarrow> string \<Rightarrow> string option" where
  "get_string m k = (case map_of m k of Some (JStr s) \<Rightarrow> Some s | _ \<Rightarrow> None)"

definition get_map :: "json gomap \<Rightarrow> string \<Rightarrow> json gomap option" where
  "get_map m k = (case map_of m k of Some (JObj ms) \<Rightarrow> Some (go_map ms) | _ \<Rightarrow> None)"

definition get_list :: "json gomap \<Rightarrow> string \<Rightarrow> json list option" where
  "get_list m k = (case map_of m k of Some (JArr js) \<Rightarrow> Some js | _ \<Rightarrow> None)"

text \<open>The strings of a list of values, and the string entries of a map, in the order given.\<close>

definition only_strings :: "json list \<Rightarrow> string list" where
  "only_strings js = List.map_filter (\<lambda>j. case j of JStr s \<Rightarrow> Some s | _ \<Rightarrow> None) js"

definition put_strings :: "string gomap \<Rightarrow> json gomap \<Rightarrow> string gomap" where
  "put_strings m0 entries =
     foldl (\<lambda>m e. case snd e of JStr s \<Rightarrow> map_put (fst e) s m | _ \<Rightarrow> m) m0 entries"

lemma wf_put_members: "wf_gomap m \<Longrightarrow> wf_gomap (put_members m ms)"
  unfolding put_members_def by (induction ms arbitrary: m) (simp_all add: wf_gomap_put)

lemma wf_go_map [simp]: "wf_gomap (go_map ms)"
  by (simp add: go_map_def wf_put_members)

lemma wf_put_strings: "wf_gomap m \<Longrightarrow> wf_gomap (put_strings m es)"
  unfolding put_strings_def by (induction es arbitrary: m) (auto simp: wf_gomap_put split: json.split)

text \<open>The last member with a key is the one that is kept.\<close>

lemma map_of_put_members:
  "map_of (put_members m ms) k = (case map_of (rev ms) k of Some v \<Rightarrow> Some v | None \<Rightarrow> map_of m k)"
  unfolding put_members_def
  by (induction ms arbitrary: m) (auto simp: map_add_def split: option.split)

lemma map_of_go_map: "map_of (go_map ms) = map_of (rev ms)"
  by (rule ext) (simp add: go_map_def map_of_put_members split: option.split)

text \<open>The map of strings does not depend on the order of the entries when the keys are distinct.\<close>

lemma map_of_put_strings:
  assumes "wf_gomap es"
  shows "map_of (put_strings m es) k =
    (case map_of es k of Some (JStr s) \<Rightarrow> Some s | _ \<Rightarrow> map_of m k)"
  using assms
proof (induction es arbitrary: m)
  case Nil
  then show ?case by (simp add: put_strings_def)
next
  case (Cons e es)
  obtain a j where e: "e = (a, j)" by fastforce
  have wf: "wf_gomap es" "a \<notin> fst ` set es" using Cons.prems e by (simp_all add: wf_gomap_def map_keys_def)
  have none: "map_of es a = None" using wf(2) by (simp add: map_of_eq_None_iff)
  have "put_strings m (e # es) = put_strings (case j of JStr s \<Rightarrow> map_put a s m | _ \<Rightarrow> m) es"
    by (cases j) (simp_all add: put_strings_def e)
  then show ?case
    using Cons.IH[OF wf(1)] none e by (cases "k = a") (simp_all split: json.split option.split)
qed

end
