(* ===== verification/Docker.thy ===== *)
theory Docker
  imports Runner Go_Json_Decode
begin

text \<open>
  \<^verbatim>\<open>internal/nomad/docker.go\<close>: the state of Docker on a server, read through the \<^verbatim>\<open>docker\<close> command
  and its JSON, and its restoration on another server.  Where the source ranges over a map that
  came from JSON, the order is that of the function \<open>ord\<close>, an argument of the definitions; a map
  that is an argument is met in the order of its list.
\<close>

record ContainerConfig =
  ct_ID :: string
  ct_Name :: string
  ct_Image :: string
  ct_Status :: string
  ct_Ports :: "string list"
  ct_Env :: "string list"
  ct_Volumes :: "string list"
  ct_Labels :: "string gomap"
  ct_Networks :: "json gomap"

record DockerState =
  ds_Containers :: "ContainerConfig list"
  ds_Images :: "string list"
  ds_Networks :: "json gomap"
  ds_Volumes :: "string list"
  ds_VolumeData :: "bytes gomap"
  ds_ComposeYaml :: string

datatype docker_error =
    PsFailed string | ImagesFailed string | VolumesFailed string
  | InspectFailed string | InspectUnparsable | NoInspectData
  | ComposeNotFound
  | NoImage string | StartFailed string string
  | ComposeWriteFailed string | ComposeUpFailed string
  | NotInstalled string | DaemonSilent string

subsection \<open>Decoding a line of docker ps\<close>

text \<open>
  \<^verbatim>\<open>json.Unmarshal\<close> into a struct finds the field of a member by its tag up to case, where besides
  the ASCII letters the long s and the Kelvin sign fold to S and K.
\<close>

definition upper :: "char \<Rightarrow> char" where
  "upper c = (if 97 \<le> (of_char c :: nat) \<and> (of_char c :: nat) \<le> 122 then char_of ((of_char c :: nat) - 32) else c)"

function fold_name :: "string \<Rightarrow> string" where
  "fold_name s =
     (case s of
        [] \<Rightarrow> []
      | c # cs \<Rightarrow>
          if prefix [CHR 0xC5, CHR 0xBF] s then CHR ''S'' # fold_name (drop 2 s)
          else if prefix [CHR 0xE2, CHR 0x84, CHR 0xAA] s then CHR ''K'' # fold_name (drop 3 s)
          else upper c # fold_name cs)"
  by pat_completeness auto
termination by (relation "measure length") auto

declare fold_name.simps [simp del]

text \<open>A member into a field of each type; \<^term>\<open>None\<close> is a type error, null leaves or clears the field.\<close>

definition into_string :: "string \<Rightarrow> json \<Rightarrow> string option" where
  "into_string old j = (case j of JStr s \<Rightarrow> Some s | JNull \<Rightarrow> Some old | _ \<Rightarrow> None)"

definition into_strings :: "string list \<Rightarrow> json \<Rightarrow> string list option" where
  "into_strings old j =
     (case j of
        JArr js \<Rightarrow> those (map (\<lambda>(o1, j). into_string o1 j) (zip (old @ replicate (length js) []) js))
      | JNull \<Rightarrow> Some []
      | _ \<Rightarrow> None)"

definition into_string_map :: "string gomap \<Rightarrow> json \<Rightarrow> string gomap option" where
  "into_string_map old j =
     (case j of
        JObj ms \<Rightarrow>
          (case those (map (\<lambda>f. map_option (\<lambda>s. (fst f, s)) (into_string [] (snd f))) ms) of
             None \<Rightarrow> None
           | Some es \<Rightarrow> Some (foldl (\<lambda>m e. map_put (fst e) (snd e) m) old es))
      | JNull \<Rightarrow> Some []
      | _ \<Rightarrow> None)"

definition into_any_map :: "json gomap \<Rightarrow> json \<Rightarrow> json gomap option" where
  "into_any_map old j =
     (case j of
        JObj ms \<Rightarrow> if any_ok j then Some (put_members old ms) else None
      | JNull \<Rightarrow> Some []
      | _ \<Rightarrow> None)"

definition into_container :: "ContainerConfig \<Rightarrow> string \<times> json \<Rightarrow> ContainerConfig option" where
  "into_container c f =
     (let k = fold_name (fst f); j = snd f
      in if k = ''ID'' then map_option (\<lambda>x. c\<lparr>ct_ID := x\<rparr>) (into_string (ct_ID c) j)
         else if k = ''NAME'' then map_option (\<lambda>x. c\<lparr>ct_Name := x\<rparr>) (into_string (ct_Name c) j)
         else if k = ''IMAGE'' then map_option (\<lambda>x. c\<lparr>ct_Image := x\<rparr>) (into_string (ct_Image c) j)
         else if k = ''STATUS'' then map_option (\<lambda>x. c\<lparr>ct_Status := x\<rparr>) (into_string (ct_Status c) j)
         else if k = ''PORTS'' then map_option (\<lambda>x. c\<lparr>ct_Ports := x\<rparr>) (into_strings (ct_Ports c) j)
         else if k = ''ENV'' then map_option (\<lambda>x. c\<lparr>ct_Env := x\<rparr>) (into_strings (ct_Env c) j)
         else if k = ''VOLUMES'' then map_option (\<lambda>x. c\<lparr>ct_Volumes := x\<rparr>) (into_strings (ct_Volumes c) j)
         else if k = ''LABELS'' then map_option (\<lambda>x. c\<lparr>ct_Labels := x\<rparr>) (into_string_map (ct_Labels c) j)
         else if k = ''NETWORKS'' then map_option (\<lambda>x. c\<lparr>ct_Networks := x\<rparr>) (into_any_map (ct_Networks c) j)
         else Some c)"

definition no_container :: ContainerConfig where
  "no_container =
     \<lparr>ct_ID = [], ct_Name = [], ct_Image = [], ct_Status = [], ct_Ports = [], ct_Env = [], ct_Volumes = [],
      ct_Labels = [], ct_Networks = []\<rparr>"

fun into_members :: "ContainerConfig \<Rightarrow> (string \<times> json) list \<Rightarrow> ContainerConfig option" where
  "into_members c [] = Some c"
| "into_members c (f # fs) = (case into_container c f of None \<Rightarrow> None | Some c' \<Rightarrow> into_members c' fs)"

definition unmarshal_container :: "bytes \<Rightarrow> ContainerConfig option" where
  "unmarshal_container line =
     (case json_parse line of
        Some (JObj ms) \<Rightarrow> into_members no_container ms
      | Some JNull \<Rightarrow> Some no_container
      | _ \<Rightarrow> None)"

subsection \<open>One container in full\<close>

definition inspect_cmd :: "string \<Rightarrow> string" where
  "inspect_cmd containerID = ''docker inspect '' @ containerID"

text \<open>The function reads the parts of the document one after the other into the result.\<close>

definition read_identity :: "json gomap \<Rightarrow> ContainerConfig \<Rightarrow> ContainerConfig" where
  "read_identity data c0 =
     (let c1 = (case get_string data ''Name'' of Some name \<Rightarrow> c0\<lparr>ct_Name := TrimPrefix name ''/''\<rparr> | None \<Rightarrow> c0);
          c2 = (case get_string data ''Image'' of Some img \<Rightarrow> c1\<lparr>ct_Image := img\<rparr> | None \<Rightarrow> c1)
      in case get_map data ''State'' of
           Some st \<Rightarrow> (case get_string st ''Status'' of Some status \<Rightarrow> c2\<lparr>ct_Status := status\<rparr> | None \<Rightarrow> c2)
         | None \<Rightarrow> c2)"

definition read_config :: "(json gomap \<Rightarrow> json gomap) \<Rightarrow> json gomap \<Rightarrow> ContainerConfig \<Rightarrow> ContainerConfig" where
  "read_config ord data c =
     (case get_map data ''Config'' of
        Some cc \<Rightarrow>
          (let d = (case get_list cc ''Env'' of
                      Some env \<Rightarrow> c\<lparr>ct_Env := ct_Env c @ only_strings env\<rparr> | None \<Rightarrow> c)
           in case get_map cc ''Labels'' of
                Some labels \<Rightarrow> d\<lparr>ct_Labels := put_strings (ct_Labels d) (ord labels)\<rparr> | None \<Rightarrow> d)
      | None \<Rightarrow> c)"

definition read_host :: "(json gomap \<Rightarrow> json gomap) \<Rightarrow> json gomap \<Rightarrow> ContainerConfig \<Rightarrow> ContainerConfig" where
  "read_host ord data c =
     (case get_map data ''HostConfig'' of
        Some hc \<Rightarrow>
          (let d = (case get_list hc ''Binds'' of
                      Some binds \<Rightarrow> c\<lparr>ct_Volumes := ct_Volumes c @ only_strings binds\<rparr> | None \<Rightarrow> c)
           in case get_map hc ''PortBindings'' of
                Some ports \<Rightarrow> d\<lparr>ct_Ports := ct_Ports d @ map_keys (ord ports)\<rparr> | None \<Rightarrow> d)
      | None \<Rightarrow> c)"

definition read_networks :: "json gomap \<Rightarrow> ContainerConfig \<Rightarrow> ContainerConfig" where
  "read_networks data c =
     (case get_map data ''NetworkSettings'' of
        Some ns \<Rightarrow> (case get_map ns ''Networks'' of Some nets \<Rightarrow> c\<lparr>ct_Networks := nets\<rparr> | None \<Rightarrow> c)
      | None \<Rightarrow> c)"

definition full_config :: "(json gomap \<Rightarrow> json gomap) \<Rightarrow> string \<Rightarrow> json gomap \<Rightarrow> ContainerConfig" where
  "full_config ord containerID data =
     read_networks data (read_host ord data (read_config ord data (read_identity data
       (no_container\<lparr>ct_ID := containerID\<rparr>))))"

definition extractFullContainerConfig ::
  "(json gomap \<Rightarrow> json gomap) \<Rightarrow> 'w SSHRunner \<Rightarrow> string \<Rightarrow> ('w, docker_error + ContainerConfig) state"
where
  "extractFullContainerConfig ord client containerID = do {
     (out, err) \<leftarrow> Run client (inspect_cmd containerID);
     State_Monad.return
       (case err of
          Some e \<Rightarrow> Inl (InspectFailed e)
        | None \<Rightarrow>
            (case unmarshal_maps out of
               None \<Rightarrow> Inl InspectUnparsable
             | Some [] \<Rightarrow> Inl NoInspectData
             | Some (data # _) \<Rightarrow> Inr (full_config ord containerID data))) }"

subsection \<open>The lists\<close>

definition output_lines :: "string \<Rightarrow> string list" where
  "output_lines out = Split (TrimSpace out) CHR 0x0A"

definition ps_cmd :: string where
  "ps_cmd = ''docker ps -a --format '{{json .}}'' @ SQ"

definition container_step ::
  "(json gomap \<Rightarrow> json gomap) \<Rightarrow> 'w SSHRunner \<Rightarrow> string \<Rightarrow> ContainerConfig list \<Rightarrow> ('w, ContainerConfig list) state"
where
  "container_step ord client line containers =
     (if line = [] then State_Monad.return containers
      else (case unmarshal_container line of
        None \<Rightarrow> State_Monad.return containers
      | Some c \<Rightarrow> do {
          r \<leftarrow> extractFullContainerConfig ord client (ct_ID c);
          State_Monad.return (containers @ [case r of Inr fullConfig \<Rightarrow> fullConfig | Inl _ \<Rightarrow> c]) }))"

definition extractContainers ::
  "(json gomap \<Rightarrow> json gomap) \<Rightarrow> 'w SSHRunner \<Rightarrow> ('w, docker_error + ContainerConfig list) state"
where
  "extractContainers ord client = do {
     (out, err) \<leftarrow> Run client ps_cmd;
     (case err of
        Some e \<Rightarrow> State_Monad.return (Inl (PsFailed e))
      | None \<Rightarrow> do {
          containers \<leftarrow> for_each (container_step ord client) (output_lines out) [];
          State_Monad.return (Inr containers) }) }"

definition images_cmd :: string where
  "images_cmd = ''docker images --format '{{.Repository}}:{{.Tag}}'' @ SQ"

definition extractImages :: "'w SSHRunner \<Rightarrow> ('w, docker_error + string list) state" where
  "extractImages client = do {
     (out, err) \<leftarrow> Run client images_cmd;
     State_Monad.return
       (case err of
          Some e \<Rightarrow> Inl (ImagesFailed e)
        | None \<Rightarrow> Inr (filter (\<lambda>line. TrimSpace line \<noteq> [] \<and> line \<noteq> ''<none>:<none>'') (output_lines out))) }"

definition volumes_cmd :: string where
  "volumes_cmd = ''docker volume ls --format '{{.Name}}'' @ SQ"

definition extractVolumes :: "'w SSHRunner \<Rightarrow> ('w, docker_error + string list) state" where
  "extractVolumes client = do {
     (out, err) \<leftarrow> Run client volumes_cmd;
     State_Monad.return
       (case err of
          Some e \<Rightarrow> Inl (VolumesFailed e)
        | None \<Rightarrow> Inr (filter (\<lambda>line. TrimSpace line \<noteq> []) (output_lines out))) }"

definition tar_cmd :: "string \<Rightarrow> string" where
  "tar_cmd volumeName = ''tar czf - -C /var/lib/docker/volumes/'' @ volumeName @ '' . 2>/dev/null''"

definition volume_step :: "'w SSHRunner \<Rightarrow> string \<Rightarrow> bytes gomap \<Rightarrow> ('w, bytes gomap) state" where
  "volume_step client line volumeData =
     (let volumeName = TrimSpace line
      in if volumeName = [] then State_Monad.return volumeData
         else do {
           (data, err) \<leftarrow> Run client (tar_cmd volumeName);
           State_Monad.return (if err \<noteq> None then volumeData else map_put volumeName data volumeData) })"

definition extractVolumeData :: "'w SSHRunner \<Rightarrow> ('w, docker_error + bytes gomap) state" where
  "extractVolumeData client = do {
     (out, err) \<leftarrow> Run client volumes_cmd;
     (case err of
        Some e \<Rightarrow> State_Monad.return (Inl (VolumesFailed e))
      | None \<Rightarrow> do {
          volumeData \<leftarrow> for_each (volume_step client) (output_lines out) [];
          State_Monad.return (Inr volumeData) }) }"

definition compose_paths :: "string list" where
  "compose_paths =
     [''/opt/3x-ui/docker-compose.yaml'', ''/opt/3x-ui/docker-compose.yml'', ''/opt/docker-compose.yaml'',
      ''/root/docker-compose.yaml'']"

definition extractDockerCompose :: "'w SSHRunner \<Rightarrow> ('w, docker_error + string) state" where
  "extractDockerCompose client = do {
     r \<leftarrow> first_ok (\<lambda>path. do {
       (out, err) \<leftarrow> Run client (''cat '' @ path @ '' 2>/dev/null'');
       State_Monad.return (if err = None \<and> length out > 0 then Some out else None) }) compose_paths;
     State_Monad.return (case r of Some out \<Rightarrow> Inr out | None \<Rightarrow> Inl ComposeNotFound) }"

subsection \<open>The whole state\<close>

definition no_docker :: DockerState where
  "no_docker =
     \<lparr>ds_Containers = [], ds_Images = [], ds_Networks = [], ds_Volumes = [], ds_VolumeData = [], ds_ComposeYaml = []\<rparr>"

text \<open>The error beside the state is always nil: a part that fails keeps its initial value.\<close>

definition ExtractDockerState :: "(json gomap \<Rightarrow> json gomap) \<Rightarrow> 'w SSHRunner \<Rightarrow> ('w, DockerState) state" where
  "ExtractDockerState ord client = do {
     containers \<leftarrow> extractContainers ord client;
     (let s1 = (case containers of Inl _ \<Rightarrow> no_docker | Inr x \<Rightarrow> no_docker\<lparr>ds_Containers := x\<rparr>) in do {
     images \<leftarrow> extractImages client;
     (let s2 = (case images of Inl _ \<Rightarrow> s1 | Inr x \<Rightarrow> s1\<lparr>ds_Images := x\<rparr>) in do {
     volumes \<leftarrow> extractVolumes client;
     (let s3 = (case volumes of Inl _ \<Rightarrow> s2 | Inr x \<Rightarrow> s2\<lparr>ds_Volumes := x\<rparr>) in do {
     volumeData \<leftarrow> extractVolumeData client;
     (let s4 = (case volumeData of Inl _ \<Rightarrow> s3 | Inr x \<Rightarrow> s3\<lparr>ds_VolumeData := x\<rparr>) in do {
     composeYaml \<leftarrow> extractDockerCompose client;
     State_Monad.return (case composeYaml of Inl _ \<Rightarrow> s4 | Inr x \<Rightarrow> s4\<lparr>ds_ComposeYaml := x\<rparr>) }) }) }) }) }"

subsection \<open>Restoring\<close>

definition volume_path :: "string \<Rightarrow> string" where
  "volume_path volumeName = ''/var/lib/docker/volumes/'' @ volumeName @ ''/_data''"

definition tar_file :: "string \<Rightarrow> string" where
  "tar_file volumeName = ''/tmp/'' @ volumeName @ ''.tar.gz''"

definition mkdir_p_cmd :: "string \<Rightarrow> string" where
  "mkdir_p_cmd p = ''mkdir -p '' @ p"

definition untar_cmd :: "string \<Rightarrow> string" where
  "untar_cmd volumeName =
     ''tar xzf '' @ tar_file volumeName @ '' -C '' @ volume_path volumeName @ '' && rm '' @ tar_file volumeName"

definition restore_volume :: "'w SSHRunner \<Rightarrow> string \<times> bytes \<Rightarrow> unit \<Rightarrow> ('w, unit) state" where
  "restore_volume client entry u = do {
     _ \<leftarrow> Run client (mkdir_p_cmd (volume_path (fst entry)));
     (_, err) \<leftarrow> Run client (heredoc_cmd (tar_file (fst entry)) (snd entry));
     (if err \<noteq> None then State_Monad.return ()
      else do {
        _ \<leftarrow> Run client (untar_cmd (fst entry));
        State_Monad.return () }) }"

text \<open>The error is always nil.\<close>

definition restoreVolumeData :: "'w SSHRunner \<Rightarrow> bytes gomap \<Rightarrow> ('w, unit) state" where
  "restoreVolumeData client volumeData =
     (if volumeData = [] then State_Monad.return () else for_each (restore_volume client) volumeData ())"

definition composeDir :: string where "composeDir = ''/opt/3x-ui''"

definition restoreComposeYaml :: "'w SSHRunner \<Rightarrow> string \<Rightarrow> ('w, docker_error option) state" where
  "restoreComposeYaml client yamlContent = do {
     _ \<leftarrow> Run client (mkdir_p_cmd composeDir);
     and_then
       (check ComposeWriteFailed (Run client (heredoc_cmd (composeDir @ ''/docker-compose.yaml'') yamlContent)))
       (check ComposeUpFailed (Run client (''cd '' @ composeDir @ '' && docker compose up -d''))) }"

definition run_cmd :: "ContainerConfig \<Rightarrow> string" where
  "run_cmd container =
     (let c0 = ''docker run -d --name '' @ ct_Name container @ '' --restart unless-stopped'';
          c1 = foldl (\<lambda>c env. c @ '' -e '' @ SQ @ env @ SQ) c0 (ct_Env container);
          c2 = foldl (\<lambda>c port. c @ '' -p '' @ port) c1 (ct_Ports container);
          c3 = foldl (\<lambda>c volume. c @ '' -v '' @ volume) c2 (ct_Volumes container);
          c4 = foldl (\<lambda>c l. c @ '' -l '' @ fst l @ ''='' @ snd l) c3 (ct_Labels container)
      in c4 @ '' '' @ ct_Image container)"

definition restoreContainer :: "'w SSHRunner \<Rightarrow> ContainerConfig \<Rightarrow> ('w, docker_error option) state" where
  "restoreContainer client container =
     (if ct_Image container = [] then State_Monad.return (Some (NoImage (ct_Name container)))
      else do {
        (out, err) \<leftarrow> Run client (run_cmd container);
        State_Monad.return (map_option (StartFailed out) err) })"

text \<open>The error is always nil; failures of the parts are only logged.\<close>

definition RestoreDockerState :: "'w SSHRunner \<Rightarrow> DockerState \<Rightarrow> ('w, unit) state" where
  "RestoreDockerState client st = do {
     _ \<leftarrow> restoreVolumeData client (ds_VolumeData st);
     _ \<leftarrow> (if ds_ComposeYaml st \<noteq> [] then restoreComposeYaml client (ds_ComposeYaml st)
          else State_Monad.return None);
     for_each (\<lambda>container u. do { _ \<leftarrow> restoreContainer client container; State_Monad.return () })
       (ds_Containers st) () }"

subsection \<open>Validation\<close>

definition validateContainerdRuntime :: "'w SSHRunner \<Rightarrow> ('w, bool) state" where
  "validateContainerdRuntime client = do {
     (_, err) \<leftarrow> Run client ''which containerd'';
     State_Monad.return (err = None) }"

definition ValidateDockerState :: "'w SSHRunner \<Rightarrow> ('w, docker_error option) state" where
  "ValidateDockerState client =
     and_then (check NotInstalled (Run client ''docker --version''))
       (check DaemonSilent (Run client ''docker ps''))"

subsection \<open>Facts\<close>

text \<open>Reading a part leaves the fields of the other parts alone.\<close>

lemma read_identity_fields [simp]:
  "ct_ID (read_identity data c) = ct_ID c" "ct_Env (read_identity data c) = ct_Env c"
  "ct_Labels (read_identity data c) = ct_Labels c" "ct_Ports (read_identity data c) = ct_Ports c"
  "ct_Volumes (read_identity data c) = ct_Volumes c" "ct_Networks (read_identity data c) = ct_Networks c"
  by (simp_all add: read_identity_def Let_def split: option.split)

lemma read_config_fields [simp]:
  "ct_ID (read_config ord data c) = ct_ID c" "ct_Name (read_config ord data c) = ct_Name c"
  "ct_Image (read_config ord data c) = ct_Image c" "ct_Status (read_config ord data c) = ct_Status c"
  "ct_Ports (read_config ord data c) = ct_Ports c" "ct_Volumes (read_config ord data c) = ct_Volumes c"
  "ct_Networks (read_config ord data c) = ct_Networks c"
  by (simp_all add: read_config_def Let_def split: option.split)

lemma read_host_fields [simp]:
  "ct_ID (read_host ord data c) = ct_ID c" "ct_Name (read_host ord data c) = ct_Name c"
  "ct_Image (read_host ord data c) = ct_Image c" "ct_Status (read_host ord data c) = ct_Status c"
  "ct_Env (read_host ord data c) = ct_Env c" "ct_Labels (read_host ord data c) = ct_Labels c"
  "ct_Networks (read_host ord data c) = ct_Networks c"
  by (simp_all add: read_host_def Let_def split: option.split)

lemma read_networks_fields [simp]:
  "ct_ID (read_networks data c) = ct_ID c" "ct_Name (read_networks data c) = ct_Name c"
  "ct_Image (read_networks data c) = ct_Image c" "ct_Status (read_networks data c) = ct_Status c"
  "ct_Env (read_networks data c) = ct_Env c" "ct_Labels (read_networks data c) = ct_Labels c"
  "ct_Ports (read_networks data c) = ct_Ports c" "ct_Volumes (read_networks data c) = ct_Volumes c"
  by (simp_all add: read_networks_def split: option.split)

text \<open>What may depend on the order of a map does so only up to that order.\<close>

definition same_config :: "ContainerConfig \<Rightarrow> ContainerConfig \<Rightarrow> bool" where
  "same_config c d \<longleftrightarrow>
     map_of (ct_Labels c) = map_of (ct_Labels d) \<and> mset (ct_Ports c) = mset (ct_Ports d) \<and>
     d = c\<lparr>ct_Labels := ct_Labels d, ct_Ports := ct_Ports d\<rparr>"

lemma read_config_env: "ct_Env (read_config ord data c) = ct_Env (read_config ord' data c)"
  by (simp add: read_config_def Let_def split: option.split)

lemma read_host_volumes:
  "ct_Volumes c = ct_Volumes d \<Longrightarrow> ct_Volumes (read_host ord data c) = ct_Volumes (read_host ord' data d)"
  by (simp add: read_host_def Let_def split: option.split)

lemma read_networks_nets:
  "ct_Networks c = ct_Networks d \<Longrightarrow> ct_Networks (read_networks data c) = ct_Networks (read_networks data d)"
  by (simp add: read_networks_def split: option.split)

lemma put_strings_order:
  assumes "wf_gomap m" "mset (ord m) = mset m" "mset (ord' m) = mset m"
  shows "map_of (put_strings l (ord m)) = map_of (put_strings l (ord' m))"
proof -
  have wf: "wf_gomap (ord m)" "wf_gomap (ord' m)"
    using assms unfolding wf_gomap_def map_keys_def by (metis mset_eq_imp_distinct_iff mset_map)+
  have "map_of (ord m) = map_of (ord' m)" using wf_gomap_mset_of[OF wf(1), of "ord' m"] assms by simp
  then show ?thesis by (simp add: fun_eq_iff map_of_put_strings wf)
qed

lemma get_map_wf: "get_map m k = Some m' \<Longrightarrow> wf_gomap m'"
  by (auto simp: get_map_def split: option.splits json.splits)

lemma read_config_labels:
  assumes "\<And>m. mset (ord m) = mset m" "\<And>m. mset (ord' m) = mset m"
  shows "map_of (ct_Labels (read_config ord data c)) = map_of (ct_Labels (read_config ord' data c))"
  using put_strings_order[of _ ord ord', OF get_map_wf assms]
  by (auto simp: read_config_def Let_def split: option.split)

lemma read_host_ports:
  assumes "\<And>m. mset (ord m) = mset m" "\<And>m. mset (ord' m) = mset m" "ct_Ports c = ct_Ports d"
  shows "mset (ct_Ports (read_host ord data c)) = mset (ct_Ports (read_host ord' data d))"
  using assms by (simp add: read_host_def Let_def map_keys_def split: option.split)

lemma full_config_same:
  assumes "\<And>m. mset (ord m) = mset m" "\<And>m. mset (ord' m) = mset m"
  shows "same_config (full_config ord i data) (full_config ord' i data)"
  unfolding same_config_def full_config_def
proof (intro conjI)
  show "map_of (ct_Labels (read_networks data (read_host ord data (read_config ord data (read_identity data (no_container\<lparr>ct_ID := i\<rparr>))))))
     = map_of (ct_Labels (read_networks data (read_host ord' data (read_config ord' data (read_identity data (no_container\<lparr>ct_ID := i\<rparr>))))))"
    using read_config_labels[OF assms] by simp
  show "mset (ct_Ports (read_networks data (read_host ord data (read_config ord data (read_identity data (no_container\<lparr>ct_ID := i\<rparr>))))))
     = mset (ct_Ports (read_networks data (read_host ord' data (read_config ord' data (read_identity data (no_container\<lparr>ct_ID := i\<rparr>))))))"
    unfolding read_networks_fields by (rule read_host_ports[OF assms]) simp
  show "read_networks data (read_host ord' data (read_config ord' data (read_identity data (no_container\<lparr>ct_ID := i\<rparr>))))
     = read_networks data (read_host ord data (read_config ord data (read_identity data (no_container\<lparr>ct_ID := i\<rparr>))))
         \<lparr>ct_Labels := ct_Labels (read_networks data (read_host ord' data (read_config ord' data (read_identity data (no_container\<lparr>ct_ID := i\<rparr>))))),
          ct_Ports := ct_Ports (read_networks data (read_host ord' data (read_config ord' data (read_identity data (no_container\<lparr>ct_ID := i\<rparr>)))))\<rparr>"
    by (rule ContainerConfig.equality)
      (auto intro: read_networks_nets read_host_volumes read_config_env)
qed

subsection \<open>Lines that are not decoded\<close>

text \<open>A field that is not a string cannot be filled from one.\<close>

definition structured_names :: "string list" where
  "structured_names = [''PORTS'', ''ENV'', ''VOLUMES'', ''LABELS'', ''NETWORKS'']"

lemma into_container_string:
  "fold_name k \<in> set structured_names \<Longrightarrow> into_container c (k, JStr s) = None"
  by (auto simp: structured_names_def into_container_def into_strings_def into_string_map_def into_any_map_def Let_def)

lemma into_members_string:
  "(k, JStr s) \<in> set ms \<Longrightarrow> fold_name k \<in> set structured_names \<Longrightarrow> into_members c ms = None"
proof (induction ms arbitrary: c)
  case Nil
  then show ?case by simp
next
  case (Cons f fs)
  then show ?case
    using into_container_string[of k c s] by (cases "f = (k, JStr s)") (auto split: option.split)
qed

definition flat_line :: "string \<Rightarrow> bool" where
  "flat_line line \<longleftrightarrow>
     (case json_parse line of
        Some (JObj ms) \<Rightarrow>
          list_ex (\<lambda>f. fold_name (fst f) \<in> set structured_names \<and> (case snd f of JStr _ \<Rightarrow> True | _ \<Rightarrow> False)) ms
      | _ \<Rightarrow> False)"

lemma flat_line_dropped:
  assumes "flat_line line"
  shows "unmarshal_container line = None"
proof -
  obtain ms where ms: "json_parse line = Some (JObj ms)"
    "list_ex (\<lambda>f. fold_name (fst f) \<in> set structured_names \<and> (case snd f of JStr _ \<Rightarrow> True | _ \<Rightarrow> False)) ms"
    using assms unfolding flat_line_def by (simp split: option.splits json.splits)
  then obtain f where f: "f \<in> set ms" "fold_name (fst f) \<in> set structured_names"
    "case snd f of JStr _ \<Rightarrow> True | _ \<Rightarrow> False"
    by (auto simp: list_ex_iff)
  then obtain s where "snd f = JStr s" by (cases "snd f") auto
  then have "f = (fst f, JStr s)" by (metis prod.collapse)
  then have "into_members no_container ms = None" using f(1,2) into_members_string by metis
  then show ?thesis using ms(1) by (simp add: unmarshal_container_def)
qed

lemma for_each_skip:
  "(\<And>x s. x \<in> set xs \<Longrightarrow> f x s = State_Monad.return s) \<Longrightarrow> for_each f xs s = State_Monad.return s"
proof (induction xs arbitrary: s)
  case (Cons x xs)
  then show ?case by (intro state_ext) simp
qed simp

subsection \<open>What a restore sends\<close>

definition volume_cmds :: "string \<times> bytes \<Rightarrow> string set" where
  "volume_cmds e = {mkdir_p_cmd (volume_path (fst e)), heredoc_cmd (tar_file (fst e)) (snd e), untar_cmd (fst e)}"

definition compose_restore_cmds :: "string \<Rightarrow> string set" where
  "compose_restore_cmds yaml =
     {mkdir_p_cmd composeDir, heredoc_cmd (composeDir @ ''/docker-compose.yaml'') yaml,
      ''cd '' @ composeDir @ '' && docker compose up -d''}"

definition docker_restore_cmds :: "DockerState \<Rightarrow> string set" where
  "docker_restore_cmds st = (\<Union>e \<in> set (ds_VolumeData st). volume_cmds e) \<union>
     (if ds_ComposeYaml st = [] then {} else compose_restore_cmds (ds_ComposeYaml st))"

context command_log
begin

lemma containers_send:
  "sends log (for_each (\<lambda>c u. do { _ \<leftarrow> restoreContainer client c; State_Monad.return () }) cs ()) w
     (map run_cmd (filter (\<lambda>c. ct_Image c \<noteq> []) cs))"
proof (induction cs arbitrary: w)
  case Nil
  then show ?case by simp
next
  case (Cons c cs)
  have "sends log (do { _ \<leftarrow> restoreContainer client c; State_Monad.return () }) w
      (if ct_Image c = [] then [] else [run_cmd c])"
    using log_Run[of "run_cmd c" w] by (auto simp: sends_def restoreContainer_def split: prod.splits)
  from sends_bind[OF this, of "\<lambda>s. for_each (\<lambda>c u. do { _ \<leftarrow> restoreContainer client c; State_Monad.return () }) cs s"]
  show ?case using Cons by (cases "ct_Image c = []") simp_all
qed

lemma volumes_policy: "policy log (\<lambda>c. c \<in> (\<Union>e \<in> set vs. volume_cmds e)) (restoreVolumeData client vs)"
  unfolding restoreVolumeData_def restore_volume_def
  by (intro policy_intros) (auto simp: volume_cmds_def)

lemma compose_policy: "policy log (\<lambda>c. c \<in> compose_restore_cmds yaml) (restoreComposeYaml client yaml)"
  unfolding restoreComposeYaml_def by (intro policy_intros) (auto simp: compose_restore_cmds_def)

lemma restore_docker_sends:
  "\<exists>pre. sends log (RestoreDockerState client st) w
      (pre @ map run_cmd (filter (\<lambda>c. ct_Image c \<noteq> []) (ds_Containers st))) \<and>
    set pre \<subseteq> docker_restore_cmds st"
proof -
  let ?m1 = "restoreVolumeData client (ds_VolumeData st)"
  let ?m2 = "if ds_ComposeYaml st \<noteq> [] then restoreComposeYaml client (ds_ComposeYaml st) else State_Monad.return None"
  obtain a where a: "sends log ?m1 w a" "list_all (\<lambda>c. c \<in> (\<Union>e \<in> set (ds_VolumeData st). volume_cmds e)) a"
    using policyD[OF volumes_policy] by blast
  have "policy log (\<lambda>c. c \<in> docker_restore_cmds st) ?m2"
    using policy_mono[OF compose_policy[of "ds_ComposeYaml st"], of "\<lambda>c. c \<in> docker_restore_cmds st"]
    by (auto simp: docker_restore_cmds_def intro: policy_return)
  from policyD[OF this] obtain b where b: "sends log ?m2 (snd (run_state ?m1 w)) b"
    "list_all (\<lambda>c. c \<in> docker_restore_cmds st) b" by blast
  have "sends log (RestoreDockerState client st) w
      (a @ b @ map run_cmd (filter (\<lambda>c. ct_Image c \<noteq> []) (ds_Containers st)))"
    unfolding RestoreDockerState_def by (intro sends_bind[OF a(1)] sends_bind[OF b(1)] containers_send)
  then show ?thesis
    using a(2) b(2) by (intro exI[of _ "a @ b"]) (auto simp: list_all_iff docker_restore_cmds_def)
qed

end

subsection \<open>Properties\<close>

text \<open>
  C35: the order in which Go ranges over the labels and the port bindings of a container does not
  matter: for any two orders the configuration is the same but for the order of its ports and of
  the entries of its label map.
\<close>

theorem full_config_order:
  assumes "\<And>m. mset (ord m) = mset m" and "\<And>m. mset (ord' m) = mset m"
  shows "same_config (full_config ord i data) (full_config ord' i data)"
  using assms by (rule full_config_same)

theorem full_config_order_witness:
  "same_config (full_config (\<lambda>m. m) ''id'' [(''Config'', JObj [(''Labels'', JObj [(''a'', JStr ''1''), (''b'', JStr ''2'')])])])
     (full_config rev ''id'' [(''Config'', JObj [(''Labels'', JObj [(''a'', JStr ''1''), (''b'', JStr ''2'')])])])"
  by (rule full_config_order) simp_all

text \<open>
  C32: a line in which ports, labels or networks are given as one string, as \<^verbatim>\<open>docker ps\<close> prints
  them with the JSON format, is skipped: when all lines are such, no container is extracted and no
  container is ever inspected.
\<close>

theorem docker_ps_lines_are_dropped:
  assumes "run_state (Run client ps_cmd) w = ((out, None), w')"
    and "\<forall>line \<in> set (output_lines out). line = [] \<or> flat_line line"
  shows "run_state (extractContainers ord client) w = (Inr [], w')"
proof -
  have "for_each (container_step ord client) (output_lines out) [] = State_Monad.return []"
    using assms(2) flat_line_dropped by (intro for_each_skip) (auto simp: container_step_def)
  then show ?thesis using assms(1) by (simp add: extractContainers_def)
qed

definition ps_line :: string where
  "ps_line = ''{\"ID\":\"4\",\"Ports\":\"80/tcp\"}''"

lemma ps_line_flat: "flat_line ps_line"
  by code_simp

lemma ps_line_lines: "output_lines ps_line = [ps_line]"
proof -
  have "TrimSpace ps_line = ps_line" by (rule TrimSpace_graphic) (simp_all add: ps_line_def graphic_def)
  then show ?thesis by (simp add: output_lines_def Split_no_sep ps_line_def)
qed

theorem docker_ps_lines_are_dropped_witness:
  "run_state (extractContainers (\<lambda>m. m) (constant_client (ps_line, None))) () = (Inr [], ())"
proof (rule docker_ps_lines_are_dropped)
  show "run_state (Run (constant_client (ps_line, None)) ps_cmd) () = ((ps_line, None), ())"
    by (simp add: constant_client_def)
  show "\<forall>line \<in> set (output_lines ps_line). line = [] \<or> flat_line line"
    by (simp add: ps_line_lines ps_line_flat)
qed

text \<open>
  C34: restoring Docker starts every container that has an image, once and in order, whatever failed
  before it; all that is sent before are the commands for the volumes and the compose file of the
  state, and a container without an image sends nothing.
\<close>

theorem RestoreDockerState_commands:
  "\<exists>pre. cmds_of (RestoreDockerState (traced client) st) w =
      pre @ map run_cmd (filter (\<lambda>c. ct_Image c \<noteq> []) (ds_Containers st)) \<and>
    set pre \<subseteq> docker_restore_cmds st"
proof -
  obtain pre where pre: "sends (\<lambda>w. map fst (snd w)) (RestoreDockerState (traced client) st) (w, [])
      (pre @ map run_cmd (filter (\<lambda>c. ct_Image c \<noteq> []) (ds_Containers st)))"
    "set pre \<subseteq> docker_restore_cmds st"
    using traced.commands.restore_docker_sends[of client st "(w, [])"] by (elim exE conjE) (rule that)
  show ?thesis by (rule exI, rule conjI, rule cmds_of_sends[OF pre(1)], rule pre(2))
qed

end
