(* ===== verification/Nomad_Jobs.thy ===== *)
theory Nomad_Jobs
  imports Runner Go_Json_Decode
begin

text \<open>
  \<^verbatim>\<open>internal/nomad/nomad.go\<close>: the jobs of a Nomad server, read as JSON and run again on another
  server, and the check that Nomad can be used.
\<close>

record NomadJob =
  job_ID :: string
  job_Name :: string
  job_Type :: string
  job_Datacenters :: "string list"
  job_Status :: string
  job_TaskGroups :: "json gomap list"
  job_Meta :: "string gomap"
  RawJobspec :: string

record NomadState =
  Jobs :: "NomadJob list"
  ns_Nodes :: "string list"
  Allocations :: "json gomap"

datatype nomad_error =
    NomadNotInstalled | NomadNotResponding | NoRuntime
  | JobListFailed string | JobListUnparsable
  | JobInspectFailed string | JobUnparsable
  | NoSpecification | JobWriteFailed string | JobRunFailed string string
  | AllocationsFailed string | AllocationsUnparsable

subsection \<open>Is Nomad there\<close>

definition ValidateNomadInstall :: "'w SSHRunner \<Rightarrow> ('w, nomad_error option) state" where
  "ValidateNomadInstall client =
     and_then (check (\<lambda>_. NomadNotInstalled) (Run client ''which nomad''))
    (and_then (check (\<lambda>_. NomadNotResponding) (Run client ''nomad version''))
       (do {
          (hasDocker, _) \<leftarrow> Run client ''docker --version'';
          (hasContainerd, _) \<leftarrow> Run client ''which containerd'';
          State_Monad.return (if hasDocker = [] \<and> hasContainerd = [] then Some NoRuntime else None) }))"

subsection \<open>Extracting\<close>

definition job_inspect_cmd :: "string \<Rightarrow> string" where
  "job_inspect_cmd jobID = ''nomad job inspect '' @ jobID @ '' -json 2>/dev/null''"

definition only_maps :: "json list \<Rightarrow> json gomap list" where
  "only_maps js = List.map_filter (\<lambda>j. case j of JObj ms \<Rightarrow> Some (go_map ms) | _ \<Rightarrow> None) js"

definition or_empty :: "string option \<Rightarrow> string" where
  "or_empty s = (case s of Some x \<Rightarrow> x | None \<Rightarrow> [])"

text \<open>
  The job built from the document: every field keeps its zero value when the document has no value
  of its type, and the text itself is kept beside.
\<close>

definition job_of :: "(json gomap \<Rightarrow> json gomap) \<Rightarrow> string \<Rightarrow> json gomap \<Rightarrow> NomadJob" where
  "job_of ord out jobData =
     \<lparr>job_ID = or_empty (get_string jobData ''ID''),
      job_Name = or_empty (get_string jobData ''Name''),
      job_Type = or_empty (get_string jobData ''Type''),
      job_Datacenters = (case get_list jobData ''Datacenters'' of Some ds \<Rightarrow> only_strings ds | None \<Rightarrow> []),
      job_Status = or_empty (get_string jobData ''Status''),
      job_TaskGroups = (case get_list jobData ''TaskGroups'' of Some tgs \<Rightarrow> only_maps tgs | None \<Rightarrow> []),
      job_Meta = (case get_map jobData ''Meta'' of Some meta \<Rightarrow> put_strings [] (ord meta) | None \<Rightarrow> []),
      RawJobspec = out\<rparr>"

definition extractNomadJobDetails ::
  "(json gomap \<Rightarrow> json gomap) \<Rightarrow> 'w SSHRunner \<Rightarrow> string \<Rightarrow> ('w, nomad_error + NomadJob) state"
where
  "extractNomadJobDetails ord client jobID = do {
     (out, err) \<leftarrow> Run client (job_inspect_cmd jobID);
     State_Monad.return
       (case err of
          Some e \<Rightarrow> Inl (JobInspectFailed e)
        | None \<Rightarrow> (case unmarshal_map out of None \<Rightarrow> Inl JobUnparsable | Some jobData \<Rightarrow> Inr (job_of ord out jobData))) }"

definition job_list_cmd :: string where
  "job_list_cmd = ''nomad job list -json 2>/dev/null''"

definition job_step ::
  "(json gomap \<Rightarrow> json gomap) \<Rightarrow> 'w SSHRunner \<Rightarrow> json gomap \<Rightarrow> NomadJob list \<Rightarrow> ('w, NomadJob list) state"
where
  "job_step ord client jobInfo jobs =
     (case get_string jobInfo ''ID'' of
        None \<Rightarrow> State_Monad.return jobs
      | Some jobID \<Rightarrow> do {
          r \<leftarrow> extractNomadJobDetails ord client jobID;
          State_Monad.return (case r of Inl _ \<Rightarrow> jobs | Inr job \<Rightarrow> jobs @ [job]) })"

definition extractNomadJobs ::
  "(json gomap \<Rightarrow> json gomap) \<Rightarrow> 'w SSHRunner \<Rightarrow> ('w, nomad_error + NomadJob list) state"
where
  "extractNomadJobs ord client = do {
     (out, err) \<leftarrow> Run client job_list_cmd;
     (case err of
        Some e \<Rightarrow> State_Monad.return (Inl (JobListFailed e))
      | None \<Rightarrow>
          (case unmarshal_maps out of
             None \<Rightarrow> State_Monad.return (Inl JobListUnparsable)
           | Some jobList \<Rightarrow> do {
               jobs \<leftarrow> for_each (job_step ord client) jobList [];
               State_Monad.return (Inr jobs) })) }"

definition no_nomad :: NomadState where
  "no_nomad = \<lparr>Jobs = [], ns_Nodes = [], Allocations = []\<rparr>"

text \<open>The error beside the state is always nil.\<close>

definition ExtractNomadState :: "(json gomap \<Rightarrow> json gomap) \<Rightarrow> 'w SSHRunner \<Rightarrow> ('w, NomadState) state" where
  "ExtractNomadState ord client = do {
     err \<leftarrow> ValidateNomadInstall client;
     (if err \<noteq> None then State_Monad.return no_nomad
      else do {
        jobs \<leftarrow> extractNomadJobs ord client;
        State_Monad.return (case jobs of Inl _ \<Rightarrow> no_nomad | Inr js \<Rightarrow> no_nomad\<lparr>Jobs := js\<rparr>) }) }"

definition GetNomadAllocations :: "'w SSHRunner \<Rightarrow> string \<Rightarrow> ('w, nomad_error + json gomap) state" where
  "GetNomadAllocations client jobID = do {
     (out, err) \<leftarrow> Run client (''nomad job allocations '' @ jobID @ '' -json 2>/dev/null'');
     State_Monad.return
       (case err of
          Some e \<Rightarrow> Inl (AllocationsFailed e)
        | None \<Rightarrow> (case unmarshal_map out of None \<Rightarrow> Inl AllocationsUnparsable | Some m \<Rightarrow> Inr m)) }"

subsection \<open>Restoring\<close>

definition job_file :: "NomadJob \<Rightarrow> string" where
  "job_file job = ''/tmp/'' @ job_ID job @ ''.nomad.json''"

definition job_write_cmd :: "NomadJob \<Rightarrow> string" where
  "job_write_cmd job = heredoc_cmd (job_file job) (RawJobspec job)"

definition job_run_cmd :: "NomadJob \<Rightarrow> string" where
  "job_run_cmd job = ''nomad job run '' @ job_file job @ '' 2>&1''"

definition job_rm_cmd :: "NomadJob \<Rightarrow> string" where
  "job_rm_cmd job = ''rm -f '' @ job_file job"

definition restoreNomadJob :: "'w SSHRunner \<Rightarrow> NomadJob \<Rightarrow> ('w, nomad_error option) state" where
  "restoreNomadJob client job =
     (if RawJobspec job = [] then State_Monad.return (Some NoSpecification)
      else
        and_then (check JobWriteFailed (Run client (job_write_cmd job))) (do {
          (out, err) \<leftarrow> Run client (job_run_cmd job);
          (case err of
             Some e \<Rightarrow> State_Monad.return (Some (JobRunFailed out e))
           | None \<Rightarrow> do {
               _ \<leftarrow> Run client (job_rm_cmd job);
               State_Monad.return None }) }))"

text \<open>The error is always nil.\<close>

definition RestoreNomadState :: "'w SSHRunner \<Rightarrow> NomadState \<Rightarrow> ('w, unit) state" where
  "RestoreNomadState client st =
     (if Jobs st = [] then State_Monad.return ()
      else for_each (\<lambda>job u. do { _ \<leftarrow> restoreNomadJob client job; State_Monad.return () }) (Jobs st) ())"

subsection \<open>Facts\<close>

lemma extractNomadJobDetails_Inr:
  assumes "run_state (extractNomadJobDetails ord client jobID) w = (Inr job, w')"
  shows "\<exists>out jobData. run_state (Run client (job_inspect_cmd jobID)) w = ((out, None), w') \<and>
    unmarshal_map out = Some jobData \<and> job = job_of ord out jobData"
  using assms by (auto simp: extractNomadJobDetails_def split: prod.splits option.splits)

text \<open>
  Every extracted job is kept with the very text the server sent for it, and was read from it.
\<close>

definition job_received :: "(json gomap \<Rightarrow> json gomap) \<Rightarrow> trace \<Rightarrow> NomadJob \<Rightarrow> bool" where
  "job_received ord tr job \<longleftrightarrow>
     (\<exists>jobID jobData. (job_inspect_cmd jobID, (RawJobspec job, None)) \<in> set tr \<and>
        unmarshal_map (RawJobspec job) = Some jobData \<and> job = job_of ord (RawJobspec job) jobData)"

lemma job_received_mono: "job_received ord tr job \<Longrightarrow> job_received ord (tr @ es) job"
  by (auto simp: job_received_def)

lemma job_step_received:
  assumes "run_state (job_step ord (traced client) info jobs) x = (jobs', x')"
    "\<forall>job \<in> set jobs. job_received ord (snd x) job"
  shows "\<forall>job \<in> set jobs'. job_received ord (snd x') job"
proof (cases "get_string info ''ID''")
  case None
  then show ?thesis using assms by (simp add: job_step_def)
next
  case (Some jobID)
  obtain out err y where r: "run_state (Run (traced client) (job_inspect_cmd jobID)) x = ((out, err), y)"
    by (metis prod.exhaust)
  have log: "snd y = snd x @ [(job_inspect_cmd jobID, (out, err))]"
    using traced.rlog_Run[of client "job_inspect_cmd jobID" x] r by simp
  have old: "\<forall>job \<in> set jobs. job_received ord (snd y) job"
    using assms(2) job_received_mono log by simp
  have new: "job_received ord (snd y) (job_of ord out d)" if "unmarshal_map out = Some d" "err = None" for d
    using that log by (auto simp: job_received_def job_of_def)
  show ?thesis
    using assms(1) Some r old new
    by (auto simp: job_step_def extractNomadJobDetails_def split: option.splits)
qed

lemma for_each_jobs_received:
  assumes "run_state (for_each (job_step ord (traced client)) infos []) x = (jobs, x')"
  shows "\<forall>job \<in> set jobs. job_received ord (snd x') job"
  by (rule for_each_run_inv[OF assms, where I = "\<lambda>jobs x. \<forall>job \<in> set jobs. job_received ord (snd x) job"])
    (simp, rule job_step_received, assumption+)

lemma ExtractNomadState_received:
  assumes "run_state (ExtractNomadState ord (traced client)) x = (st, x')"
  shows "\<forall>job \<in> set (Jobs st). job_received ord (snd x') job"
proof -
  obtain e y where v: "run_state (ValidateNomadInstall (traced client)) x = (e, y)" by (metis prod.exhaust)
  obtain out err z where l: "run_state (Run (traced client) job_list_cmd) y = ((out, err), z)"
    by (metis prod.exhaust)
  show ?thesis
  proof (cases "e = None \<and> err = None \<and> unmarshal_maps out \<noteq> None")
    case True
    then obtain infos where i: "unmarshal_maps out = Some infos" by auto
    obtain jobs x2 where j: "run_state (for_each (job_step ord (traced client)) infos []) z = (jobs, x2)"
      by (metis prod.exhaust)
    then have "st = no_nomad\<lparr>Jobs := jobs\<rparr>" "x' = x2"
      using assms v l True i by (auto simp: ExtractNomadState_def extractNomadJobs_def)
    then show ?thesis using for_each_jobs_received[OF j] by simp
  next
    case False
    then have "st = no_nomad"
      using assms v l
      by (cases e; cases err; cases "unmarshal_maps out")
        (auto simp: ExtractNomadState_def extractNomadJobs_def)
    then show ?thesis by (simp add: no_nomad_def)
  qed
qed

text \<open>A job with a specification is sent as a plan: write, run and, when that went well, remove.\<close>

definition job_cmds :: "NomadJob \<Rightarrow> string set" where
  "job_cmds job = {job_write_cmd job, job_run_cmd job, job_rm_cmd job}"

context command_log
begin

lemma job_sends:
  assumes "RawJobspec job \<noteq> []"
  shows "\<exists>cs. sends log (restoreNomadJob client job) w (job_write_cmd job # cs) \<and>
    prefix cs [job_run_cmd job, job_rm_cmd job]"
proof -
  obtain o1 e1 w1 where 1: "run_state (Run client (job_write_cmd job)) w = ((o1, e1), w1)" by (metis prod.exhaust)
  obtain o2 e2 w2 where 2: "run_state (Run client (job_run_cmd job)) w1 = ((o2, e2), w2)" by (metis prod.exhaust)
  obtain r3 w3 where 3: "run_state (Run client (job_rm_cmd job)) w2 = (r3, w3)" by (metis prod.exhaust)
  have logs: "log w1 = log w @ [job_write_cmd job]" "log w2 = log w1 @ [job_run_cmd job]"
    "log w3 = log w2 @ [job_rm_cmd job]"
    using log_Run[of "job_write_cmd job" w] log_Run[of "job_run_cmd job" w1] log_Run[of "job_rm_cmd job" w2] 1 2 3
    by simp_all
  show ?thesis
    using assms logs 1 2 3
    by (cases e1; cases e2) (auto simp: sends_def restoreNomadJob_def and_then_def check_def)
qed

end

text \<open>The commands of a restore: those of each job in order, none for a job without specification.\<close>

definition job_script :: "NomadJob \<Rightarrow> string list \<Rightarrow> bool" where
  "job_script job cs \<longleftrightarrow>
     (if RawJobspec job = [] then cs = []
      else (\<exists>ds. cs = job_write_cmd job # ds \<and> prefix ds [job_run_cmd job, job_rm_cmd job]))"

context command_log
begin

lemma job_script_sends: "\<exists>cs. job_script job cs \<and> sends log (restoreNomadJob client job) w cs"
proof (cases "RawJobspec job = []")
  case True
  then show ?thesis by (intro exI[of _ "[]"]) (simp add: job_script_def restoreNomadJob_def)
next
  case False
  then show ?thesis using job_sends[OF False, of w] by (auto simp: job_script_def)
qed

lemma jobs_send:
  "\<exists>css. list_all2 job_script jobs css \<and>
     sends log (for_each (\<lambda>job u. do { _ \<leftarrow> restoreNomadJob client job; State_Monad.return () }) jobs ()) w (concat css)"
proof (induction jobs arbitrary: w)
  case Nil
  show ?case by (rule exI[of _ "[]"]) simp
next
  case (Cons job jobs)
  let ?m = "do { _ \<leftarrow> restoreNomadJob client job; State_Monad.return () }"
  let ?l = "\<lambda>s. for_each (\<lambda>job u. do { _ \<leftarrow> restoreNomadJob client job; State_Monad.return () }) jobs s"
  obtain cs where cs: "job_script job cs" "sends log (restoreNomadJob client job) w cs"
    using job_script_sends by blast
  then have m: "sends log ?m w cs" by (auto simp: sends_def split: prod.splits)
  obtain css where css: "list_all2 job_script jobs css" "sends log (?l ()) (snd (run_state ?m w)) (concat css)"
    using Cons by blast
  show ?case
    using sends_bind[OF m, of ?l] cs(1) css by (intro exI[of _ "cs # css"]) simp
qed

end

subsection \<open>Properties\<close>

text \<open>
  C31: every job that is extracted is one the server described: its specification is, byte for byte,
  the reply the server gave without error to the inspection of some job, and its other fields were
  read from that text.
\<close>

theorem extracted_jobs_are_verbatim:
  assumes "run_state (ExtractNomadState ord (traced client)) (w, []) = (st, (w', tr))"
    and "job \<in> set (Jobs st)"
  shows "\<exists>jobID jobData. (job_inspect_cmd jobID, (RawJobspec job, None)) \<in> set tr \<and>
    unmarshal_map (RawJobspec job) = Some jobData \<and> job = job_of ord (RawJobspec job) jobData"
  using ExtractNomadState_received[OF assms(1)] assms(2) by (auto simp: job_received_def)

text \<open>A server with one job: the listing and the description of the project's test.\<close>

definition nomad_mock :: MockSSHRunner where
  "nomad_mock = NewMockSSHRunner (Some
     [(''which nomad'', ''n''), (''nomad version'', ''N''), (''docker --version'', ''D''),
      (''nomad job list -json'', ''[{\"ID\":\"j\"}]''), (''nomad job inspect'', ''{\"ID\":\"j\"}'')])"

theorem extracted_jobs_are_verbatim_witness:
  "\<exists>job tr jobID jobData. (job_inspect_cmd jobID, (RawJobspec job, None)) \<in> set (tr :: trace) \<and>
    unmarshal_map (RawJobspec job) = Some jobData \<and> job = job_of (\<lambda>m. m) (RawJobspec job) jobData"
proof -
  obtain st w' tr where r: "run_state (ExtractNomadState (\<lambda>m. m) (traced mock_client)) (nomad_mock, []) = (st, (w', tr))"
    by (metis prod.exhaust)
  have "length (Jobs (fst (run_state (ExtractNomadState (\<lambda>m. m) (traced mock_client)) (nomad_mock, [])))) = 1"
    by code_simp
  then obtain job where "job \<in> set (Jobs st)" using r by (cases "Jobs st") auto
  from extracted_jobs_are_verbatim[OF r this] show ?thesis
    by - (rule exI[of _ job], rule exI[of _ tr])
qed

text \<open>
  Restoring the jobs sends, for each job in order, the here-document with its specification,
  the command that runs it and the removal of the file, each only when the one before it did not
  fail; a failure of one job does not keep the next from being tried, and a job without a
  specification sends nothing.
\<close>

theorem RestoreNomadState_commands:
  fixes client :: "'w SSHRunner"
  shows "\<exists>css. list_all2 job_script (Jobs st) css \<and> cmds_of (RestoreNomadState (traced client) st) w = concat css"
proof (cases "Jobs st = []")
  case True
  then show ?thesis by (intro exI[of _ "[]"]) (simp add: RestoreNomadState_def cmds_of_def trace_of_def)
next
  case False
  have eq: "RestoreNomadState c st =
      for_each (\<lambda>job u. do { _ \<leftarrow> restoreNomadJob c job; State_Monad.return () }) (Jobs st) ()" for c :: "('w \<times> trace) SSHRunner"
    using False by (simp add: RestoreNomadState_def)
  obtain css where css: "list_all2 job_script (Jobs st) css"
    "sends (\<lambda>w. map fst (snd w)) (for_each (\<lambda>job u. do { _ \<leftarrow> restoreNomadJob (traced client) job;
       State_Monad.return () }) (Jobs st) ()) (w, []) (concat css)"
    using traced.commands.jobs_send[of "Jobs st" client "(w, [])"] by (elim exE conjE) (rule that)
  show ?thesis by (rule exI, rule conjI[OF css(1)], rule cmds_of_sends[OF css(2)[folded eq]])
qed

text \<open>
  C36: Nomad counts as installed exactly when \<^verbatim>\<open>which\<close> and \<^verbatim>\<open>nomad version\<close> succeed and one of the
  two probes for a container runtime prints something, whether that probe succeeds or not: an
  error message is taken for a runtime.
\<close>

theorem ValidateNomadInstall_iff:
  "result_of (ValidateNomadInstall (traced client)) w = None \<longleftrightarrow>
   (\<exists>o1 o2 o3 e3 o4 e4. trace_of (ValidateNomadInstall (traced client)) w =
      [(''which nomad'', (o1, None)), (''nomad version'', (o2, None)),
       (''docker --version'', (o3, e3)), (''which containerd'', (o4, e4))] \<and> \<not> (o3 = [] \<and> o4 = []))"
proof -
  obtain o1 e1 w1 where 1: "run_state (Run client ''which nomad'') w = ((o1, e1), w1)" by (metis prod.exhaust)
  obtain o2 e2 w2 where 2: "run_state (Run client ''nomad version'') w1 = ((o2, e2), w2)" by (metis prod.exhaust)
  obtain o3 e3 w3 where 3: "run_state (Run client ''docker --version'') w2 = ((o3, e3), w3)" by (metis prod.exhaust)
  obtain o4 e4 w4 where 4: "run_state (Run client ''which containerd'') w3 = ((o4, e4), w4)" by (metis prod.exhaust)
  show ?thesis
    by (cases e1; cases e2)
      (auto simp: ValidateNomadInstall_def and_then_def check_def traced_def result_of_def trace_of_def 1 2 3 4)
qed

end
