(* ===== verification/Shell.thy ===== *)
theory Shell
  imports Go_Strings
begin

text \<open>
  A lexical reading of the commands that the program hands to the shell of a server, as far as it
  takes to tell whether a command only prints.  A command is scanned into simple commands, split
  at \<^verbatim>\<open>|\<close> (so also at \<^verbatim>\<open>||\<close>), and these into words; single quotes make every character an ordinary
  one.  A command that uses any other feature of the shell outside quotes, such as \<^verbatim>\<open>;\<close>, \<^verbatim>\<open>&\<close>, \<^verbatim>\<open>$\<close>, a
  pattern, a double quote, a line feed, is not read at all.  A redirection is part of a word here,
  and \<^verbatim>\<open>2>/dev/null\<close> is the only one that is accepted.
\<close>

subsection \<open>Words\<close>

definition shell_special :: "char list" where
  "shell_special = [CHR 0x00, CHR 0x09, CHR 0x0A, CHR 0x0D, CHR '' '', CHR 0x22, CHR 0x27, CHR 0x5C, CHR 0x60] @
     ''$&;()<>|*?[]{}#!''"

definition word_char :: "char \<Rightarrow> bool" where
  "word_char c \<longleftrightarrow> c \<notin> set shell_special"

text \<open>A name that stands for itself wherever it is put into a command.\<close>

definition plain_name :: "string \<Rightarrow> bool" where
  "plain_name name \<longleftrightarrow> list_all word_char name"

definition end_word :: "string \<Rightarrow> string list \<Rightarrow> string list" where
  "end_word w ws = (if w = [] then ws else ws @ [w])"

text \<open>The flag tells that the scanner is inside quotes; \<open>w\<close> is the word begun, \<open>ws\<close> are those before.\<close>

fun shell_scan :: "bool \<Rightarrow> string \<Rightarrow> string list \<Rightarrow> string \<Rightarrow> string list list option" where
  "shell_scan quoted w ws [] = (if quoted then None else Some [end_word w ws])"
| "shell_scan quoted w ws (c # cs) =
     (if quoted then (if c = CHR 0x27 then shell_scan False w ws cs else shell_scan True (w @ [c]) ws cs)
      else if c = CHR 0x27 then shell_scan True w ws cs
      else if c = CHR '' '' then shell_scan False [] (end_word w ws) cs
      else if c = CHR ''|'' then map_option (\<lambda>rest. end_word w ws # rest) (shell_scan False [] [] cs)
      else if c = CHR ''>'' \<or> word_char c then shell_scan False (w @ [c]) ws cs
      else None)"

lemma scan_plain: "plain_name n \<Longrightarrow> shell_scan False w ws (n @ rest) = shell_scan False (w @ n) ws rest"
proof (induction n arbitrary: w)
  case (Cons c n)
  have "word_char c" "plain_name n" using Cons.prems by (simp_all add: plain_name_def)
  moreover from this(1) have "c \<noteq> CHR 0x27" "c \<noteq> CHR '' ''" "c \<noteq> CHR ''|''"
    by (auto simp: word_char_def shell_special_def)
  ultimately show ?case using Cons.IH[of "w @ [c]"] by simp
qed simp

lemma plain_append [simp]: "plain_name (a @ b) \<longleftrightarrow> plain_name a \<and> plain_name b"
  by (simp add: plain_name_def)

subsection \<open>Commands that print\<close>

text \<open>
  Programs that only print, with whatever arguments, and commands of programs that can do more:
  these with their first words, and those of which every word counts.
\<close>

definition printing_commands :: "string list list" where
  "printing_commands =
     [[''cat''], [''ls''], [''tail''], [''grep''], [''cut''], [''echo''], [''free''], [''which''],
      [''docker'', ''--version''], [''docker'', ''ps''], [''docker'', ''inspect''], [''docker'', ''images''],
      [''docker'', ''volume'', ''ls''], [''nomad'', ''version''], [''nomad'', ''job'', ''list''],
      [''nomad'', ''job'', ''inspect'']]"

definition exact_commands :: "string list list" where
  "exact_commands = [[], [''hostname''], [''awk'', ''{print $NF}''], [''awk'', ''NR==2 {print $2}'']]"

text \<open>An archive of a directory to the standard output.\<close>

definition archives :: "string list \<Rightarrow> bool" where
  "archives ws \<longleftrightarrow> length ws = 6 \<and> take 4 ws = [''tar'', ''czf'', ''-'', ''-C''] \<and> ws ! 5 = ''.''"

definition without_sudo :: "string list \<Rightarrow> string list" where
  "without_sudo ws =
     (if prefix [''sudo'', ''-u'', ''root''] ws then drop 3 ws else if prefix [''sudo''] ws then drop 1 ws else ws)"

definition prints :: "string list \<Rightarrow> bool" where
  "prints ws \<longleftrightarrow>
     (let args = without_sudo (filter (\<lambda>w. w \<noteq> ''2>/dev/null'') ws)
      in list_all (\<lambda>w. CHR ''>'' \<notin> set w) args \<and>
         (list_ex (\<lambda>p. prefix p args) printing_commands \<or> args \<in> set exact_commands \<or> archives args))"

definition reads_only :: "string \<Rightarrow> bool" where
  "reads_only cmd \<longleftrightarrow> (case shell_scan False [] [] cmd of None \<Rightarrow> False | Some cs \<Rightarrow> list_all prints cs)"

lemma plain_no_redirect: "plain_name n \<Longrightarrow> CHR ''>'' \<notin> set n"
  by (auto simp: plain_name_def word_char_def shell_special_def list_all_iff)

text \<open>What the check is for: none of these passes.\<close>

lemma writing_commands_fail:
  "\<not> reads_only ''cat > /etc/x''" "\<not> reads_only ''docker inspect x; rm -rf /''" "\<not> reads_only ''cat /etc/x | tee /etc/y''"
  "\<not> reads_only ''cat $(reboot)''" "\<not> reads_only ''nomad job run x''" "\<not> reads_only ''cat a && rm a''"
  "\<not> reads_only ''hostname x''" "\<not> reads_only ''tar czf /etc/x -C /etc .''" "\<not> reads_only ''rm -f x''"
  by code_simp+

lemma plain_no_null: "plain_name n \<Longrightarrow> n \<noteq> ''2>/dev/null''"
  by (auto simp: plain_name_def word_char_def shell_special_def)

text \<open>Scanning a literal text with plain names in it, and judging the words.\<close>

lemmas scan_simps = word_char_def shell_special_def scan_plain end_word_def

lemmas print_simps = prints_def without_sudo_def archives_def printing_commands_def exact_commands_def
  plain_no_redirect plain_no_null end_word_def

lemma reads_only_scan: "shell_scan False [] [] cmd = Some cs \<Longrightarrow> list_all prints cs \<Longrightarrow> reads_only cmd"
  by (simp add: reads_only_def)

end
