(* ===== verification/Extractor.thy ===== *)
theory Extractor
  imports Config Certs Databases Restore Docker Nomad_Jobs Shell
begin

text \<open>
  \<^verbatim>\<open>internal/extractor/extractor.go\<close>: the state of a whole server, its extraction, its validation
  and its restoration.  The clock is an argument, and so are the orders in which Go ranges over
  its maps: \<open>ord\<close> for maps that come from JSON, \<open>cfgs\<close> for the table of configuration files; the
  maps of the state are met in the order of their lists.
\<close>

record SystemState =
  st_Hostname :: string
  st_Location :: Location
  st_Role :: Role
  st_Timestamp :: int
  SystemInfo :: "string gomap"
  Certificates :: "bytes gomap"
  Databases :: "bytes gomap"
  Configs :: "bytes gomap"
  SSHPublicKeys :: "bytes gomap"
  st_Docker :: "DockerState option"
  st_Nomad :: "NomadState option"

subsection \<open>The parts\<close>

definition info_items :: "(string \<times> string) list" where
  "info_items =
     [(''os_version'', ''cat /etc/os-release | grep PRETTY_NAME | cut -d'' @ SQ @ ''='' @ SQ @ '' -f2''),
      (''hostname'', ''hostname''),
      (''docker_version'', ''docker --version 2>/dev/null || echo 'not installed'' @ SQ),
      (''total_memory'', ''free -h | awk 'NR==2 {print $2}'' @ SQ)]"

definition extractSystemInfo :: "'w SSHRunner \<Rightarrow> SystemState \<Rightarrow> ('w, SystemState) state" where
  "extractSystemInfo client st =
     for_each (\<lambda>item st. do {
       (out, err) \<leftarrow> Run client (snd item);
       State_Monad.return
         (if err = None then st\<lparr>SystemInfo := map_put (fst item) out (SystemInfo st)\<rparr> else st) })
       info_items st"

definition extractCertificates :: "'w SSHRunner \<Rightarrow> SystemState \<Rightarrow> ('w, SystemState) state" where
  "extractCertificates client st = do {
     certs \<leftarrow> ExtractCertificates client;
     xrayConfig \<leftarrow> ExtractXrayConfig client;
     (let st1 = st\<lparr>Certificates := certs\<rparr>
      in State_Monad.return
        (case xrayConfig of
           Some c \<Rightarrow> if length c > 0 then st1\<lparr>Configs := map_put ''xray.json'' c (Configs st1)\<rparr> else st1
         | None \<Rightarrow> st1)) }"

definition db_paths :: "string list" where
  "db_paths =
     [''/opt/3x-ui/db/x-ui.db'', ''/opt/x-ui/db/x-ui.db'', ''/app/db/x-ui.db'', ''/var/lib/xui/x-ui.db'']"

definition extractDatabases :: "'w SSHRunner \<Rightarrow> SystemState \<Rightarrow> ('w, SystemState) state" where
  "extractDatabases client st = do {
     dbs \<leftarrow> collect (ExtractDatabase client) Base db_paths (Databases st);
     State_Monad.return (st\<lparr>Databases := dbs\<rparr>) }"

text \<open>A file of which the server is asked for the content, or else the text \<^verbatim>\<open>[NOT_FOUND]\<close>.\<close>

definition config_cmd :: "string \<Rightarrow> string" where
  "config_cmd path = ''sudo cat '' @ path @ '' 2>/dev/null || echo '[NOT_FOUND]'' @ SQ"

definition configPaths :: "string gomap" where
  "configPaths =
     [(''docker_config'', ''/etc/docker/daemon.json''), (''nomad_config'', ''/etc/nomad.d/nomad.hcl''),
      (''fail2ban_config'', ''/etc/fail2ban/jail.local''), (''ufw_rules'', ''/etc/ufw/rules.v4'')]"

definition keep_reply :: "string \<Rightarrow> reply \<Rightarrow> bytes gomap \<Rightarrow> bytes gomap" where
  "keep_reply name r m =
     (if snd r = None \<and> fst r \<noteq> ''[NOT_FOUND]'' then map_put name (fst r) m else m)"

definition extractConfigs :: "string gomap \<Rightarrow> 'w SSHRunner \<Rightarrow> SystemState \<Rightarrow> ('w, SystemState) state" where
  "extractConfigs cfgs client st =
     for_each (\<lambda>entry st. do {
       r \<leftarrow> Run client (config_cmd (snd entry));
       State_Monad.return (st\<lparr>Configs := keep_reply (fst entry) r (Configs st)\<rparr>) })
       cfgs st"

definition ssh_keys :: "(string \<times> string) list" where
  "ssh_keys =
     [(''root_authorized'', ''sudo cat /root/.ssh/authorized_keys 2>/dev/null || echo '[NOT_FOUND]'' @ SQ),
      (''user_pubkey'', ''cat ~/.ssh/id_rsa.pub 2>/dev/null || echo '[NOT_FOUND]'' @ SQ)]"

definition extractSSHKeys :: "'w SSHRunner \<Rightarrow> SystemState \<Rightarrow> ('w, SystemState) state" where
  "extractSSHKeys client st =
     for_each (\<lambda>k st. do {
       r \<leftarrow> Run client (snd k);
       State_Monad.return (st\<lparr>SSHPublicKeys := keep_reply (fst k) r (SSHPublicKeys st)\<rparr>) })
       ssh_keys st"

definition extractDockerState ::
  "(json gomap \<Rightarrow> json gomap) \<Rightarrow> 'w SSHRunner \<Rightarrow> SystemState \<Rightarrow> ('w, SystemState) state"
where
  "extractDockerState ord client st = do {
     dockerState \<leftarrow> ExtractDockerState ord client;
     State_Monad.return (st\<lparr>st_Docker := Some dockerState\<rparr>) }"

definition extractNomadState ::
  "(json gomap \<Rightarrow> json gomap) \<Rightarrow> 'w SSHRunner \<Rightarrow> SystemState \<Rightarrow> ('w, SystemState) state"
where
  "extractNomadState ord client st = do {
     nomadState \<leftarrow> ExtractNomadState ord client;
     State_Monad.return (st\<lparr>st_Nomad := Some nomadState\<rparr>) }"

subsection \<open>The whole extraction\<close>

definition initial_state :: "int \<Rightarrow> NodeManifest \<Rightarrow> SystemState" where
  "initial_state now manifest =
     \<lparr>st_Hostname = node_Hostname (Node manifest), st_Location = node_Location (Node manifest),
      st_Role = node_Role (Node manifest), st_Timestamp = now, SystemInfo = [], Certificates = [],
      Databases = [], Configs = [], SSHPublicKeys = [], st_Docker = Some no_docker, st_Nomad = Some no_nomad\<rparr>"

text \<open>No part ever reports an error, so the error beside the state is always nil.\<close>

definition ExtractSystemState ::
  "(json gomap \<Rightarrow> json gomap) \<Rightarrow> string gomap \<Rightarrow> int \<Rightarrow> 'w SSHRunner \<Rightarrow> NodeManifest \<Rightarrow> ('w, SystemState) state"
where
  "ExtractSystemState ord cfgs now client manifest = do {
     s1 \<leftarrow> extractSystemInfo client (initial_state now manifest);
     s2 \<leftarrow> extractCertificates client s1;
     s3 \<leftarrow> extractDatabases client s2;
     s4 \<leftarrow> extractConfigs cfgs client s3;
     s5 \<leftarrow> extractSSHKeys client s4;
     s6 \<leftarrow> extractDockerState ord client s5;
     extractNomadState ord client s6 }"

text \<open>\<^verbatim>\<open>ValidateState\<close>: missing databases or certificates only give warnings.\<close>

datatype state_error = HostnameEmpty

definition ValidateState :: "SystemState \<Rightarrow> state_error option" where
  "ValidateState st = (if st_Hostname st = [] then Some HostnameEmpty else None)"

subsection \<open>Restoring\<close>

definition database_step :: "'w SSHRunner \<Rightarrow> string \<times> bytes \<Rightarrow> unit \<Rightarrow> ('w, unit) state" where
  "database_step client entry u = do {
     _ \<leftarrow> restoreBytesIfChanged client (''/opt/3x-ui/db/'' @ fst entry) (snd entry) True;
     State_Monad.return () }"

definition certificate_step :: "'w SSHRunner \<Rightarrow> string \<times> bytes \<Rightarrow> unit \<Rightarrow> ('w, unit) state" where
  "certificate_step client entry u =
     (let path = certificateRestorePath (fst entry)
      in if path = [] then State_Monad.return ()
         else do {
           _ \<leftarrow> restoreBytesIfChanged client path (snd entry) True;
           State_Monad.return () })"

definition config_step :: "'w SSHRunner \<Rightarrow> string \<times> bytes \<Rightarrow> unit \<Rightarrow> ('w, unit) state" where
  "config_step client entry u =
     (if fst entry = ''xray.json'' then do {
        _ \<leftarrow> restoreBytesIfChanged client ''/etc/x-ui/xray.json'' (snd entry) True;
        State_Monad.return () }
      else State_Monad.return ())"

text \<open>Every failure is only logged; the error is always nil.\<close>

definition RestoreSystemState :: "'w SSHRunner \<Rightarrow> SystemState \<Rightarrow> ('w, unit) state" where
  "RestoreSystemState client st = do {
     _ \<leftarrow> (if Databases st \<noteq> [] then for_each (database_step client) (Databases st) ()
          else State_Monad.return ());
     _ \<leftarrow> (if Certificates st \<noteq> [] then for_each (certificate_step client) (Certificates st) ()
          else State_Monad.return ());
     _ \<leftarrow> (if Configs st \<noteq> [] then for_each (config_step client) (Configs st) ()
          else State_Monad.return ());
     _ \<leftarrow> (case st_Docker st of
            Some d \<Rightarrow> if ds_Containers d \<noteq> [] then RestoreDockerState client d else State_Monad.return ()
          | None \<Rightarrow> State_Monad.return ());
     (case st_Nomad st of
        Some n \<Rightarrow> if Jobs n \<noteq> [] then RestoreNomadState client n else State_Monad.return ()
      | None \<Rightarrow> State_Monad.return ()) }"

subsection \<open>Extraction only reads\<close>

text \<open>
  The commands into which an extraction puts a name that it has from the server: the identifier of
  a container or of a job, the name of a volume or of a domain.  None of them quotes the name.
\<close>

definition name_commands :: "string \<Rightarrow> string list" where
  "name_commands name =
     [inspect_cmd name, tar_cmd name, job_inspect_cmd name] @
     map (\<lambda>f. cat_cmd (live_path name f)) cert_files @ map (\<lambda>f. sudo_cat_cmd (live_path name f)) cert_files"

definition reading_cmd :: "string \<Rightarrow> bool" where
  "reading_cmd c \<longleftrightarrow> reads_only c \<or> (\<exists>name. \<not> plain_name name \<and> c \<in> set (name_commands name))"

lemma scans:
  assumes "plain_name p"
  shows "shell_scan False [] [] (cat_cmd p) = Some [end_word p [''cat''] @ [''2>/dev/null'']]"
    "shell_scan False [] [] (sudo_cat_cmd p) = Some [end_word p [''sudo'', ''cat''] @ [''2>/dev/null'']]"
    "shell_scan False [] [] (root_cat_cmd p) =
       Some [end_word p [''sudo'', ''-u'', ''root'', ''cat''] @ [''2>/dev/null''], [],
             end_word p [''sudo'', ''cat''] @ [''2>/dev/null'']]"
    "shell_scan False [] [] (config_cmd p) =
       Some [end_word p [''sudo'', ''cat''] @ [''2>/dev/null''], [], [''echo'', ''[NOT_FOUND]'']]"
    "shell_scan False [] [] (inspect_cmd p) = Some [end_word p [''docker'', ''inspect'']]"
    "shell_scan False [] [] (job_inspect_cmd p) =
       Some [end_word p [''nomad'', ''job'', ''inspect''] @ [''-json'', ''2>/dev/null'']]"
    "shell_scan False [] [] (tar_cmd p) =
       Some [[''tar'', ''czf'', ''-'', ''-C'', ''/var/lib/docker/volumes/'' @ p, ''.'', ''2>/dev/null'']]"
  unfolding cat_cmd_def sudo_cat_cmd_def root_cat_cmd_def config_cmd_def inspect_cmd_def job_inspect_cmd_def tar_cmd_def
  by (simp_all add: scan_simps assms scan_plain[OF assms, of _ _ "[]", simplified])

lemma prints_names:
  assumes "plain_name p"
  shows "prints (end_word p [''cat''] @ [''2>/dev/null''])" "prints (end_word p [''sudo'', ''cat''] @ [''2>/dev/null''])"
    "prints (end_word p [''sudo'', ''-u'', ''root'', ''cat''] @ [''2>/dev/null''])" "prints []"
    "prints [''echo'', ''[NOT_FOUND]'']" "prints (end_word p [''docker'', ''inspect''])"
    "prints (end_word p [''nomad'', ''job'', ''inspect''] @ [''-json'', ''2>/dev/null''])"
    "prints [''tar'', ''czf'', ''-'', ''-C'', ''/var/lib/docker/volumes/'' @ p, ''.'', ''2>/dev/null'']"
  using assms by (simp_all add: print_simps)

lemma name_reads_only:
  assumes "plain_name p"
  shows "reads_only (cat_cmd p)" "reads_only (sudo_cat_cmd p)" "reads_only (root_cat_cmd p)" "reads_only (config_cmd p)"
    "reads_only (inspect_cmd p)" "reads_only (job_inspect_cmd p)" "reads_only (tar_cmd p)"
  by (rule scans[OF assms, THEN reads_only_scan], simp only: list.pred_inject prints_names[OF assms] simp_thms)+

lemma plain_tables:
  "list_all plain_name (db_paths @ xray_paths @ compose_paths)" "list_all (\<lambda>e. plain_name (snd e)) configPaths"
  "list_all plain_name cert_files" "plain_name ''/etc/letsencrypt/live/''" "plain_name ''/''"
  by code_simp+

lemma plain_paths_of_tables:
  "p \<in> set db_paths \<Longrightarrow> plain_name p" "p \<in> set xray_paths \<Longrightarrow> plain_name p" "p \<in> set compose_paths \<Longrightarrow> plain_name p"
  "e \<in> set configPaths \<Longrightarrow> plain_name (snd e)"
  using plain_tables(1,2) unfolding list_all_append by (auto simp: list_all_iff)

lemma plain_live_path: "f \<in> set cert_files \<Longrightarrow> plain_name name \<Longrightarrow> plain_name (live_path name f)"
  using plain_tables(3) by (simp only: live_path_def plain_append plain_tables(4,5) list_all_iff)

lemma reading_cmd_fixed [simp]:
  "reading_cmd list_domains_cmd" "reading_cmd ps_cmd" "reading_cmd images_cmd" "reading_cmd volumes_cmd" "reading_cmd job_list_cmd"
  "reading_cmd ''which nomad''" "reading_cmd ''nomad version''" "reading_cmd ''docker --version''" "reading_cmd ''which containerd''"
  unfolding reading_cmd_def by (rule disjI1, code_simp)+

lemma reading_cmd_tables: "item \<in> set info_items \<Longrightarrow> reading_cmd (snd item)" "k \<in> set ssh_keys \<Longrightarrow> reading_cmd (snd k)"
proof -
  have "list_all (\<lambda>e. reads_only (snd e)) (info_items @ ssh_keys)" by code_simp
  then show "item \<in> set info_items \<Longrightarrow> reading_cmd (snd item)" "k \<in> set ssh_keys \<Longrightarrow> reading_cmd (snd k)"
    by (simp_all add: reading_cmd_def list_all_iff)
qed

lemma reading_cmd_names [simp]:
  "reading_cmd (inspect_cmd name)" "reading_cmd (tar_cmd name)" "reading_cmd (job_inspect_cmd name)"
  "f \<in> set cert_files \<Longrightarrow> reading_cmd (cat_cmd (live_path name f))"
  "f \<in> set cert_files \<Longrightarrow> reading_cmd (sudo_cat_cmd (live_path name f))"
  by (cases "plain_name name";
      force simp: reading_cmd_def name_commands_def name_reads_only plain_live_path)+

lemma reading_cmd_paths [simp]:
  "plain_name p \<Longrightarrow> reading_cmd (cat_cmd p)" "plain_name p \<Longrightarrow> reading_cmd (sudo_cat_cmd p)"
  "plain_name p \<Longrightarrow> reading_cmd (root_cat_cmd p)" "plain_name p \<Longrightarrow> reading_cmd (config_cmd p)"
  by (simp_all add: reading_cmd_def name_reads_only)

context reply_log
begin

abbreviation reading :: "('w, 'a) state \<Rightarrow> bool" where
  "reading \<equiv> policy rlog (\<lambda>e. reading_cmd (fst e))"

lemma read_policies:
  "reading_cmd (cat_cmd p) \<Longrightarrow> reading_cmd (sudo_cat_cmd p) \<Longrightarrow> reading (readRemoteFile client p)"
  "plain_name p \<Longrightarrow> reading (ExtractDatabase client p)"
  unfolding readRemoteFile_def ExtractDatabase_def read_attempt_def
  by (intro policy_intros; auto intro!: policy_intros)+

lemma domain_files_policy:
  "set files \<subseteq> set cert_files \<Longrightarrow> reading (domain_files client domain files certs)"
  by (induction files arbitrary: certs) (auto intro!: policy_intros read_policies)

lemma certificates_policy: "reading (extractCertificates client st)"
  unfolding extractCertificates_def ExtractCertificates_def ExtractXrayConfig_def domain_step_def Let_def
  by (intro policy_intros domain_files_policy read_policies) (auto simp: plain_paths_of_tables)

lemma docker_policy: "reading (extractDockerState ord client st)"
  unfolding extractDockerState_def ExtractDockerState_def extractContainers_def container_step_def
    extractFullContainerConfig_def extractImages_def extractVolumes_def extractVolumeData_def volume_step_def
    extractDockerCompose_def cat_cmd_def[symmetric] Let_def
  by (intro policy_intros) (auto simp: plain_paths_of_tables)

lemma nomad_policy: "reading (extractNomadState ord client st)"
  unfolding extractNomadState_def ExtractNomadState_def ValidateNomadInstall_def extractNomadJobs_def
    job_step_def extractNomadJobDetails_def Let_def
  by (intro policy_intros) auto

lemma tables_policy:
  "reading (extractSystemInfo client st)" "reading (extractDatabases client st)" "reading (extractSSHKeys client st)"
  unfolding extractSystemInfo_def extractDatabases_def extractSSHKeys_def collect_def
  by (intro policy_intros read_policies; simp add: plain_paths_of_tables reading_cmd_tables)+

lemma configs_policy:
  "(\<And>e. e \<in> set cfgs \<Longrightarrow> plain_name (snd e)) \<Longrightarrow> reading (extractConfigs cfgs client st)"
  "policy rlog (\<lambda>_. True) (extractConfigs cfgs client st)"
  unfolding extractConfigs_def by (intro policy_intros; simp)+

lemma extraction_policy:
  assumes "set cfgs = set configPaths"
  shows "reading (ExtractSystemState ord cfgs now client manifest)"
  unfolding ExtractSystemState_def
  by (intro policy_bind tables_policy certificates_policy docker_policy nomad_policy configs_policy)
    (simp add: assms plain_paths_of_tables)

end

subsection \<open>What the parts leave alone\<close>

lemma extractConfigs_keeps:
  assumes "run_state (extractConfigs cfgs client st) w = (st', w')"
  shows "Databases st' = Databases st" "st_Hostname st' = st_Hostname st" "SSHPublicKeys st' = SSHPublicKeys st"
  by (rule for_each_run_inv[where I = "\<lambda>s w. Databases s = Databases st", OF assms[unfolded extractConfigs_def]] 
      for_each_run_inv[where I = "\<lambda>s w. st_Hostname s = st_Hostname st", OF assms[unfolded extractConfigs_def]]
      for_each_run_inv[where I = "\<lambda>s w. SSHPublicKeys s = SSHPublicKeys st", OF assms[unfolded extractConfigs_def]];
      force split: prod.splits)+

lemma extractSSHKeys_keeps:
  assumes "run_state (extractSSHKeys client st) w = (st', w')"
  shows "Databases st' = Databases st" "st_Hostname st' = st_Hostname st" "Configs st' = Configs st"
  by (rule for_each_run_inv[where I = "\<lambda>s w. Databases s = Databases st", OF assms[unfolded extractSSHKeys_def]] 
      for_each_run_inv[where I = "\<lambda>s w. st_Hostname s = st_Hostname st", OF assms[unfolded extractSSHKeys_def]]
      for_each_run_inv[where I = "\<lambda>s w. Configs s = Configs st", OF assms[unfolded extractSSHKeys_def]];
      force split: prod.splits)+

lemma extractSystemInfo_keeps:
  assumes "run_state (extractSystemInfo client st) w = (st', w')"
  shows "Databases st' = Databases st" "st_Hostname st' = st_Hostname st"
  by (rule for_each_run_inv[where I = "\<lambda>s w. Databases s = Databases st", OF assms[unfolded extractSystemInfo_def]] 
      for_each_run_inv[where I = "\<lambda>s w. st_Hostname s = st_Hostname st", OF assms[unfolded extractSystemInfo_def]];
      force split: prod.splits if_splits)+

lemma other_parts_keep:
  "run_state (extractCertificates client st) w = (st', w') \<Longrightarrow> Databases st' = Databases st \<and> st_Hostname st' = st_Hostname st"
  "run_state (extractDatabases client st) w = (st', w') \<Longrightarrow> st_Hostname st' = st_Hostname st"
  "run_state (extractDockerState ord client st) w = (st', w') \<Longrightarrow> Databases st' = Databases st \<and> st_Hostname st' = st_Hostname st"
  "run_state (extractNomadState ord client st) w = (st', w') \<Longrightarrow> Databases st' = Databases st \<and> st_Hostname st' = st_Hostname st"
  by (auto simp: extractCertificates_def extractDatabases_def extractDockerState_def extractNomadState_def Let_def
      split: prod.splits option.splits if_splits)

text \<open>The parts of an extraction, one after the other.\<close>

lemma ExtractSystemState_parts:
  assumes "run_state (ExtractSystemState ord cfgs now client manifest) w = (st, w')"
  obtains s1 w1 s2 w2 s3 w3 s4 w4 s5 w5 s6 w6 where
    "run_state (extractSystemInfo client (initial_state now manifest)) w = (s1, w1)"
    "run_state (extractCertificates client s1) w1 = (s2, w2)" "run_state (extractDatabases client s2) w2 = (s3, w3)"
    "run_state (extractConfigs cfgs client s3) w3 = (s4, w4)" "run_state (extractSSHKeys client s4) w4 = (s5, w5)"
    "run_state (extractDockerState ord client s5) w5 = (s6, w6)" "run_state (extractNomadState ord client s6) w6 = (st, w')"
  using assms by (auto simp: ExtractSystemState_def split: prod.splits)

lemma extracted_hostname:
  "run_state (ExtractSystemState ord cfgs now client manifest) w = (st, w') \<Longrightarrow> st_Hostname st = node_Hostname (Node manifest)"
  by (erule ExtractSystemState_parts)
    (simp add: extractSystemInfo_keeps extractConfigs_keeps extractSSHKeys_keeps other_parts_keep initial_state_def)

subsection \<open>One database\<close>

lemma db_paths_Base: "p \<in> set db_paths \<Longrightarrow> Base p = ''x-ui.db''"
  by (auto simp: db_paths_def) code_simp+

definition one_database :: "bytes gomap \<Rightarrow> ('w \<times> trace) \<Rightarrow> bool" where
  "one_database m x \<longleftrightarrow>
     m = [] \<or> (\<exists>p \<in> set db_paths. \<exists>d. m = [(''x-ui.db'', d)] \<and> database_reader.came_from x p d)"

lemma one_database_mono:
  fixes x x' :: "'w \<times> trace"
  assumes "one_database m x" "snd x' = snd x @ es"
  shows "one_database m x'"
proof (cases "m = []")
  case False
  then obtain p d where p: "p \<in> set db_paths" "m = [(''x-ui.db'', d)]" "database_reader.came_from x p d"
    using assms(1) unfolding one_database_def by (elim disjE bexE exE conjE) (simp, rule that)
  have "database_reader.came_from x' p d" using p(3) assms(2) by (rule database_reader.came_from_mono)
  then show ?thesis unfolding one_database_def using p(1,2) by (intro disjI2 bexI[of _ p] exI[of _ d] conjI)
qed (simp add: one_database_def)

lemma one_database_put:
  fixes x :: "'w \<times> trace"
  assumes "one_database m x" "p \<in> set db_paths" "database_reader.came_from x p d"
  shows "one_database (map_put (Base p) d m) x"
proof -
  have "map_put (Base p) d m = [(''x-ui.db'', d)]"
    using assms(1) db_paths_Base[OF assms(2)] unfolding one_database_def
    by (elim disjE bexE exE conjE) (simp_all add: map_put_def)
  then show ?thesis unfolding one_database_def using assms(2,3) by (intro disjI2 bexI[of _ p] exI[of _ d] conjI)
qed

lemma extractDatabases_one:
  fixes client :: "'w SSHRunner" and x x' :: "'w \<times> trace"
  assumes "run_state (extractDatabases (traced client) st) x = (st', x')" "one_database (Databases st) x"
  shows "one_database (Databases st') x'"
proof -
  obtain m y where m: "run_state (collect (ExtractDatabase (traced client)) Base db_paths (Databases st)) x = (m, y)"
    by (metis prod.exhaust)
  have "one_database m y"
    by (rule database_reader.collect_inv[where I = one_database, OF assms(2) _ _ m])
      (rule one_database_mono one_database_put; assumption)+
  then show ?thesis using assms(1) m by (auto simp: extractDatabases_def)
qed

lemma policy_extends:
  assumes "policy log P m" "run_state m w = (a, w')"
  shows "\<exists>es. log w' = log w @ es"
  using policyD[OF assms(1), of w] assms(2) by (auto simp: sends_def)

lemma extracted_databases:
  fixes client :: "'w SSHRunner"
  assumes "run_state (ExtractSystemState ord cfgs now (traced client) manifest) (w, []) = (st, x)"
  shows "one_database (Databases st) x"
proof (rule ExtractSystemState_parts[OF assms])
  fix s1 s2 s3 s4 s5 s6 :: SystemState and w1 w2 w3 w4 w5 w6 :: "'w \<times> trace"
  assume a: "run_state (extractSystemInfo (traced client) (initial_state now manifest)) (w, []) = (s1, w1)"
    "run_state (extractCertificates (traced client) s1) w1 = (s2, w2)"
    "run_state (extractDatabases (traced client) s2) w2 = (s3, w3)"
    "run_state (extractConfigs cfgs (traced client) s3) w3 = (s4, w4)"
    "run_state (extractSSHKeys (traced client) s4) w4 = (s5, w5)"
    "run_state (extractDockerState ord (traced client) s5) w5 = (s6, w6)"
    "run_state (extractNomadState ord (traced client) s6) w6 = (st, x)"
  have "Databases s2 = []"
    using extractSystemInfo_keeps[OF a(1)] other_parts_keep(1)[OF a(2)] by (simp add: initial_state_def)
  then have "one_database (Databases s3) w3"
    by (intro extractDatabases_one[OF a(3)]) (simp add: one_database_def)
  moreover obtain es4 es5 es6 es7 where "snd w4 = snd w3 @ es4" "snd w5 = snd w4 @ es5" "snd w6 = snd w5 @ es6"
    "snd x = snd w6 @ es7"
    using policy_extends[OF traced.configs_policy(2) a(4)] policy_extends[OF traced.tables_policy(3) a(5)]
      policy_extends[OF traced.docker_policy a(6)] policy_extends[OF traced.nomad_policy a(7)]
    by (elim exE) (rule that)
  moreover have "Databases st = Databases s3"
    using extractConfigs_keeps[OF a(4)] extractSSHKeys_keeps[OF a(5)] other_parts_keep(3)[OF a(6)]
      other_parts_keep(4)[OF a(7)] by simp
  ultimately show ?thesis using one_database_mono[of "Databases s3" w3 x "es4 @ es5 @ es6 @ es7"] by simp
qed

subsection \<open>Replies that are kept\<close>

definition kept :: "reply \<Rightarrow> bytes option \<Rightarrow> bytes option" where
  "kept r old = (if snd r = None \<and> fst r \<noteq> ''[NOT_FOUND]'' then Some (fst r) else old)"

context reply_log
begin

text \<open>A loop that asks one command per name and keeps the replies under the names.\<close>

lemma keep_loop:
  assumes "run_state (for_each (\<lambda>e m. do { r \<leftarrow> Run client (cmd e); State_Monad.return (keep_reply (fst e) r m) }) es m) w = (m', w')"
    and "distinct (map fst es)"
  shows "(\<exists>new. rlog w' = rlog w @ new) \<and> (\<forall>k. k \<notin> set (map fst es) \<longrightarrow> map_of m' k = map_of m k) \<and>
   (\<forall>e \<in> set es. \<exists>r. (cmd e, r) \<in> set (rlog w') \<and> map_of m' (fst e) = kept r (map_of m (fst e)))"
  using assms
proof (induction es arbitrary: m w)
  case Nil
  then show ?case by simp
next
  case (Cons e es)
  obtain r w1 where r: "run_state (Run client (cmd e)) w = (r, w1)" by (metis prod.exhaust)
  have log: "rlog w1 = rlog w @ [(cmd e, r)]" using rlog_Run[of "cmd e" w] r by simp
  let ?m = "keep_reply (fst e) r m"
  have "run_state (for_each (\<lambda>e m. do { r \<leftarrow> Run client (cmd e); State_Monad.return (keep_reply (fst e) r m) }) es ?m) w1 = (m', w')"
    using Cons.prems(1) r by simp
  note IH = Cons.IH[OF this]
  have m: "map_of ?m k = (if k = fst e then kept r (map_of m k) else map_of m k)" for k
    by (simp add: keep_reply_def kept_def)
  obtain new where new: "rlog w' = rlog w1 @ new" using IH Cons.prems(2) by auto
  have other: "map_of m' k = map_of ?m k" if "k \<notin> set (map fst es)" for k using IH Cons.prems(2) that by simp
  have "\<exists>r. (cmd d, r) \<in> set (rlog w') \<and> map_of m' (fst d) = kept r (map_of m (fst d))" if "d \<in> set (e # es)" for d
  proof (cases "d = e")
    case True
    then show ?thesis using new log other[of "fst e"] m[of "fst e"] Cons.prems(2) by (intro exI[of _ r]) simp
  next
    case False
    then have d: "d \<in> set es" using that by simp
    then have "fst d \<in> set (map fst es)" by simp
    moreover have "fst e \<notin> set (map fst es)" using Cons.prems(2) by simp
    ultimately have ne: "fst d \<noteq> fst e" by metis
    have "\<exists>r. (cmd d, r) \<in> set (rlog w') \<and> map_of m' (fst d) = kept r (map_of ?m (fst d))"
      using IH Cons.prems(2) d by simp
    then show ?thesis using m[of "fst d"] ne by simp
  qed
  moreover have "map_of m' k = map_of m k" if "k \<notin> set (map fst (e # es))" for k
    using other[of k] m[of k] that by simp
  moreover have "\<exists>new. rlog w' = rlog w @ new" using new log by simp
  ultimately show ?case by blast
qed

end

lemma extractConfigs_loop:
  "run_state (extractConfigs cfgs client st) w =
   (let (m, w') = run_state (for_each (\<lambda>e m. do { r \<leftarrow> Run client (config_cmd (snd e)); State_Monad.return (keep_reply (fst e) r m) }) cfgs (Configs st)) w
    in (st\<lparr>Configs := m\<rparr>, w'))"
  by (induction cfgs arbitrary: st w) (auto simp: extractConfigs_def split: prod.splits)

lemma configPaths_distinct: "distinct (map fst configPaths)"
  by (simp add: configPaths_def)

subsection \<open>Properties of the extraction\<close>

text \<open>
  C11: extraction only reads the server, as far as the text of its commands can tell: whatever the
  server answers, every command only prints (a pipeline of programs that print, without a
  redirection but that of the errors to \<^verbatim>\<open>/dev/null\<close>), or it is one of the commands that hold a name
  the server gave, and this name has a character that is special to the shell.  Names are put into
  those commands as they are, so in the second case there is no telling what the command does.
\<close>

theorem ExtractSystemState_reads_only:
  assumes "set cfgs = set configPaths"
    and "c \<in> set (cmds_of (ExtractSystemState ord cfgs now (traced client) manifest) w)"
  shows "reads_only c \<or> (\<exists>name. \<not> plain_name name \<and> c \<in> set (name_commands name))"
proof -
  have "list_all reading_cmd (cmds_of (ExtractSystemState ord cfgs now (traced client) manifest) w)"
    by (rule policy_cmds_of) (rule traced.extraction_policy[OF assms(1)])
  then show ?thesis using assms(2) by (simp add: list_all_iff reading_cmd_def)
qed

text \<open>
  C18: at most one database is extracted: the four standard paths have the same base name, so the
  databases of the state are empty or the single entry \<^verbatim>\<open>x-ui.db\<close>, with the content the server
  sent, without error, to a command that read one of the four paths.
\<close>

theorem extracted_database_is_one:
  assumes "run_state (ExtractSystemState ord cfgs now (traced client) manifest) (w, []) = (st, (w', tr))"
    and "Databases st \<noteq> []"
  shows "\<exists>p \<in> set db_paths. \<exists>d. Databases st = [(''x-ui.db'', d)] \<and> d \<noteq> [] \<and>
    (\<exists>c \<in> set (database_cmds p). (c, (d, None)) \<in> set tr)"
  using extracted_databases[OF assms(1)] assms(2) by (auto simp: one_database_def database_reader.came_from_def)

text \<open>
  C20: a configuration file is kept exactly when the reply is not an error and not the bare marker
  \<^verbatim>\<open>[NOT_FOUND]\<close>.  The marker that the command really prints ends in a line feed, so a missing file
  is stored as that text (the witness).
\<close>

theorem extractConfigs_keeps_replies:
  assumes "run_state (extractConfigs cfgs (traced client) st) (w, []) = (st', (w', tr))"
    and "distinct (map fst cfgs)" and "(name, path) \<in> set cfgs"
  shows "\<exists>r. (config_cmd path, r) \<in> set tr \<and> map_of (Configs st') name =
    (if snd r = None \<and> fst r \<noteq> ''[NOT_FOUND]'' then Some (fst r) else map_of (Configs st) name)"
proof -
  obtain m x where m: "run_state (for_each (\<lambda>e m. do { r \<leftarrow> Run (traced client) (config_cmd (snd e));
      State_Monad.return (keep_reply (fst e) r m) }) cfgs (Configs st)) (w, []) = (m, x)"
    by (rule prod.exhaust)
  have "(st\<lparr>Configs := m\<rparr>, x) = (st', (w', tr))"
    using assms(1) unfolding extractConfigs_loop m Let_def prod.case .
  then have st: "st' = st\<lparr>Configs := m\<rparr>" "x = (w', tr)" by simp_all
  have "\<exists>r. (config_cmd (snd (name, path)), r) \<in> set (snd x) \<and>
      map_of m (fst (name, path)) = kept r (map_of (Configs st) (fst (name, path)))"
    using traced.keep_loop[OF m assms(2), THEN conjunct2, THEN conjunct2] assms(3) by (rule bspec)
  then show ?thesis by (simp add: st kept_def)
qed

text \<open>
  C21: the validation after an extraction never fails for a manifest that was loaded: the host name
  of the state is that of the manifest, which \<^verbatim>\<open>Load\<close> has checked.
\<close>

theorem extracted_state_is_valid:
  assumes "Load read_file yaml_unmarshal path = Inr manifest"
    and "run_state (ExtractSystemState ord cfgs now client manifest) w = (st, w')"
  shows "st_Hostname st = node_Hostname (Node manifest) \<and> ValidateState st = None"
  using extracted_hostname[OF assms(2)] Load_wf[OF assms(1)] by (simp add: ValidateState_def wf_manifest_def)

text \<open>Witnesses: a server that answers every command with the same text.\<close>

definition one_reply :: "unit SSHRunner" where
  "one_reply = constant_client (''[NOT_FOUND]'' @ NL, None)"

text \<open>
  A server that answers every command with a name which ends a command of the shell and starts
  another: the second is sent.
\<close>

definition hostile_server :: "unit SSHRunner" where
  "hostile_server = constant_client (''x;reboot'', None)"

definition hostile_cmd :: string where
  "hostile_cmd = ''cat /etc/letsencrypt/live/x;reboot/cert.pem 2>/dev/null''"

lemma hostile_cmd_is_sent:
  "hostile_cmd \<in> set (cmds_of (ExtractSystemState (\<lambda>m. m) configPaths 0 (traced hostile_server) example_manifest) ())"
  "\<not> reads_only hostile_cmd"
  by code_simp+

theorem ExtractSystemState_reads_only_witness:
  "\<exists>name. \<not> plain_name name \<and> hostile_cmd \<in> set (name_commands name)"
  using ExtractSystemState_reads_only[OF refl hostile_cmd_is_sent(1)] hostile_cmd_is_sent(2) by blast

theorem extracted_database_is_one_witness:
  "\<exists>(st :: SystemState) tr. \<exists>p \<in> set db_paths. \<exists>d. Databases st = [(''x-ui.db'', d)] \<and> d \<noteq> [] \<and>
    (\<exists>c \<in> set (database_cmds p). (c, (d, None)) \<in> set (tr :: trace))"
proof -
  let ?run = "run_state (ExtractSystemState (\<lambda>m. m) configPaths 0 (traced one_reply) example_manifest) ((), [])"
  obtain st w' tr where r: "?run = (st, (w', tr))" by (metis prod.exhaust)
  have "Databases (fst ?run) \<noteq> []" by code_simp
  then have "Databases st \<noteq> []" using r by simp
  from extracted_database_is_one[OF r this] show ?thesis by - (rule exI[of _ st], rule exI[of _ tr])
qed

theorem extractConfigs_keeps_replies_witness:
  "\<exists>(st' :: SystemState) tr. (\<exists>r. (config_cmd ''/etc/ufw/rules.v4'', r) \<in> set (tr :: trace) \<and> map_of (Configs st') ''ufw_rules'' =
    (if snd r = None \<and> fst r \<noteq> ''[NOT_FOUND]'' then Some (fst r) else None)) \<and>
    map_of (Configs st') ''ufw_rules'' = Some (''[NOT_FOUND]'' @ NL)"
proof -
  let ?st = "initial_state 0 example_manifest"
  let ?run = "run_state (extractConfigs configPaths (traced one_reply) ?st) ((), [])"
  obtain st' w' tr where r: "?run = (st', (w', tr))" by (metis prod.exhaust)
  have none: "map_of (Configs ?st) ''ufw_rules'' = None" by (simp add: initial_state_def)
  have "map_of (Configs (fst ?run)) ''ufw_rules'' = Some (''[NOT_FOUND]'' @ NL)" by code_simp
  moreover have "(''ufw_rules'', ''/etc/ufw/rules.v4'') \<in> set configPaths" by (simp add: configPaths_def)
  from extractConfigs_keeps_replies[OF r configPaths_distinct this]
  have "\<exists>r. (config_cmd ''/etc/ufw/rules.v4'', r) \<in> set tr \<and> map_of (Configs st') ''ufw_rules'' =
    (if snd r = None \<and> fst r \<noteq> ''[NOT_FOUND]'' then Some (fst r) else None)"
    by (simp only: none)
  ultimately show ?thesis using r by (intro exI[of _ st'] exI[of _ tr] conjI) simp_all
qed

theorem extracted_state_is_valid_witness:
  "\<exists>st :: SystemState. st_Hostname st = ''h'' \<and> ValidateState st = None"
proof -
  have l: "Load (\<lambda>_. Inr ''x'') (\<lambda>_. Inr example_manifest) ''p'' = Inr (applyDefaults example_manifest)"
    by (simp add: Load_def validate_def example_manifest_def RoleRelay_def)
  obtain st w' where "run_state (ExtractSystemState (\<lambda>m. m) configPaths 0 one_reply (applyDefaults example_manifest)) () = (st, w')"
    by (metis prod.exhaust)
  from extracted_state_is_valid[OF l this] show ?thesis by (auto simp: example_manifest_def)
qed

end
