(* ===== verification/System_Restore.thy ===== *)
theory System_Restore
  imports Extractor
begin

text \<open>
  What \<^verbatim>\<open>RestoreSystemState\<close> of \<^verbatim>\<open>internal/extractor/extractor.go\<close> achieves.  Its abstract
  specification is a plan: the list of paths with the data to be there.  The program is shown to
  be the loop over that plan, followed by the Docker and Nomad parts, and on a server whose file
  commands work the whole plan is fulfilled when the loop ends.  What the containers and jobs that
  are started then do to the files is theirs.
\<close>

subsection \<open>The plan\<close>

definition restore_plan :: "SystemState \<Rightarrow> (string \<times> bytes) list" where
  "restore_plan st =
     map (\<lambda>e. (''/opt/3x-ui/db/'' @ fst e, snd e)) (Databases st) @
     map (\<lambda>e. (certificateRestorePath (fst e), snd e))
       (filter (\<lambda>e. certificateRestorePath (fst e) \<noteq> []) (Certificates st)) @
     map (\<lambda>e. (''/etc/x-ui/xray.json'', snd e)) (filter (\<lambda>e. fst e = ''xray.json'') (Configs st))"

definition restore_file :: "'w SSHRunner \<Rightarrow> string \<times> bytes \<Rightarrow> unit \<Rightarrow> ('w, unit) state" where
  "restore_file client e u = do {
     _ \<leftarrow> restoreBytesIfChanged client (fst e) (snd e) True;
     State_Monad.return () }"

definition restore_services :: "'w SSHRunner \<Rightarrow> SystemState \<Rightarrow> ('w, unit) state" where
  "restore_services client st = do {
     _ \<leftarrow> (case st_Docker st of
            Some d \<Rightarrow> if ds_Containers d \<noteq> [] then RestoreDockerState client d else State_Monad.return ()
          | None \<Rightarrow> State_Monad.return ());
     (case st_Nomad st of
        Some n \<Rightarrow> if Jobs n \<noteq> [] then RestoreNomadState client n else State_Monad.return ()
      | None \<Rightarrow> State_Monad.return ()) }"

lemma for_each_map: "for_each f (map h xs) s = for_each (\<lambda>x. f (h x)) xs s"
proof (induction xs arbitrary: s)
  case (Cons x xs)
  have "for_each f (map h xs) = for_each (\<lambda>x. f (h x)) xs" by (rule ext) (rule Cons)
  then show ?case by simp
qed simp

lemma for_each_append: "for_each f (xs @ ys) s = do { s' \<leftarrow> for_each f xs s; for_each f ys s' }"
  by (rule state_ext, induction xs arbitrary: s) (auto split: prod.splits)

lemma for_each_filter:
  "(\<And>x s. x \<in> set xs \<Longrightarrow> \<not> P x \<Longrightarrow> f x s = State_Monad.return s) \<Longrightarrow>
   for_each f xs s = for_each f (filter P xs) s"
  by (rule state_ext, induction xs arbitrary: s) (auto split: prod.splits)

lemma for_each_cong: "(\<And>x s. x \<in> set xs \<Longrightarrow> f x s = g x s) \<Longrightarrow> for_each f xs s = for_each g xs s"
  by (rule state_ext, induction xs arbitrary: s) (auto split: prod.splits)

lemma certificate_loop:
  "for_each (certificate_step client) cs () =
   for_each (restore_file client) (map (\<lambda>e. (certificateRestorePath (fst e), snd e))
     (filter (\<lambda>e. certificateRestorePath (fst e) \<noteq> []) cs)) ()"
proof -
  have "for_each (certificate_step client) cs () =
      for_each (certificate_step client) (filter (\<lambda>e. certificateRestorePath (fst e) \<noteq> []) cs) ()"
    by (rule for_each_filter) (simp add: certificate_step_def)
  also have "\<dots> = for_each (\<lambda>e. restore_file client (certificateRestorePath (fst e), snd e))
      (filter (\<lambda>e. certificateRestorePath (fst e) \<noteq> []) cs) ()"
    by (rule for_each_cong) (simp add: certificate_step_def restore_file_def)
  finally show ?thesis by (simp add: for_each_map)
qed

lemma config_loop:
  "for_each (config_step client) cs () =
   for_each (restore_file client) (map (\<lambda>e. (''/etc/x-ui/xray.json'', snd e)) (filter (\<lambda>e. fst e = ''xray.json'') cs)) ()"
proof -
  have "for_each (config_step client) cs () = for_each (config_step client) (filter (\<lambda>e. fst e = ''xray.json'') cs) ()"
    by (rule for_each_filter) (simp add: config_step_def)
  also have "\<dots> = for_each (\<lambda>e. restore_file client (''/etc/x-ui/xray.json'', snd e)) (filter (\<lambda>e. fst e = ''xray.json'') cs) ()"
    by (rule for_each_cong) (simp add: config_step_def restore_file_def)
  finally show ?thesis by (simp add: for_each_map)
qed

lemma database_loop:
  "for_each (database_step client) ds () =
   for_each (restore_file client) (map (\<lambda>e. (''/opt/3x-ui/db/'' @ fst e, snd e)) ds) ()"
  unfolding for_each_map by (rule for_each_cong) (simp add: database_step_def restore_file_def)

lemma loop_if: "(if xs \<noteq> [] then for_each f xs () else State_Monad.return ()) = for_each f xs ()"
  by simp

lemma RestoreSystemState_is_plan:
  "RestoreSystemState client st = do {
     _ \<leftarrow> for_each (restore_file client) (restore_plan st) ();
     restore_services client st }"
  unfolding RestoreSystemState_def restore_services_def restore_plan_def loop_if
    database_loop certificate_loop config_loop for_each_append
  by (rule state_ext) (simp split: prod.splits)

subsection \<open>Servers whose file commands work\<close>

text \<open>
  The contract of a server on the entries of a plan: inspections of their paths are answered
  truthfully, their parent directories can be made, writing an entry leaves its data at its path
  and the other paths of the plan alone, and so do inspections and making the directories.  These
  are the commands of the file part of a restore; nothing is asked of any other command.
\<close>

definition plan_paths :: "(string \<times> bytes) list \<Rightarrow> string set" where
  "plan_paths plan = fst ` set plan"

lemma plan_pathsI: "(p, d) \<in> set plan \<Longrightarrow> p \<in> plan_paths plan"
  by (force simp: plan_paths_def)

definition file_steps :: "string \<Rightarrow> string set" where
  "file_steps p = {sha_cmd p True, stat_cmd p True, parent_cmd p True}"

definition file_target :: "'w SSHRunner \<Rightarrow> (string \<times> bytes) list \<Rightarrow> ('w \<Rightarrow> string \<Rightarrow> bytes option) \<Rightarrow> bool" where
  "file_target client plan file \<longleftrightarrow>
     (\<forall>(p, d) \<in> set plan.
        honest_inspection client p True (\<lambda>w. file w p) \<and>
        (\<forall>w. snd (fst (run_state (Run client (parent_cmd p True)) w)) = None) \<and>
        (\<forall>cmd \<in> file_steps p. \<forall>w. \<forall>q \<in> plan_paths plan.
           file (snd (run_state (Run client cmd) w)) q = file w q) \<and>
        (\<forall>w. snd (fst (run_state (Run client (write_cmd p d True)) w)) = None \<and>
           (\<forall>q \<in> plan_paths plan. file (snd (run_state (Run client (write_cmd p d True)) w)) q =
              (if q = p then Some d else file w q))))"

lemma file_targetD:
  assumes "file_target client plan file" "(p, d) \<in> set plan"
  shows "honest_inspection client p True (\<lambda>w. file w p)"
    "snd (fst (run_state (Run client (parent_cmd p True)) w)) = None"
    "cmd \<in> file_steps p \<Longrightarrow> q \<in> plan_paths plan \<Longrightarrow> file (snd (run_state (Run client cmd) w)) q = file w q"
    "snd (fst (run_state (Run client (write_cmd p d True)) w)) = None"
    "q \<in> plan_paths plan \<Longrightarrow> file (snd (run_state (Run client (write_cmd p d True)) w)) q = (if q = p then Some d else file w q)"
  using bspec[OF assms(1)[unfolded file_target_def] assms(2)] by blast+

text \<open>The watched files as one value that a program may keep.\<close>

definition watch :: "string set \<Rightarrow> ('w \<Rightarrow> string \<Rightarrow> bytes option) \<Rightarrow> 'w \<Rightarrow> (string \<Rightarrow> bytes option) list" where
  "watch watched file w = [\<lambda>q. if q \<in> watched then file w q else None]"

lemma watch_eq: "watch watched file w = watch watched file v \<longleftrightarrow> (\<forall>q \<in> watched. file w q = file v q)"
  by (auto simp: watch_def fun_eq_iff)

text \<open>A program that may append nothing to a record leaves it as it is.\<close>

lemma keeps_record:
  assumes "policy g (\<lambda>_. False) m"
  shows "g (snd (run_state m w)) = g w"
  using policyD[OF assms, of w] by (auto simp: sends_def list_all_iff)

lemma keeps_recordI: "(\<And>w. g (snd (run_state m w)) = g w) \<Longrightarrow> policy g (\<lambda>_. False) m"
  unfolding policy_def sends_def by (intro allI exI[of _ "[]"]) simp

lemma target_keeps [policy_intros]:
  assumes "file_target client plan file" "(p, d) \<in> set plan" "cmd \<in> file_steps p"
  shows "policy (watch (plan_paths plan) file) (\<lambda>_. False) (Run client cmd)"
  by (rule keeps_recordI) (use file_targetD(3)[OF assms] in \<open>simp add: watch_eq\<close>)

lemma not_both_prefixes: "prefix p s \<Longrightarrow> \<not> prefix p q \<Longrightarrow> \<not> prefix q p \<Longrightarrow> \<not> prefix q s"
  using prefix_same_cases by blast

subsection \<open>One file\<close>

lemma inspect_keeps:
  assumes "file_target client plan file" "(p, d) \<in> set plan"
  shows "policy (watch (plan_paths plan) file) (\<lambda>_. False) (inspectRemoteFile client p True)"
  unfolding inspectRemoteFile_def
  by (intro policy_intros target_keeps[OF assms])
    (auto simp: file_steps_def split: list.split intro!: policy_intros target_keeps[OF assms, unfolded file_steps_def])

lemma target_write:
  assumes "file_target client plan file" "(p, d) \<in> set plan"
    "run_state (Run client (write_cmd p d True)) w = ((out, err), w')"
  shows "err = None" "q \<in> plan_paths plan \<Longrightarrow> file w' q = (if q = p then Some d else file w q)"
  using file_targetD(4)[OF assms(1,2), of w] file_targetD(5)[OF assms(1,2), of q w] assms(3) by simp_all

lemma target_parent:
  assumes "file_target client plan file" "(p, d) \<in> set plan"
    "run_state (Run client (parent_cmd p True)) w = ((out, err), w')"
  shows "err = None" "q \<in> plan_paths plan \<Longrightarrow> file w' q = file w q"
  using file_targetD(2)[OF assms(1,2), of w] file_targetD(3)[OF assms(1,2), of "parent_cmd p True" q w] assms(3)
  by (simp_all add: file_steps_def)

text \<open>\<open>restored v w p d\<close>: between the worlds \<open>v\<close> and \<open>w\<close> the data \<open>d\<close> has been brought to \<open>p\<close>.\<close>

definition restored :: "('w \<Rightarrow> string \<Rightarrow> bytes option) \<Rightarrow> 'w \<Rightarrow> 'w \<Rightarrow> string \<Rightarrow> bytes \<Rightarrow> bool" where
  "restored file v w p d \<longleftrightarrow>
     (if d = [] then file w p = file v p else \<exists>d'. file w p = Some d' \<and> file_info d' = file_info d)"

lemma restore_on_target:
  assumes target: "file_target client plan file" and p: "(p, data) \<in> set plan" "plain_path p"
    and size: "int (length data) < 2 ^ 63"
    and run: "run_state (restoreBytesIfChanged client p data True) w = (e, w')"
  shows "restored file w w' p data" "q \<in> plan_paths plan \<Longrightarrow> q \<noteq> p \<Longrightarrow> file w' q = file w q"
proof -
  let ?W = "plan_paths plan"
  have pW: "p \<in> ?W" using p(1) by (rule plan_pathsI)
  have "restored file w w' p data \<and> (\<forall>q \<in> ?W. q \<noteq> p \<longrightarrow> file w' q = file w q)"
  proof (cases "data = []")
    case True
    then show ?thesis using run by (simp add: restoreBytesIfChanged_def restored_def)
  next
    case False
    obtain r w1 where 1: "run_state (inspectRemoteFile client p True) w = (r, w1)" by fastforce
    obtain o2 e2 w2 where 2: "run_state (Run client (parent_cmd p True)) w1 = ((o2, e2), w2)" by (metis prod.exhaust)
    obtain o3 e3 w3 where 3: "run_state (Run client (write_cmd p data True)) w2 = ((o3, e3), w3)" by (metis prod.exhaust)
    obtain r4 w4 where 4: "run_state (inspectRemoteFile client p True) w3 = (r4, w4)" by fastforce
    have k1: "file w1 q = file w q" if "q \<in> ?W" for q
      using keeps_record[OF inspect_keeps[OF target p(1)], of w] 1 that by (simp add: watch_eq)
    have k4: "file w4 q = file w3 q" if "q \<in> ?W" for q
      using keeps_record[OF inspect_keeps[OF target p(1)], of w3] 4 that by (simp add: watch_eq)
    note k2 = target_parent[OF target p(1) 2] and k3 = target_write[OF target p(1) 3]
    note honest = file_targetD(1)[OF target p(1)]
    have r4: "r4 = Inr (file_info data)"
      using inspect_honest(3)[OF honest p(2) 4 _ size] k3(2)[OF pW] by simp
    show ?thesis
    proof (cases "case r of Inl _ \<Rightarrow> False | Inr info \<Rightarrow> same_file info data")
      case True
      then obtain info where info: "r = Inr info" "same_file info data" by (auto split: sum.splits)
      have w': "w' = w1" using run 1 False info by (simp add: restoreBytesIfChanged_def)
      obtain d where "file w p = Some d" "info = file_info d"
        using inspect_honest(4)[OF honest p(2) 1[unfolded info(1)] refl] by blast
      then show ?thesis using info(2) k1 pW False by (simp add: w' restored_def same_file_info)
    next
      case differs: False
      have "w' = w4"
        using run 1 2 3 4 False differs k2(1) k3(1) r4
        by (simp add: restoreBytesIfChanged_def ensureRemoteParentDir_def and_then_def check_def split: sum.splits)
      then show ?thesis using k1 k2(2) k3(2) k4 pW False by (simp add: restored_def)
    qed
  qed
  then show "restored file w w' p data" "q \<in> ?W \<Longrightarrow> q \<noteq> p \<Longrightarrow> file w' q = file w q" by auto
qed

subsection \<open>The whole plan\<close>

definition plain_plan :: "(string \<times> bytes) list \<Rightarrow> bool" where
  "plain_plan ps \<longleftrightarrow> list_all (\<lambda>e. plain_path (fst e) \<and> int (length (snd e)) < 2 ^ 63) ps"

lemma plan_on_target:
  assumes target: "file_target client plan file"
  shows "run_state (for_each (restore_file client) ps ()) w = (u, w') \<Longrightarrow> set ps \<subseteq> set plan \<Longrightarrow>
    distinct (map fst ps) \<Longrightarrow> plain_plan ps \<Longrightarrow>
    (\<forall>q \<in> plan_paths plan. q \<notin> set (map fst ps) \<longrightarrow> file w' q = file w q) \<and>
    (\<forall>e \<in> set ps. restored file w w' (fst e) (snd e))"
proof (induction ps arbitrary: w)
  case Nil
  then show ?case by simp
next
  case (Cons e ps)
  obtain err w1 where 1: "run_state (restoreBytesIfChanged client (fst e) (snd e) True) w = (err, w1)" by fastforce
  have p: "(fst e, snd e) \<in> set plan" "plain_path (fst e)" "int (length (snd e)) < 2 ^ 63"
    using Cons.prems by (simp_all add: plain_plan_def)
  have pW: "fst e \<in> plan_paths plan" using p(1) by (rule plan_pathsI)
  have one: "restored file w w1 (fst e) (snd e)"
    and other: "\<And>q. q \<in> plan_paths plan \<Longrightarrow> q \<noteq> fst e \<Longrightarrow> file w1 q = file w q"
    using restore_on_target[OF target p 1] by blast+
  have "run_state (restore_file client e ()) w = ((), w1)" using 1 by (simp add: restore_file_def)
  then have "run_state (for_each (restore_file client) ps ()) w1 = (u, w')" using Cons.prems(1) by simp
  then have IH: "\<And>q. q \<in> plan_paths plan \<Longrightarrow> q \<notin> set (map fst ps) \<Longrightarrow> file w' q = file w1 q"
    "\<And>d. d \<in> set ps \<Longrightarrow> restored file w1 w' (fst d) (snd d)"
    using Cons.IH[of w1] Cons.prems by (simp_all add: plain_plan_def)
  have fresh: "fst e \<notin> set (map fst ps)" using Cons.prems(3) by simp
  have "restored file w w' (fst d) (snd d)" if "d \<in> set (e # ps)" for d
  proof (cases "d = e")
    case True
    then show ?thesis using one IH(1)[OF pW fresh] by (simp add: restored_def)
  next
    case False
    then have d: "d \<in> set ps" using that by simp
    then have "fst d \<in> set (map fst ps)" by simp
    then have "fst d \<noteq> fst e" using fresh by metis
    moreover have "fst d \<in> plan_paths plan" using d Cons.prems(2) by (auto simp: plan_paths_def)
    moreover note d
    ultimately show ?thesis using IH(2)[OF d] other by (simp add: restored_def)
  qed
  moreover have "file w' q = file w q" if "q \<in> plan_paths plan" "q \<notin> set (map fst (e # ps))" for q
    using that IH(1)[of q] other[of q] by simp
  ultimately show ?case by blast
qed

text \<open>Distinct names give distinct paths.\<close>

lemma certificateRestorePath_name:
  assumes "certificateRestorePath name \<noteq> []"
  shows "certificateRestorePath name = ''/etc/letsencrypt/live/'' @ name"
proof -
  obtain a b where ab: "Split name CHR ''/'' = [a, b]"
    using assms by (auto simp: certificateRestorePath_def split: list.splits)
  have "a @ ''/'' @ b = name" using Join_Split[of name "CHR ''/''"] by (simp add: ab)
  moreover have "certificateRestorePath name = ''/etc/letsencrypt/live/'' @ a @ ''/'' @ b"
    by (simp add: certificateRestorePath_def ab)
  ultimately show ?thesis by simp
qed

lemma distinct_one_key: "distinct (map fst xs) \<Longrightarrow> distinct (map (\<lambda>e. c) (filter (\<lambda>e. fst e = k) xs))"
proof (induction xs)
  case (Cons x xs)
  have "fst x \<notin> set (map fst xs)" using Cons.prems by simp
  then have "filter (\<lambda>e. fst e = k) xs = []" if "fst x = k"
    using that by (auto simp: filter_empty_conv image_iff)
  then show ?case using Cons by auto
qed simp

lemma distinct_three:
  assumes "distinct xs" "distinct ys" "distinct zs"
    and "list_all (prefix p) xs" "list_all (prefix q) ys" "list_all (prefix r) zs"
    and "\<not> prefix p q" "\<not> prefix q p" "\<not> prefix p r" "\<not> prefix r p" "\<not> prefix q r" "\<not> prefix r q"
  shows "distinct (xs @ ys @ zs)"
proof -
  have "prefix p x" "\<not> prefix q x" "\<not> prefix r x" if "x \<in> set xs" for x
    using assms(4,7-10) that not_both_prefixes by (metis list_all_iff)+
  moreover have "prefix q x" "\<not> prefix r x" if "x \<in> set ys" for x
    using assms(5,11,12) that not_both_prefixes by (metis list_all_iff)+
  moreover have "prefix r x" if "x \<in> set zs" for x using assms(6) that by (simp add: list_all_iff)
  ultimately have "set xs \<inter> (set ys \<union> set zs) = {}" "set ys \<inter> set zs = {}" by blast+
  then show ?thesis using assms(1-3) by simp
qed

definition wf_state :: "SystemState \<Rightarrow> bool" where
  "wf_state st \<longleftrightarrow> wf_gomap (Databases st) \<and> wf_gomap (Certificates st) \<and> wf_gomap (Configs st)"

lemma distinct_prefixed: "distinct ns \<Longrightarrow> distinct (map (\<lambda>n. p @ n) ns)"
  by (simp add: distinct_map inj_on_def)

lemma plan_distinct:
  assumes "wf_state st"
  shows "distinct (map fst (restore_plan st))"
proof -
  let ?cs = "filter (\<lambda>e. certificateRestorePath (fst e) \<noteq> []) (Certificates st)"
  let ?xs = "filter (\<lambda>e. fst e = ''xray.json'') (Configs st)"
  have wf: "distinct (map fst (Databases st))" "distinct (map fst (Certificates st))" "distinct (map fst (Configs st))"
    using assms by (simp_all add: wf_state_def wf_gomap_def map_keys_def)
  have "map (\<lambda>e. certificateRestorePath (fst e)) ?cs = map (\<lambda>e. ''/etc/letsencrypt/live/'' @ fst e) ?cs"
    by (rule map_cong[OF refl], rule certificateRestorePath_name) simp
  then have plan: "map fst (restore_plan st) =
      map (\<lambda>n. ''/opt/3x-ui/db/'' @ n) (map fst (Databases st)) @
      map (\<lambda>n. ''/etc/letsencrypt/live/'' @ n) (map fst ?cs) @ map (\<lambda>e. ''/etc/x-ui/xray.json'') ?xs"
    by (simp add: restore_plan_def comp_def)
  show ?thesis
    unfolding plan
  proof (rule distinct_three)
    show "distinct (map (\<lambda>n. ''/opt/3x-ui/db/'' @ n) (map fst (Databases st)))" by (rule distinct_prefixed) (rule wf)
    show "distinct (map (\<lambda>n. ''/etc/letsencrypt/live/'' @ n) (map fst ?cs))"
      by (rule distinct_prefixed) (use wf(2) in \<open>rule distinct_map_filter\<close>)
    show "distinct (map (\<lambda>e. ''/etc/x-ui/xray.json'') ?xs)" by (rule distinct_one_key) (rule wf)
    show "list_all (prefix ''/opt/'') (map (\<lambda>n. ''/opt/3x-ui/db/'' @ n) (map fst (Databases st)))"
      "list_all (prefix ''/etc/l'') (map (\<lambda>n. ''/etc/letsencrypt/live/'' @ n) (map fst ?cs))"
      "list_all (prefix ''/etc/x'') (map (\<lambda>e. ''/etc/x-ui/xray.json'') ?xs)"
      by (simp_all add: list_all_iff)
  qed simp_all
qed

text \<open>The whole restore: the plan is fulfilled at a point after which only Docker and Nomad are left.\<close>

definition delivered :: "('w \<Rightarrow> string \<Rightarrow> bytes option) \<Rightarrow> 'w \<Rightarrow> (string \<times> bytes) list \<Rightarrow> bool" where
  "delivered file v plan \<longleftrightarrow>
     (\<forall>(p, d) \<in> set plan. d \<noteq> [] \<longrightarrow> (\<exists>d'. file v p = Some d' \<and> sha256_hex d' = sha256_hex d \<and> length d' = length d))"

lemma RestoreSystemState_delivers:
  assumes "file_target client (restore_plan st) file" "wf_state st" "plain_plan (restore_plan st)"
    and "run_state (RestoreSystemState client st) w = (u, w')"
  obtains v where "\<forall>e \<in> set (restore_plan st). restored file w v (fst e) (snd e)" "delivered file v (restore_plan st)"
    "run_state (restore_services client st) v = (u, w')"
proof -
  obtain x v where 1: "run_state (for_each (restore_file client) (restore_plan st) ()) w = (x, v)" by (rule prod.exhaust)
  have all: "\<forall>e \<in> set (restore_plan st). restored file w v (fst e) (snd e)"
    using plan_on_target[OF assms(1) 1 subset_refl plan_distinct[OF assms(2)] assms(3)] by blast
  have "delivered file v (restore_plan st)"
    using all by (fastforce simp: delivered_def restored_def file_info_def)
  moreover have "run_state (restore_services client st) v = (u, w')"
    using assms(4) 1 by (simp add: RestoreSystemState_is_plan)
  ultimately show ?thesis by (rule that[OF all])
qed

subsection \<open>Extracted states are well formed\<close>

lemma domain_files_wf: "wf_gomap m \<Longrightarrow> wf_gomap (fst (run_state (domain_files client d files m) w))"
  by (induction files arbitrary: m w) (auto split: prod.splits sum.splits)

lemma ExtractCertificates_wf: "wf_gomap (fst (run_state (ExtractCertificates client) w))"
proof -
  have "wf_gomap (fst (run_state (for_each (domain_step client) ds []) v))" for ds v
    by (rule for_each_acc_inv) (auto simp: domain_step_def Let_def domain_files_wf)
  then show ?thesis by (auto simp: ExtractCertificates_def split: prod.splits)
qed

lemma collect_wf: "wf_gomap m \<Longrightarrow> wf_gomap (fst (run_state (collect rd key paths m) w))"
  unfolding collect_def by (rule for_each_acc_inv) (auto split: prod.splits sum.splits)

lemma keep_reply_wf: "wf_gomap m \<Longrightarrow> wf_gomap (keep_reply k r m)"
  by (auto simp: keep_reply_def)

definition good_maps :: "SystemState \<Rightarrow> bool" where
  "good_maps st \<longleftrightarrow> wf_state st \<and> wf_gomap (SystemInfo st) \<and> wf_gomap (SSHPublicKeys st)"

lemma good_maps_parts:
  "good_maps st \<longleftrightarrow> wf_gomap (Databases st) \<and> wf_gomap (Certificates st) \<and> wf_gomap (Configs st) \<and>
     wf_gomap (SystemInfo st) \<and> wf_gomap (SSHPublicKeys st)"
  by (auto simp: good_maps_def wf_state_def)

lemma loop_good:
  assumes "run_state (for_each f xs st) w = (st', w')" "good_maps st"
    and "\<And>x s w s' w'. good_maps s \<Longrightarrow> run_state (f x s) w = (s', w') \<Longrightarrow> good_maps s'"
  shows "good_maps st'"
  by (rule for_each_run_inv[where I = "\<lambda>s w. good_maps s", OF assms(1,2)]) (rule assms(3))

lemma parts_good:
  "good_maps st \<Longrightarrow> run_state (extractSystemInfo client st) w = (st', w') \<Longrightarrow> good_maps st'"
  "good_maps st \<Longrightarrow> run_state (extractConfigs cfgs client st) w = (st', w') \<Longrightarrow> good_maps st'"
  "good_maps st \<Longrightarrow> run_state (extractSSHKeys client st) w = (st', w') \<Longrightarrow> good_maps st'"
  unfolding extractSystemInfo_def extractConfigs_def extractSSHKeys_def
  by (erule loop_good; auto simp: good_maps_parts keep_reply_wf split: prod.splits if_splits)+

lemma more_parts_good:
  "good_maps st \<Longrightarrow> run_state (extractCertificates client st) w = (st', w') \<Longrightarrow> good_maps st'"
  "good_maps st \<Longrightarrow> run_state (extractDatabases client st) w = (st', w') \<Longrightarrow> good_maps st'"
  "good_maps st \<Longrightarrow> run_state (extractDockerState ord client st) w = (st', w') \<Longrightarrow> good_maps st'"
  "good_maps st \<Longrightarrow> run_state (extractNomadState ord client st) w = (st', w') \<Longrightarrow> good_maps st'"
  using ExtractCertificates_wf[of client w] collect_wf[of "Databases st" "ExtractDatabase client" Base db_paths w]
  by (auto simp: good_maps_parts extractCertificates_def extractDatabases_def extractDockerState_def
      extractNomadState_def Let_def split: prod.splits option.splits if_splits)

lemma initial_good: "good_maps (initial_state now manifest)"
  by (simp add: good_maps_parts initial_state_def)

lemma ExtractSystemState_good:
  assumes "run_state (ExtractSystemState ord cfgs now client manifest) w = (st, w')"
  shows "good_maps st"
  by (rule ExtractSystemState_parts[OF assms]) (metis initial_good parts_good more_parts_good)

subsection \<open>What an extracted state holds\<close>

definition identity :: "SystemState \<Rightarrow> string \<times> string \<times> string \<times> int" where
  "identity st = (st_Hostname st, st_Location st, st_Role st, st_Timestamp st)"

text \<open>The domains of which an extraction reads the files.\<close>

definition real_domain :: "string \<Rightarrow> bool" where
  "real_domain domain \<longleftrightarrow> domain \<noteq> [] \<and> domain \<noteq> ''.'' \<and> domain \<noteq> ''..''"

definition cert_shaped :: "string \<times> bytes \<Rightarrow> bool" where
  "cert_shaped e \<longleftrightarrow> snd e \<noteq> [] \<and> (\<exists>domain. real_domain domain \<and> (\<exists>f \<in> set cert_files. fst e = cert_key domain f))"

definition database_shaped :: "string \<times> bytes \<Rightarrow> bool" where
  "database_shaped e \<longleftrightarrow> fst e = ''x-ui.db'' \<and> snd e \<noteq> []"

definition shaped :: "SystemState \<Rightarrow> bool" where
  "shaped st \<longleftrightarrow>
     list_all database_shaped (Databases st) \<and> list_all cert_shaped (Certificates st) \<and>
     list_all (\<lambda>e. fst e = ''xray.json'' \<longrightarrow> snd e \<noteq> []) (Configs st)"

lemma list_all_put: "list_all P m \<Longrightarrow> P (k, v) \<Longrightarrow> list_all P (map_put k v m)"
  unfolding map_put_def by (induction m) auto

lemma shaped_plan:
  assumes "shaped st" "(p, d) \<in> set (restore_plan st)"
  shows "d \<noteq> [] \<and> (p = ''/opt/3x-ui/db/x-ui.db'' \<or> p = ''/etc/x-ui/xray.json'' \<or>
    (\<exists>domain. \<exists>f \<in> set cert_files. real_domain domain \<and> CHR ''/'' \<notin> set domain \<and> p = live_path domain f))"
proof -
  consider (db) k where "(k, d) \<in> set (Databases st)" "p = ''/opt/3x-ui/db/'' @ k"
    | (cert) k where "(k, d) \<in> set (Certificates st)" "p = certificateRestorePath k" "p \<noteq> []"
    | (conf) "(''xray.json'', d) \<in> set (Configs st)" "p = ''/etc/x-ui/xray.json''"
    using assms(2) by (auto simp: restore_plan_def)
  then show ?thesis
  proof cases
    case cert
    then have "cert_shaped (k, d)" using assms(1) by (auto simp: shaped_def list_all_iff)
    then obtain domain f where f: "d \<noteq> []" "real_domain domain" "f \<in> set cert_files" "k = cert_key domain f" by (auto simp: cert_shaped_def)
    then have "CHR ''/'' \<notin> set domain" using cert restore_path_slash by auto
    then show ?thesis using f cert restore_path_key cert_files_no_slash by auto
  qed (use assms(1) in \<open>auto simp: shaped_def database_shaped_def list_all_iff\<close>)
qed

lemma reads_nonempty:
  "run_state (readRemoteFile client p) w = (Inr d, w') \<Longrightarrow> d \<noteq> []"
  "run_state (ExtractDatabase client p) w = (Inr d, w') \<Longrightarrow> d \<noteq> []"
  by (auto simp: readRemoteFile_def ExtractDatabase_def read_attempt_def split: prod.splits option.splits if_splits)

lemma domain_files_shaped:
  "real_domain domain \<Longrightarrow> list_all cert_shaped m \<Longrightarrow> set fs \<subseteq> set cert_files \<Longrightarrow>
   list_all cert_shaped (fst (run_state (domain_files client domain fs m) w))"
proof (induction fs arbitrary: m w)
  case (Cons f fs)
  obtain r w1 where 1: "run_state (readRemoteFile client (live_path domain f)) w = (r, w1)" by (metis prod.exhaust)
  show ?case
  proof (cases r)
    case (Inr d)
    have "f \<in> set cert_files" using Cons.prems(3) by simp
    then have "cert_shaped (cert_key domain f, d)"
      using reads_nonempty(1)[OF 1[unfolded Inr]] Cons.prems(1) by (auto simp: cert_shaped_def)
    with Cons.prems(2) have "list_all cert_shaped (map_put (cert_key domain f) d m)" by (rule list_all_put)
    from Cons.IH[OF Cons.prems(1) this, of w1] show ?thesis using Cons.prems(3) 1 Inr by simp
  qed (use 1 Cons.prems(2) in simp)
qed simp

lemma ExtractCertificates_shaped: "list_all cert_shaped (fst (run_state (ExtractCertificates client) w))"
proof -
  have "list_all cert_shaped (fst (run_state (for_each (domain_step client) ds []) v))" for ds v
  proof (rule for_each_acc_inv)
    fix field m v
    assume m: "list_all cert_shaped m"
    have "domain_step client field m =
        (if real_domain (TrimSpace field) then domain_files client (TrimSpace field) cert_files m else State_Monad.return m)"
      by (simp add: domain_step_def Let_def real_domain_def)
    then show "list_all cert_shaped (fst (run_state (domain_step client field m) v))"
      using domain_files_shaped[OF _ m subset_refl, of "TrimSpace field" client v] m by simp
  qed simp
  then show ?thesis by (auto simp: ExtractCertificates_def split: prod.splits)
qed

lemma collect_databases_shaped:
  "list_all database_shaped m \<Longrightarrow>
   list_all database_shaped (fst (run_state (collect (ExtractDatabase client) Base db_paths m) w))"
  unfolding collect_def
proof (rule for_each_acc_inv)
  show "list_all database_shaped (fst (run_state (do {
      r \<leftarrow> ExtractDatabase client p;
      State_Monad.return (case r of Inl _ \<Rightarrow> s | Inr data \<Rightarrow> if length data > 0 then map_put (Base p) data s else s) }) v))"
    if "p \<in> set db_paths" "list_all database_shaped s" for p s v
    using that db_paths_Base[OF that(1)] by (auto simp: database_shaped_def dest: reads_nonempty(2) split: prod.splits sum.splits intro!: list_all_put)
qed

definition kept_shape :: "SystemState \<Rightarrow> SystemState \<Rightarrow> bool" where
  "kept_shape st st' \<longleftrightarrow> identity st' = identity st \<and> (shaped st \<longrightarrow> shaped st')"

lemma loop_shape:
  assumes "run_state (for_each f xs st) w = (st', w')"
    and "\<And>x s v s' v'. x \<in> set xs \<Longrightarrow> run_state (f x s) v = (s', v') \<Longrightarrow> kept_shape s s'"
  shows "kept_shape st st'"
  using assms
proof (induction xs arbitrary: st w)
  case (Cons x xs)
  obtain s v where 1: "run_state (f x st) w = (s, v)" by fastforce
  have "kept_shape st s" by (rule Cons.prems(2)[OF _ 1]) simp
  moreover have "run_state (for_each f xs s) v = (st', w')" using Cons.prems(1) 1 by simp
  then have "kept_shape s st'" by (rule Cons.IH) (rule Cons.prems(2), simp_all)
  ultimately show ?case by (simp add: kept_shape_def)
qed (simp add: kept_shape_def)

text \<open>Every part changes one field.\<close>

lemma kept_shape_fields:
  "kept_shape st (st\<lparr>SystemInfo := x1\<rparr>)" "kept_shape st (st\<lparr>SSHPublicKeys := x2\<rparr>)"
  "kept_shape st (st\<lparr>st_Docker := x3\<rparr>)" "kept_shape st (st\<lparr>st_Nomad := x4\<rparr>)" "kept_shape st st"
  "list_all cert_shaped x5 \<Longrightarrow> kept_shape st (st\<lparr>Certificates := x5\<rparr>)"
  "(list_all database_shaped (Databases st) \<Longrightarrow> list_all database_shaped x6) \<Longrightarrow> kept_shape st (st\<lparr>Databases := x6\<rparr>)"
  "k = ''xray.json'' \<longrightarrow> x7 \<noteq> [] \<Longrightarrow> kept_shape st (st\<lparr>Configs := map_put k x7 (Configs st)\<rparr>)"
  by (simp_all add: kept_shape_def identity_def shaped_def list_all_put)

lemma kept_shape_trans: "kept_shape st s \<Longrightarrow> kept_shape s st' \<Longrightarrow> kept_shape st st'"
  by (simp add: kept_shape_def)

lemma info_shape: "run_state (extractSystemInfo client st) w = (st', w') \<Longrightarrow> kept_shape st st'"
  unfolding extractSystemInfo_def
  by (erule loop_shape) (auto simp: kept_shape_fields split: prod.splits if_splits)

lemma keys_shape: "run_state (extractSSHKeys client st) w = (st', w') \<Longrightarrow> kept_shape st st'"
  unfolding extractSSHKeys_def
  by (erule loop_shape) (auto simp: kept_shape_fields split: prod.splits)

lemma configs_shape:
  assumes "set cfgs = set configPaths" "run_state (extractConfigs cfgs client st) w = (st', w')"
  shows "kept_shape st st'"
  using assms(2) unfolding extractConfigs_def
proof (rule loop_shape)
  fix x v v' and s s' :: SystemState
  assume r: "run_state (do { r \<leftarrow> Run client (config_cmd (snd x));
      State_Monad.return (s\<lparr>Configs := keep_reply (fst x) r (Configs s)\<rparr>) }) v = (s', v')"
  assume "x \<in> set cfgs"
  moreover have "\<forall>e \<in> set configPaths. fst e \<noteq> ''xray.json''" by (simp add: configPaths_def)
  ultimately have "fst x \<noteq> ''xray.json''" using assms(1) by blast
  moreover obtain reply where "s' = s\<lparr>Configs := keep_reply (fst x) reply (Configs s)\<rparr>"
    using r by (auto split: prod.splits)
  ultimately show "kept_shape s s'" by (simp add: keep_reply_def kept_shape_fields)
qed

lemma certificates_shape:
  assumes "run_state (extractCertificates client st) w = (st', w')"
  shows "kept_shape st st'"
proof -
  obtain certs v where c: "run_state (ExtractCertificates client) w = (certs, v)" by fastforce
  have "kept_shape st (st\<lparr>Certificates := certs\<rparr>)"
    using ExtractCertificates_shaped[of client w] c by (simp add: kept_shape_fields)
  moreover have "kept_shape (st\<lparr>Certificates := certs\<rparr>) st'"
    using assms c kept_shape_fields(8)[of "''xray.json''" _ "st\<lparr>Certificates := certs\<rparr>"]
    by (auto simp: extractCertificates_def kept_shape_fields Let_def split: prod.splits option.splits if_splits)
  ultimately show ?thesis by (rule kept_shape_trans)
qed

lemma databases_shape: "run_state (extractDatabases client st) w = (st', w') \<Longrightarrow> kept_shape st st'"
  using collect_databases_shaped[of "Databases st" client w]
  by (auto simp: extractDatabases_def split: prod.splits intro!: kept_shape_fields)

lemma services_shape:
  "run_state (extractDockerState ord client st) w = (st', w') \<Longrightarrow> kept_shape st st'"
  "run_state (extractNomadState ord client st) w = (st', w') \<Longrightarrow> kept_shape st st'"
  by (auto simp: extractDockerState_def extractNomadState_def split: prod.splits intro!: kept_shape_fields)

lemma ExtractSystemState_shaped:
  assumes "set cfgs = set configPaths" "run_state (ExtractSystemState ord cfgs now client manifest) w = (st, w')"
  shows "shaped st \<and> identity st = identity (initial_state now manifest)"
proof (rule ExtractSystemState_parts[OF assms(2)])
  fix s1 s2 s3 s4 s5 s6 :: SystemState and w1 w2 w3 w4 w5 w6
  assume runs: "run_state (extractSystemInfo client (initial_state now manifest)) w = (s1, w1)"
    "run_state (extractCertificates client s1) w1 = (s2, w2)" "run_state (extractDatabases client s2) w2 = (s3, w3)"
    "run_state (extractConfigs cfgs client s3) w3 = (s4, w4)" "run_state (extractSSHKeys client s4) w4 = (s5, w5)"
    "run_state (extractDockerState ord client s5) w5 = (s6, w6)" "run_state (extractNomadState ord client s6) w6 = (st, w')"
  have "kept_shape (initial_state now manifest) s1" "kept_shape s1 s2" "kept_shape s2 s3" "kept_shape s3 s4"
    "kept_shape s4 s5" "kept_shape s5 s6" "kept_shape s6 st"
    by (fact info_shape[OF runs(1)] certificates_shape[OF runs(2)] databases_shape[OF runs(3)]
      configs_shape[OF assms(1) runs(4)] keys_shape[OF runs(5)] services_shape(1)[OF runs(6)] services_shape(2)[OF runs(7)])+
  moreover have "shaped (initial_state now manifest)" by (simp add: shaped_def initial_state_def)
  ultimately show ?thesis by (simp add: kept_shape_def)
qed

subsection \<open>Properties\<close>

text \<open>
  C3: restoring a system brings every file of the plan to the server.  On a server whose file
  commands work there is a point at which each database, each certificate with a restore path and
  the Xray configuration is in place, with the digest and the size of its data, while an entry
  without data has left its file as it was; after that point nothing is done any more but the
  restoration of Docker and Nomad.
\<close>

theorem RestoreSystemState_restores:
  assumes "file_target client (restore_plan st) file"
    and "wf_state st" and "plain_plan (restore_plan st)"
    and "run_state (RestoreSystemState client st) w = (u, w')"
  shows "\<exists>v. (\<forall>(p, d) \<in> set (restore_plan st).
      if d = [] then file v p = file w p
      else \<exists>d'. file v p = Some d' \<and> sha256_hex d' = sha256_hex d \<and> length d' = length d) \<and>
    run_state (restore_services client st) v = (u, w')"
proof -
  obtain v where v: "\<forall>e \<in> set (restore_plan st). restored file w v (fst e) (snd e)"
    "run_state (restore_services client st) v = (u, w')"
    by (rule RestoreSystemState_delivers[OF assms]) (rule that)
  have "if d = [] then file v p = file w p
      else \<exists>d'. file v p = Some d' \<and> sha256_hex d' = sha256_hex d \<and> length d' = length d"
    if "(p, d) \<in> set (restore_plan st)" for p d
    using bspec[OF v(1) that] by (auto simp: restored_def file_info_def)
  then show ?thesis using v(2) by blast
qed

text \<open>A server with the one file of a state with one database.\<close>

definition small_state :: SystemState where
  "small_state = (initial_state 0 example_manifest)\<lparr>Databases := [(''x-ui.db'', ''db'')]\<rparr>"

definition db_file :: string where "db_file = ''/opt/3x-ui/db/x-ui.db''"

lemma small_plan: "restore_plan small_state = [(db_file, ''db'')]"
  by (simp add: restore_plan_def small_state_def initial_state_def db_file_def)

lemma small_wf: "wf_state small_state"
  by (simp add: wf_state_def small_state_def initial_state_def wf_gomap_def map_keys_def)

lemma disk_target:
  assumes "plain_path p" "CHR 0x27 \<notin> set p"
  shows "file_target (disk_client p True) [(p, d)] (\<lambda>f q. f)"
proof -
  have "snd (run_state (Run (disk_client p True) cmd) f) = f" if "\<not> prefix ''echo '' cmd" for cmd f
    using that by (auto simp: disk_client_def split: option.splits)
  moreover have "\<not> prefix ''echo '' cmd" if "cmd \<in> file_steps p" for cmd
    using that command_shapes(2)[of p True]
    by (auto simp: file_steps_def sha_cmd_def stat_cmd_def sudo_prefix_def)
  moreover have "honest_inspection (disk_client p True) p True (\<lambda>f. f)" by (rule disk_honest)
  ultimately show ?thesis using disk_Run(1) disk_Run(2)[OF assms(2)] by (simp add: file_target_def plan_paths_def)
qed

lemma db_file_plain: "plain_path db_file" "CHR 0x27 \<notin> set db_file"
  by (simp_all add: db_file_def plain_path_def graphic_def)

theorem RestoreSystemState_restores_witness:
  "\<exists>(v :: bytes option) w'. (\<exists>d'. v = Some d' \<and> sha256_hex d' = sha256_hex ''db'' \<and> length d' = length ''db'') \<and>
    run_state (restore_services (disk_client db_file True) small_state) v = ((), w')"
proof -
  obtain u w' where r: "run_state (RestoreSystemState (disk_client db_file True) small_state) None = (u, w')" by (rule prod.exhaust)
  have t: "file_target (disk_client db_file True) (restore_plan small_state) (\<lambda>f q. f)"
    unfolding small_plan by (rule disk_target[OF db_file_plain])
  have p: "plain_plan (restore_plan small_state)" using db_file_plain by (simp add: small_plan plain_plan_def)
  from RestoreSystemState_restores[OF t small_wf p r] obtain v where
    v: "\<forall>(p, d) \<in> set (restore_plan small_state). if d = [] then v = None
       else \<exists>d'. v = Some d' \<and> sha256_hex d' = sha256_hex d \<and> length d' = length d"
    "run_state (restore_services (disk_client db_file True) small_state) v = (u, w')" by blast
  then show ?thesis by (intro exI[of _ v] exI[of _ w']) (simp add: small_plan)
qed

text \<open>
  C14: much of the state is never restored: the SSH keys, the system information and every
  configuration but the one called \<^verbatim>\<open>xray.json\<close> make no difference to what a restore does.
\<close>

theorem RestoreSystemState_ignores:
  "RestoreSystemState client (st\<lparr>SSHPublicKeys := keys, SystemInfo := info,
     Configs := filter (\<lambda>e. fst e = ''xray.json'') (Configs st)\<rparr>) = RestoreSystemState client st"
  by (simp add: RestoreSystemState_is_plan restore_plan_def restore_services_def)

text \<open>
  C19: where a migration can write: the state extracted under a manifest has the host name, the
  location and the role of the manifest and the time of the run, and whatever the server answers,
  the plan of restoring it has no entry without data and no path but that of the database, that
  of the Xray configuration, and those of the three certificate files of a domain whose name
  holds no slash and is none of the names of directories \<^verbatim>\<open>.\<close> and \<^verbatim>\<open>..\<close>.
\<close>

theorem extracted_state_goes_to:
  assumes "set cfgs = set configPaths"
    and "run_state (ExtractSystemState ord cfgs now client manifest) w = (st, w')"
  shows "(st_Hostname st, st_Location st, st_Role st, st_Timestamp st) =
      (node_Hostname (Node manifest), node_Location (Node manifest), node_Role (Node manifest), now) \<and>
    (\<forall>(p, d) \<in> set (restore_plan st). d \<noteq> [] \<and>
      (p = ''/opt/3x-ui/db/x-ui.db'' \<or> p = ''/etc/x-ui/xray.json'' \<or>
       (\<exists>domain. \<exists>f \<in> {''cert.pem'', ''privkey.pem'', ''fullchain.pem''}. domain \<noteq> [] \<and>
          domain \<noteq> ''.'' \<and> domain \<noteq> ''..'' \<and> CHR ''/'' \<notin> set domain \<and> p = ''/etc/letsencrypt/live/'' @ domain @ ''/'' @ f)))"
proof -
  have st: "shaped st" "identity st = identity (initial_state now manifest)"
    using ExtractSystemState_shaped[OF assms] by blast+
  have "(st_Hostname st, st_Location st, st_Role st, st_Timestamp st) =
      (node_Hostname (Node manifest), node_Location (Node manifest), node_Role (Node manifest), now)"
    using st(2) by (simp add: identity_def initial_state_def)
  moreover have "d \<noteq> [] \<and> (p = ''/opt/3x-ui/db/x-ui.db'' \<or> p = ''/etc/x-ui/xray.json'' \<or>
       (\<exists>domain. \<exists>f \<in> {''cert.pem'', ''privkey.pem'', ''fullchain.pem''}. domain \<noteq> [] \<and>
          domain \<noteq> ''.'' \<and> domain \<noteq> ''..'' \<and> CHR ''/'' \<notin> set domain \<and> p = ''/etc/letsencrypt/live/'' @ domain @ ''/'' @ f))"
    if "(p, d) \<in> set (restore_plan st)" for p d
    using shaped_plan[OF st(1) that] unfolding live_path_def cert_files_def real_domain_def list.set conj_assoc .
  ultimately show ?thesis by blast
qed

theorem extracted_state_goes_to_witness:
  "\<exists>st :: SystemState. (st_Hostname st, st_Location st, st_Role st, st_Timestamp st) = (''h'', ''us'', ''relay'', 0) \<and>
    (\<forall>(p, d) \<in> set (restore_plan st). d \<noteq> [] \<and>
      (p = ''/opt/3x-ui/db/x-ui.db'' \<or> p = ''/etc/x-ui/xray.json'' \<or>
       (\<exists>domain. \<exists>f \<in> {''cert.pem'', ''privkey.pem'', ''fullchain.pem''}. domain \<noteq> [] \<and>
          domain \<noteq> ''.'' \<and> domain \<noteq> ''..'' \<and> CHR ''/'' \<notin> set domain \<and> p = ''/etc/letsencrypt/live/'' @ domain @ ''/'' @ f)))"
proof -
  obtain st w' where r: "run_state (ExtractSystemState (\<lambda>m. m) configPaths 0 one_reply example_manifest) () = (st, w')"
    by (rule prod.exhaust)
  have "(node_Hostname (Node example_manifest), node_Location (Node example_manifest), node_Role (Node example_manifest),
      0 :: int) = (''h'', ''us'', ''relay'', 0)"
    by (simp add: example_manifest_def)
  from extracted_state_goes_to[OF refl r, unfolded this] show ?thesis by (rule exI[of _ st])
qed

end
