(* ===== verification/Go_Tar.thy ===== *)
theory Go_Tar
  imports Go_Encoding
begin

text \<open>
  \<^verbatim>\<open>archive/tar\<close> as far as transport uses it: a writer that is given a name, a mode, a size and
  then all the data, and a reader that goes through the archive.  Headers that fit the plain USTAR
  form (an ASCII name of at most 100 bytes) are modelled byte for byte with their checksum; what
  the library writes for other headers, and what it reads from other blocks, are arguments.
\<close>

subsection \<open>Fields\<close>

definition NUL :: string where "NUL = [CHR 0x00]"

definition zeros :: "nat \<Rightarrow> bytes" where "zeros n = replicate n CHR 0x00"

definition field :: "nat \<Rightarrow> string \<Rightarrow> bytes" where
  "field n s = s @ zeros (n - length s)"

fun oct_str :: "nat \<Rightarrow> string" where
  "oct_str n = (if n < 8 then [digit n] else oct_str (n div 8) @ [digit (n mod 8)])"

declare oct_str.simps [simp del]

definition octal :: "nat \<Rightarrow> nat \<Rightarrow> bytes" where
  "octal n x = replicate (n - 1 - length (oct_str x)) CHR ''0'' @ oct_str x @ NUL"

definition oct_val :: "string \<Rightarrow> nat" where
  "oct_val ds = foldl (\<lambda>n c. 8 * n + digit_val c) 0 ds"

definition is_octal :: "char \<Rightarrow> bool" where
  "is_octal c \<longleftrightarrow> is_digit c \<and> digit_val c < 8"

definition blank :: "char \<Rightarrow> bool" where
  "blank c \<longleftrightarrow> c = CHR 0x20 \<or> c = CHR 0x00"

text \<open>A number: blanks around it are dropped, and none at all is zero.\<close>

definition parse_octal :: "bytes \<Rightarrow> nat option" where
  "parse_octal f =
     (let ds = rev (dropWhile blank (rev (dropWhile blank f)))
      in if list_all is_octal ds \<and> oct_val ds < 2 ^ 64 then Some (oct_val ds) else None)"

definition cstring :: "bytes \<Rightarrow> string" where
  "cstring f = takeWhile (\<lambda>c. c \<noteq> CHR 0x00) f"

definition slice :: "nat \<Rightarrow> nat \<Rightarrow> bytes \<Rightarrow> bytes" where
  "slice a n b = take n (drop a b)"

subsection \<open>Headers\<close>

definition header_fields :: "bytes \<Rightarrow> string \<Rightarrow> nat \<Rightarrow> nat \<Rightarrow> bytes list" where
  "header_fields chk name mode sz =
     [field 100 name, octal 8 mode, octal 8 0, octal 8 0, octal 12 sz, octal 12 0, chk, ''0'',
      zeros 100, ''ustar'' @ NUL, ''00'', zeros 32, zeros 32, octal 8 0, octal 8 0, zeros 155, zeros 12]"

definition byte_sum :: "bytes \<Rightarrow> nat" where
  "byte_sum b = sum_list (map of_char b)"

definition spaces :: bytes where "spaces = replicate 8 CHR 0x20"

definition header_block :: "string \<Rightarrow> nat \<Rightarrow> nat \<Rightarrow> bytes" where
  "header_block name mode sz =
     (let chksum = byte_sum (concat (header_fields spaces name mode sz))
      in concat (header_fields (octal 7 chksum @ '' '') name mode sz))"

text \<open>Names, modes and sizes that fit.\<close>

definition ustar_ok :: "string \<Rightarrow> nat \<Rightarrow> nat \<Rightarrow> bool" where
  "ustar_ok name mode sz \<longleftrightarrow>
     name \<noteq> [] \<and> length name \<le> 100 \<and> list_all (\<lambda>c. 0 < (of_char c :: nat) \<and> (of_char c :: nat) < 128) name \<and>
     last name \<noteq> CHR ''/'' \<and> mode < 8 ^ 7 \<and> sz < 8 ^ 11"

definition blockPadding :: "nat \<Rightarrow> nat" where
  "blockPadding n = (512 - n mod 512) mod 512"

subsection \<open>The writer\<close>

text \<open>
  The buffer behind it, the bytes still to come for the current entry, and the padding that the
  next header writes first.
\<close>

record tar_writer =
  tw_buf :: bytes
  tw_remaining :: nat
  tw_pad :: nat

definition NewWriter :: tar_writer where
  "NewWriter = \<lparr>tw_buf = [], tw_remaining = 0, tw_pad = 0\<rparr>"

type_synonym other_header = "string \<Rightarrow> nat \<Rightarrow> nat \<Rightarrow> string + (bytes \<times> nat)"

definition WriteHeader :: "other_header \<Rightarrow> string \<Rightarrow> nat \<Rightarrow> nat \<Rightarrow> tar_writer \<Rightarrow> string option \<times> tar_writer" where
  "WriteHeader oh name mode sz tw =
     (if tw_remaining tw > 0 then (Some ''archive/tar: missed writing'', tw)
      else let tw1 = tw\<lparr>tw_buf := tw_buf tw @ zeros (tw_pad tw), tw_pad := 0\<rparr>
        in (case (if ustar_ok name mode sz then Inr (header_block name mode sz, sz) else oh name mode sz) of
          Inl err \<Rightarrow> (Some err, tw1)
        | Inr (blk, n) \<Rightarrow>
            (None, tw1\<lparr>tw_buf := tw_buf tw1 @ blk, tw_remaining := n, tw_pad := blockPadding n\<rparr>)))"

definition Write :: "bytes \<Rightarrow> tar_writer \<Rightarrow> string option \<times> tar_writer" where
  "Write b tw =
     (let n = min (length b) (tw_remaining tw)
      in (if length b > tw_remaining tw then Some ''archive/tar: write too long'' else None,
          tw\<lparr>tw_buf := tw_buf tw @ take n b, tw_remaining := tw_remaining tw - n\<rparr>))"

subsection \<open>The reader\<close>

text \<open>
  A step of the reader: the end, an error, or an entry with its name, what reading all of it gives,
  and the input that is left after it.
\<close>

datatype tar_step = TarEOF | TarError string | TarEntry string "string + bytes" bytes

definition chksum_ok :: "bytes \<Rightarrow> bool" where
  "chksum_ok blk \<longleftrightarrow> parse_octal (slice 148 8 blk) = Some (byte_sum (take 148 blk @ spaces @ drop 156 blk))"

definition plain_block :: "bytes \<Rightarrow> bool" where
  "plain_block blk \<longleftrightarrow>
     chksum_ok blk \<and> slice 257 6 blk = ''ustar'' @ NUL \<and> slice 508 4 blk \<noteq> ''tar'' @ NUL \<and>
     slice 156 1 blk = ''0'' \<and> cstring (slice 345 155 blk) = [] \<and>
     list_all (\<lambda>(a, n). parse_octal (slice a n blk) \<noteq> None)
       [(100, 8), (108, 8), (116, 8), (124, 12), (136, 12), (329, 8), (337, 8)]"

definition tar_next :: "(bytes \<Rightarrow> tar_step) \<Rightarrow> bytes \<Rightarrow> tar_step" where
  "tar_next other src =
     (let blk = take 512 src
      in if src = [] then TarEOF
         else if length src < 512 then TarError ''unexpected EOF''
         else if blk = zeros 512 then
           (let blk2 = take 512 (drop 512 src)
            in if blk2 = [] then TarEOF
               else if length blk2 < 512 then TarError ''unexpected EOF''
               else if blk2 = zeros 512 then TarEOF else TarError ''archive/tar: invalid tar header'')
         else if plain_block blk then
           (let sz = the (parse_octal (slice 124 12 blk)); body = drop 512 src
            in TarEntry (cstring (slice 0 100 blk))
                 (if length body < sz then Inl ''unexpected EOF'' else Inr (take sz body))
                 (drop (sz + blockPadding sz) body))
         else other src)"

subsection \<open>Reading back a header\<close>

lemma oct_val_append: "oct_val (xs @ ys) = foldl (\<lambda>n c. 8 * n + digit_val c) (oct_val xs) ys"
  by (simp add: oct_val_def)

lemma oct_str_val: "oct_val (oct_str n) = n"
proof (induction n rule: oct_str.induct)
  case (1 n)
  then show ?case
    by (subst oct_str.simps) (auto simp: oct_val_append, auto simp: oct_val_def digit_val_digit)
qed

lemma octal_digit: "n < 8 \<Longrightarrow> is_octal (digit n)"
  by (simp add: is_octal_def digit_is_digit digit_val_digit)

lemma oct_str_digits: "list_all is_octal (oct_str n)"
proof (induction n rule: oct_str.induct)
  case (1 n)
  then show ?case
    by (subst oct_str.simps) (auto simp: octal_digit)
qed

lemma oct_str_length: "n < 8 ^ Suc k \<Longrightarrow> length (oct_str n) \<le> Suc k"
proof (induction k arbitrary: n)
  case 0
  then show ?case by (subst oct_str.simps) simp
next
  case (Suc k)
  then have "length (oct_str (n div 8)) \<le> Suc k"
    by (intro Suc.IH) (simp add: less_mult_imp_div_less mult.commute)
  then show ?case by (subst oct_str.simps) simp
qed

lemma oct_val_zeros: "oct_val (replicate k CHR ''0'' @ ds) = oct_val ds"
  by (induction k) (simp_all add: oct_val_def digit_val_def)

lemma octal_not_blank: "is_octal c \<Longrightarrow> \<not> blank c"
  by (auto simp: is_octal_def is_digit_def blank_def)

lemma parse_digits:
  assumes "list_all is_octal ds" "ds \<noteq> []" "oct_val ds < 2 ^ 64" "list_all blank bs"
  shows "parse_octal (ds @ bs) = Some (oct_val ds)"
proof -
  have "\<not> blank (hd ds)" "\<not> blank (last ds)"
    using assms(1,2) octal_not_blank hd_in_set last_in_set unfolding list_all_iff by blast+
  then have "dropWhile blank (ds @ bs) = ds @ bs" "dropWhile blank (rev ds) = rev ds"
    using assms(2) by (cases ds, simp_all) (cases ds rule: rev_cases, simp_all)
  moreover have "dropWhile blank (rev bs @ rev ds) = dropWhile blank (rev ds)"
    using assms(4) by (intro dropWhile_append2) (auto simp: list_all_iff)
  ultimately show ?thesis using assms(1,3) by (simp add: parse_octal_def Let_def)
qed

lemma parse_octal_octal:
  assumes "x < 2 ^ 64" "list_all blank bs"
  shows "parse_octal (octal n x @ bs) = Some x"
proof -
  let ?ds = "replicate (n - 1 - length (oct_str x)) CHR ''0'' @ oct_str x"
  have "list_all is_octal ?ds"
    using oct_str_digits by (auto simp: list_all_iff is_octal_def is_digit_def digit_val_def)
  moreover have "oct_str x \<noteq> []" by (subst oct_str.simps) simp
  moreover have "oct_val ?ds = x" by (simp add: oct_val_zeros oct_str_val)
  ultimately have "parse_octal (?ds @ NUL @ bs) = Some x"
    using assms parse_digits[of ?ds "NUL @ bs"] by (simp add: NUL_def blank_def)
  then show ?thesis by (simp add: octal_def)
qed

lemma octal_length: "x < 8 ^ Suc k \<Longrightarrow> length (octal (Suc (Suc k)) x) = Suc (Suc k)"
  using oct_str_length[of x k] by (simp add: octal_def NUL_def)
lemma octal_lengths:
  "x < 2097152 \<Longrightarrow> length (octal 8 x) = 8" "x < 8589934592 \<Longrightarrow> length (octal 12 x) = 12"
  "x < 262144 \<Longrightarrow> length (octal 7 x) = 7"
  using octal_length[of x 6] octal_length[of x 10] octal_length[of x 5] by simp_all

lemma field_lengths:
  assumes "ustar_ok name mode sz"
  shows "length (field 100 name) = 100" "length (octal 8 mode) = 8" "length (octal 12 sz) = 12"
    "length (octal 8 0) = 8" "length (octal 12 0) = 12"
  using assms by (simp_all add: ustar_ok_def octal_lengths field_def zeros_def)

lemma header_length:
  assumes "ustar_ok name mode sz" "length chk = 8"
  shows "length (concat (header_fields chk name mode sz)) = 512"
  using assms by (simp add: header_fields_def field_lengths[OF assms(1)] zeros_def NUL_def)

lemma slice_concat: "length (concat xs) = a \<Longrightarrow> length y = n \<Longrightarrow> slice a n (concat (xs @ y # ys)) = y"
  by (auto simp: slice_def)

lemma header_slices:
  assumes "ustar_ok name mode sz" "length chk = 8"
  shows "slice 0 100 (concat (header_fields chk name mode sz)) = field 100 name"
    "slice 100 8 (concat (header_fields chk name mode sz)) = octal 8 mode"
    "slice 108 8 (concat (header_fields chk name mode sz)) = octal 8 0"
    "slice 116 8 (concat (header_fields chk name mode sz)) = octal 8 0"
    "slice 124 12 (concat (header_fields chk name mode sz)) = octal 12 sz"
    "slice 136 12 (concat (header_fields chk name mode sz)) = octal 12 0"
    "slice 148 8 (concat (header_fields chk name mode sz)) = chk"
    "slice 156 1 (concat (header_fields chk name mode sz)) = ''0''"
    "slice 257 6 (concat (header_fields chk name mode sz)) = ''ustar'' @ NUL"
    "slice 329 8 (concat (header_fields chk name mode sz)) = octal 8 0"
    "slice 337 8 (concat (header_fields chk name mode sz)) = octal 8 0"
    "slice 345 155 (concat (header_fields chk name mode sz)) = zeros 155"
    "slice 508 4 (concat (header_fields chk name mode sz)) = zeros 4"
  using assms(2) by (simp_all add: slice_def header_fields_def field_lengths[OF assms(1)] zeros_def NUL_def)

lemma header_splice:
  assumes "ustar_ok name mode sz" "length chk = 8" "length chk' = 8"
  shows "take 148 (concat (header_fields chk name mode sz)) @ chk' @ drop 156 (concat (header_fields chk name mode sz))
    = concat (header_fields chk' name mode sz)"
  using assms(2,3) by (simp add: header_fields_def field_lengths[OF assms(1)] zeros_def NUL_def)

lemma byte_sum_bound: "byte_sum b \<le> 255 * length b"
proof (induction b)
  case (Cons c b)
  have "(of_char c :: nat) \<le> 255" using nat_of_char_less_256[of c] by linarith
  then show ?case using Cons by (simp add: byte_sum_def)
qed (simp add: byte_sum_def)

definition chksum_field :: "string \<Rightarrow> nat \<Rightarrow> nat \<Rightarrow> bytes" where
  "chksum_field name mode sz = octal 7 (byte_sum (concat (header_fields spaces name mode sz))) @ '' ''"

lemma header_block_fields: "header_block name mode sz = concat (header_fields (chksum_field name mode sz) name mode sz)"
  by (simp add: header_block_def chksum_field_def Let_def)

lemma spaces_length: "length spaces = 8"
  by (simp add: spaces_def)

lemma chksum_bound: "ustar_ok name mode sz \<Longrightarrow> byte_sum (concat (header_fields spaces name mode sz)) < 262144"
  using byte_sum_bound[of "concat (header_fields spaces name mode sz)"]
  by (simp only: header_length spaces_length)

lemma chksum_field_length: "ustar_ok name mode sz \<Longrightarrow> length (chksum_field name mode sz) = 8"
  using octal_lengths(3)[OF chksum_bound] by (simp add: chksum_field_def)

lemma header_chksum_ok:
  assumes "ustar_ok name mode sz"
  shows "chksum_ok (header_block name mode sz)"
proof -
  have "parse_octal (chksum_field name mode sz) = Some (byte_sum (concat (header_fields spaces name mode sz)))"
    using chksum_bound[OF assms] unfolding chksum_field_def by (intro parse_octal_octal) (simp_all add: blank_def)
  then show ?thesis
    unfolding chksum_ok_def header_block_fields
    by (simp only: header_slices[OF assms chksum_field_length[OF assms]]
        header_splice[OF assms chksum_field_length[OF assms] spaces_length])
qed

lemma parse_octal_fits: "x < 2 ^ 64 \<Longrightarrow> parse_octal (octal n x) = Some x"
  using parse_octal_octal[of x "[]" n] by simp

lemma cstring_field: "CHR 0x00 \<notin> set s \<Longrightarrow> cstring (field n s) = s"
proof -
  assume "CHR 0x00 \<notin> set s"
  then have "takeWhile (\<lambda>c. c \<noteq> CHR 0x00) (s @ zeros k) = s" for k
    by (subst takeWhile_append2) (auto simp: zeros_def takeWhile_eq_Nil_iff)
  then show ?thesis by (simp add: cstring_def field_def)
qed

lemma ustar_ok_no_NUL: "ustar_ok name mode sz \<Longrightarrow> CHR 0x00 \<notin> set name"
  by (auto simp: ustar_ok_def list_all_iff)

lemma header_plain:
  assumes "ustar_ok name mode sz"
  shows "plain_block (header_block name mode sz)" "length (header_block name mode sz) = 512"
    "parse_octal (slice 124 12 (header_block name mode sz)) = Some sz"
    "cstring (slice 0 100 (header_block name mode sz)) = name"
    "header_block name mode sz \<noteq> zeros 512"
proof -
  note sl = header_slices[OF assms chksum_field_length[OF assms], folded header_block_fields]
  have fits: "mode < 2 ^ 64" "sz < 2 ^ 64" using assms by (simp_all add: ustar_ok_def)
  show "parse_octal (slice 124 12 (header_block name mode sz)) = Some sz"
    using fits by (simp only: sl parse_octal_fits)
  show "cstring (slice 0 100 (header_block name mode sz)) = name"
    by (simp only: sl cstring_field[OF ustar_ok_no_NUL[OF assms]])
  show "length (header_block name mode sz) = 512"
    by (simp only: header_block_fields header_length[OF assms chksum_field_length[OF assms]])
  have "cstring (zeros 155) = []" by (simp add: cstring_def zeros_def)
  moreover have "zeros 4 \<noteq> ''tar'' @ NUL" by (simp add: zeros_def NUL_def numeral_eq_Suc)
  ultimately show "plain_block (header_block name mode sz)"
    using fits header_chksum_ok[OF assms]
    by (simp add: plain_block_def sl sl(8)[unfolded One_nat_def] parse_octal_fits)
  have "slice 156 1 (zeros 512) = ''0'' \<Longrightarrow> False" by (simp add: slice_def zeros_def)
  then show "header_block name mode sz \<noteq> zeros 512" using sl(8) by metis
qed

text \<open>What the reader makes of an entry that the writer wrote.\<close>

lemma tar_next_header:
  assumes "ustar_ok name mode (length data)"
  shows "tar_next other (header_block name mode (length data) @ data @ r) =
    TarEntry name (Inr data) (drop (blockPadding (length data)) r)"
  using header_plain[OF assms]
  by (simp add: tar_next_def Let_def) (metis length_0_conv zero_neq_numeral)

text \<open>A reader of unusual blocks is sound when every entry it reads takes up input.\<close>

definition advances :: "(bytes \<Rightarrow> tar_step) \<Rightarrow> bool" where
  "advances reader \<longleftrightarrow> (\<forall>src name r rest. reader src = TarEntry name r rest \<longrightarrow> length rest < length src)"

lemma tar_next_advances:
  assumes "advances other"
  shows "advances (tar_next other)"
  unfolding advances_def
proof (intro allI impI)
  fix src name r rest
  assume e: "tar_next other src = TarEntry name r rest"
  show "length rest < length src"
  proof (cases "plain_block (take 512 src)")
    case True
    then show ?thesis using e by (auto simp: tar_next_def Let_def split: if_splits)
  next
    case False
    then have "other src = TarEntry name r rest" using e by (auto simp: tar_next_def Let_def split: if_splits)
    then show ?thesis using assms by (simp add: advances_def)
  qed
qed

lemma tar_next_Nil [simp]: "tar_next other [] = TarEOF"
  by (simp add: tar_next_def)

subsection \<open>Writing and reading a whole archive\<close>

text \<open>
  The bytes of a list of entries, without the padding of the last one and without the closing
  blocks, which is what the buffer holds before \<^verbatim>\<open>Close\<close>.
\<close>

definition entry_bytes :: "string \<times> nat \<times> bytes \<Rightarrow> bytes" where
  "entry_bytes e = (case e of (name, mode, data) \<Rightarrow> header_block name mode (length data) @ data)"

definition entry_pad :: "string \<times> nat \<times> bytes \<Rightarrow> bytes" where
  "entry_pad e = zeros (blockPadding (length (snd (snd e))))"

fun archive :: "(string \<times> nat \<times> bytes) list \<Rightarrow> bytes" where
  "archive [] = []"
| "archive [e] = entry_bytes e"
| "archive (e # es) = entry_bytes e @ entry_pad e @ archive es"

definition entry_ok :: "string \<times> nat \<times> bytes \<Rightarrow> bool" where
  "entry_ok e = (case e of (name, mode, data) \<Rightarrow> ustar_ok name mode (length data))"

lemma archive_snoc:
  "archive (es @ [e]) = (if es = [] then entry_bytes e else archive es @ entry_pad (last es) @ entry_bytes e)"
  by (induction es rule: archive.induct) auto

definition written :: "(string \<times> nat \<times> bytes) list \<Rightarrow> tar_writer" where
  "written es = \<lparr>tw_buf = archive es, tw_remaining = 0,
     tw_pad = (if es = [] then 0 else blockPadding (length (snd (snd (last es)))))\<rparr>"

lemma NewWriter_written: "NewWriter = written []"
  by (simp add: NewWriter_def written_def)

text \<open>A header and all its data extend what is written by one entry.\<close>

lemma write_entry:
  assumes "ustar_ok name mode (length data)"
  shows "\<exists>tw. WriteHeader oh name mode (length data) (written es) = (None, tw) \<and>
    Write data tw = (None, written (es @ [(name, mode, data)]))"
  using assms
  by (auto simp: WriteHeader_def Write_def written_def archive_snoc entry_bytes_def entry_pad_def Let_def zeros_def)

text \<open>Reading takes the entries off the front again.\<close>

lemma tar_next_archive:
  assumes "entry_ok e"
  shows "tar_next other (archive (e # es)) = TarEntry (fst e) (Inr (snd (snd e))) (archive es)"
proof -
  obtain name mode data where e: "e = (name, mode, data)" by (cases e) auto
  have ok: "ustar_ok name mode (length data)" using assms e by (simp add: entry_ok_def)
  have len: "length (header_block name mode (length data)) = 512" using header_plain(2)[OF ok] .
  show ?thesis
  proof (cases es)
    case Nil
    then show ?thesis
      using tar_next_header[OF ok, of other "[]"] len by (simp add: e entry_bytes_def)
  next
    case (Cons d ds)
    then show ?thesis
      using tar_next_header[OF ok, of other "entry_pad e @ archive es"] len
      by (simp add: e entry_bytes_def entry_pad_def zeros_def)
  qed
qed

end
