(* ===== verification/Streamer.thy ===== *)
theory Streamer
  imports Go_Encoding
begin

text \<open>
  \<^verbatim>\<open>clib/streamer.cpp\<close>: the frame around compressed and encrypted data, the encryption of a message
  in pieces, the derivation of keys, and the C interface with the memory it hands out.  LZ4 and
  OpenSSL are the fields of a record, one field per call.  They take their sizes as \<^verbatim>\<open>int\<close>, so the
  casts from \<^verbatim>\<open>size_t\<close> are part of the model.  \<^verbatim>\<open>malloc\<close> does not fail, and a C++ exception is its
  message.
\<close>

subsection \<open>The libraries\<close>

text \<open>
  \<^verbatim>\<open>LZ4_compress_default\<close> gives no bytes when it fails; after the data it takes their size and the
  capacity of the output, and so does \<^verbatim>\<open>LZ4_decompress_safe\<close>.  The cipher context of OpenSSL is a value that every call turns into the next;
  \<^term>\<open>None\<close> is a return code other than 1.  \<^verbatim>\<open>EVP_EncryptInit_ex\<close> is called once with the cipher and
  once with key and nonce, which are two fields here, and the control codes are a field each.
\<close>

record 'c crypto_lib =
  LZ4_compressBound :: "int \<Rightarrow> int"
  LZ4_compress_default :: "bytes \<Rightarrow> int \<Rightarrow> int \<Rightarrow> bytes"
  LZ4_decompress_safe :: "bytes \<Rightarrow> int \<Rightarrow> int \<Rightarrow> bytes option"
  EVP_CIPHER_CTX_new :: "'c option"
  EncryptInit_cipher :: "'c \<Rightarrow> 'c option"
  EncryptInit_key :: "bytes \<Rightarrow> bytes \<Rightarrow> 'c \<Rightarrow> 'c option"
  EVP_EncryptUpdate :: "bytes \<Rightarrow> int \<Rightarrow> 'c \<Rightarrow> (bytes \<times> 'c) option"
  EVP_EncryptFinal_ex :: "'c \<Rightarrow> (bytes \<times> 'c) option"
  DecryptInit_cipher :: "'c \<Rightarrow> 'c option"
  DecryptInit_key :: "bytes \<Rightarrow> bytes \<Rightarrow> 'c \<Rightarrow> 'c option"
  EVP_DecryptUpdate :: "bytes \<Rightarrow> int \<Rightarrow> 'c \<Rightarrow> (bytes \<times> 'c) option"
  EVP_DecryptFinal_ex :: "'c \<Rightarrow> bytes option"
  GCM_SET_IVLEN :: "nat \<Rightarrow> 'c \<Rightarrow> 'c option"
  GCM_GET_TAG :: "nat \<Rightarrow> 'c \<Rightarrow> bytes option"
  GCM_SET_TAG :: "bytes \<Rightarrow> 'c \<Rightarrow> 'c option"
  PKCS5_PBKDF2_HMAC :: "bytes \<Rightarrow> int \<Rightarrow> bytes \<Rightarrow> int \<Rightarrow> int \<Rightarrow> int \<Rightarrow> bytes option"
  RAND_bytes :: "int \<Rightarrow> bytes option"

text \<open>The cast \<^verbatim>\<open>(int)\<close> of a size: the low 32 bits, signed.\<close>

definition c_int :: "nat \<Rightarrow> int" where
  "c_int n = sint (word_of_nat n :: 32 word)"

lemma c_int_small [simp]: "n < 2147483648 \<Longrightarrow> c_int n = int n"
  by (simp add: c_int_def signed_of_nat signed_take_bit_int_eq_self)

lemma c_int_truncates: "c_int 4294967296 = 0" "c_int 2147483648 = - 2147483648"
  by (simp_all add: c_int_def)

definition need :: "string \<Rightarrow> 'a option \<Rightarrow> string + 'a" where
  "need e x = (case x of None \<Rightarrow> Inl e | Some a \<Rightarrow> Inr a)"

definition ok_then :: "string + 'a \<Rightarrow> ('a \<Rightarrow> string + 'b) \<Rightarrow> string + 'b" where
  "ok_then r f = (case r of Inl e \<Rightarrow> Inl e | Inr a \<Rightarrow> f a)"

lemma need_Inr [simp]: "need e x = Inr a \<longleftrightarrow> x = Some a"
  by (simp add: need_def split: option.split)

lemma need_Some [simp]: "need e (Some a) = Inr a"
  by (simp add: need_def)

lemma ok_then_Inr: "ok_then r f = Inr b \<longleftrightarrow> (\<exists>a. r = Inr a \<and> f a = Inr b)"
  by (simp add: ok_then_def split: sum.split)

lemma ok_then_simps [simp]: "ok_then (Inr a) f = f a" "ok_then (Inl e) f = Inl e"
  by (simp_all add: ok_then_def)

subsection \<open>Lengths in front of the data\<close>

definition byte_of :: "32 word \<Rightarrow> char" where
  "byte_of v = char_of (unat (v AND 255))"

definition write_u32_be :: "32 word \<Rightarrow> bytes" where
  "write_u32_be v = [byte_of (drop_bit 24 v), byte_of (drop_bit 16 v), byte_of (drop_bit 8 v), byte_of v]"

definition word_of :: "char \<Rightarrow> 32 word" where
  "word_of c = word_of_nat (of_char c)"

definition read_u32_be :: "bytes \<Rightarrow> 32 word" where
  "read_u32_be buf =
     push_bit 24 (word_of (buf ! 0)) OR push_bit 16 (word_of (buf ! 1)) OR push_bit 8 (word_of (buf ! 2)) OR word_of (buf ! 3)"

lemma word_of_byte: "word_of (byte_of v) = take_bit 8 v"
proof -
  have mask: "v AND 255 = take_bit 8 v" by (simp add: take_bit_eq_mask mask_eq_exp_minus_1)
  have "unat (take_bit 8 v) < 256" by (simp add: unsigned_take_bit_eq take_bit_nat_less_exp[of 8, simplified])
  then show ?thesis by (simp add: word_of_def byte_of_def mask)
qed

lemma bytes_of_word:
  "push_bit 24 (take_bit 8 (drop_bit 24 v)) OR push_bit 16 (take_bit 8 (drop_bit 16 v)) OR
   push_bit 8 (take_bit 8 (drop_bit 8 v)) OR take_bit 8 v = (v :: 32 word)"
proof (rule bit_word_eqI)
  fix n
  assume n: "n < LENGTH(32)"
  consider "n < 8" | "8 \<le> n \<and> n < 16" | "16 \<le> n \<and> n < 24" | "24 \<le> n" by linarith
  then show "bit (push_bit 24 (take_bit 8 (drop_bit 24 v)) OR push_bit 16 (take_bit 8 (drop_bit 16 v)) OR
      push_bit 8 (take_bit 8 (drop_bit 8 v)) OR take_bit 8 v) n \<longleftrightarrow> bit v n"
    using n by cases (auto simp: bit_simps)
qed

lemma read_write_u32: "read_u32_be (write_u32_be v @ r) = v"
  using bytes_of_word[of v] by (simp add: read_u32_be_def write_u32_be_def word_of_byte)

subsection \<open>Compression and encryption\<close>

definition MAX_DATA_SIZE :: nat where "MAX_DATA_SIZE = 256 * 1024 * 1024"

definition lz4_compress :: "'c crypto_lib \<Rightarrow> bytes \<Rightarrow> string + bytes" where
  "lz4_compress lib src =
     (let max_dst = LZ4_compressBound lib (c_int (length src));
          compressed = LZ4_compress_default lib src (c_int (length src)) max_dst
      in if compressed = [] then Inl ''LZ4 compression failed''
         else Inr (write_u32_be (word_of_nat (length src)) @ compressed))"

definition lz4_decompress :: "'c crypto_lib \<Rightarrow> bytes \<Rightarrow> string + bytes" where
  "lz4_decompress lib src =
     (if length src < 4 then Inl ''LZ4: too short''
      else let original_len = unat (read_u32_be src)
        in if original_len > MAX_DATA_SIZE then Inl ''LZ4: implausible original_len''
           else (case LZ4_decompress_safe lib (drop 4 src) (c_int (length src - 4)) (c_int original_len) of
             None \<Rightarrow> Inl ''LZ4 decompression failed''
           | Some dst \<Rightarrow> Inr dst))"

text \<open>Both ways of encrypting start the context with the same three calls.\<close>

definition encrypt_init :: "'c crypto_lib \<Rightarrow> bytes \<Rightarrow> bytes \<Rightarrow> 'c \<Rightarrow> string + 'c" where
  "encrypt_init lib key nonce ctx =
     ok_then (need ''EVP_EncryptInit_ex failed'' (EncryptInit_cipher lib ctx)) (\<lambda>ctx.
     ok_then (need ''EVP_CTRL_GCM_SET_IVLEN failed'' (GCM_SET_IVLEN lib 12 ctx)) (\<lambda>ctx.
     need ''EVP_EncryptInit_ex (key/nonce) failed'' (EncryptInit_key lib key nonce ctx)))"

definition aes_gcm_encrypt :: "'c crypto_lib \<Rightarrow> bytes \<Rightarrow> bytes \<Rightarrow> bytes \<Rightarrow> string + bytes" where
  "aes_gcm_encrypt lib plaintext key nonce =
     (if length key \<noteq> 32 then Inl ''key must be 32 bytes''
      else if length nonce \<noteq> 12 then Inl ''nonce must be 12 bytes''
      else
        ok_then (need ''EVP_CIPHER_CTX_new failed'' (EVP_CIPHER_CTX_new lib)) (\<lambda>ctx.
        ok_then (encrypt_init lib key nonce ctx) (\<lambda>ctx.
        ok_then (need ''EVP_EncryptUpdate failed'' (EVP_EncryptUpdate lib plaintext (c_int (length plaintext)) ctx)) (\<lambda>(ciphertext, ctx).
        ok_then (need ''EVP_EncryptFinal_ex failed'' (EVP_EncryptFinal_ex lib ctx)) (\<lambda>(last, ctx).
        ok_then (need ''EVP_CTRL_GCM_GET_TAG failed'' (GCM_GET_TAG lib 16 ctx)) (\<lambda>tag.
        Inr (ciphertext @ last @ tag)))))))"

definition decrypt_init :: "'c crypto_lib \<Rightarrow> 'c \<Rightarrow> string + 'c" where
  "decrypt_init lib ctx =
     ok_then (need ''EVP_DecryptInit_ex failed'' (DecryptInit_cipher lib ctx)) (\<lambda>ctx.
     need ''EVP_CTRL_GCM_SET_IVLEN failed'' (GCM_SET_IVLEN lib 12 ctx))"

definition em_dash :: string where "em_dash = [CHR 0xE2, CHR 0x80, CHR 0x94]"

text \<open>The calls on the context of one decryption.\<close>

definition gcm_decrypt :: "'c crypto_lib \<Rightarrow> bytes \<Rightarrow> bytes \<Rightarrow> bytes \<Rightarrow> bytes \<Rightarrow> string + bytes" where
  "gcm_decrypt lib key nonce ciphertext tag =
     ok_then (need ''EVP_CIPHER_CTX_new failed'' (EVP_CIPHER_CTX_new lib)) (\<lambda>ctx.
     ok_then (decrypt_init lib ctx) (\<lambda>ctx.
     ok_then (need ''EVP_DecryptInit_ex (key/nonce) failed'' (DecryptInit_key lib key nonce ctx)) (\<lambda>ctx.
     ok_then (need ''EVP_DecryptUpdate failed'' (EVP_DecryptUpdate lib ciphertext (c_int (length ciphertext)) ctx)) (\<lambda>(plaintext, ctx).
     ok_then (need ''EVP_CTRL_GCM_SET_TAG failed'' (GCM_SET_TAG lib tag ctx)) (\<lambda>ctx.
     ok_then (need (''AES-GCM: authentication tag mismatch '' @ em_dash @ '' data corrupted or tampered'')
       (EVP_DecryptFinal_ex lib ctx)) (\<lambda>last.
     Inr (plaintext @ last)))))))"

definition aes_gcm_decrypt :: "'c crypto_lib \<Rightarrow> bytes \<Rightarrow> bytes \<Rightarrow> bytes \<Rightarrow> string + bytes" where
  "aes_gcm_decrypt lib ciphertext key nonce =
     (if length key \<noteq> 32 then Inl ''key must be 32 bytes''
      else if length nonce \<noteq> 12 then Inl ''nonce must be 12 bytes''
      else if length ciphertext < 16 then Inl ''AES-GCM: ciphertext too short''
      else let actual_ct_len = length ciphertext - 16
        in gcm_decrypt lib key nonce (take actual_ct_len ciphertext) (drop actual_ct_len ciphertext))"

text \<open>The methods of \<^verbatim>\<open>Streamer\<close> for a whole message.\<close>

definition compress_encrypt :: "'c crypto_lib \<Rightarrow> bytes \<Rightarrow> bytes \<Rightarrow> bytes \<Rightarrow> string + bytes" where
  "compress_encrypt lib m_key src nonce =
     (case lz4_compress lib src of
        Inl e \<Rightarrow> Inl e
      | Inr compressed \<Rightarrow>
          (case aes_gcm_encrypt lib compressed m_key nonce of
             Inl e \<Rightarrow> Inl e
           | Inr encrypted \<Rightarrow> Inr (nonce @ encrypted)))"

definition decrypt_decompress :: "'c crypto_lib \<Rightarrow> bytes \<Rightarrow> bytes \<Rightarrow> string + bytes" where
  "decrypt_decompress lib m_key src =
     (if length src < 12 + 16 then Inl ''input too short''
      else (case aes_gcm_decrypt lib (drop 12 src) m_key (take 12 src) of
        Inl e \<Rightarrow> Inl e
      | Inr compressed \<Rightarrow> lz4_decompress lib compressed))"

subsection \<open>A message in pieces\<close>

text \<open>
  The object: its key, and the buffer and the context behind it.  Its context is made with it, and
  a message is a call of \<^verbatim>\<open>begin\<close>, one of \<^verbatim>\<open>update\<close> per piece, and one of \<^verbatim>\<open>final\<close>.
\<close>

record 'c streamer =
  m_key :: bytes
  impl_buffer :: bytes
  impl_ctx :: 'c

definition new_streamer :: "'c crypto_lib \<Rightarrow> bytes \<Rightarrow> string + 'c streamer" where
  "new_streamer lib key =
     ok_then (need ''EVP_CIPHER_CTX_new failed'' (EVP_CIPHER_CTX_new lib)) (\<lambda>ctx.
     Inr \<lparr>m_key = key, impl_buffer = [], impl_ctx = ctx\<rparr>)"

definition encrypt_begin :: "'c crypto_lib \<Rightarrow> bytes \<Rightarrow> 'c streamer \<Rightarrow> string + 'c streamer" where
  "encrypt_begin lib nonce s =
     ok_then (encrypt_init lib (m_key s) nonce (impl_ctx s)) (\<lambda>ctx.
     Inr (s\<lparr>impl_ctx := ctx, impl_buffer := []\<rparr>))"

definition encrypt_update :: "'c crypto_lib \<Rightarrow> bytes \<Rightarrow> 'c streamer \<Rightarrow> string + 'c streamer" where
  "encrypt_update lib chunk s =
     ok_then (need ''EVP_EncryptUpdate failed'' (EVP_EncryptUpdate lib chunk (c_int (length chunk)) (impl_ctx s))) (\<lambda>(out, ctx).
     Inr (s\<lparr>impl_ctx := ctx, impl_buffer := impl_buffer s @ out\<rparr>))"

definition encrypt_final :: "'c crypto_lib \<Rightarrow> 'c streamer \<Rightarrow> string + (bytes \<times> 'c streamer)" where
  "encrypt_final lib s =
     ok_then (need ''EVP_EncryptFinal_ex failed'' (EVP_EncryptFinal_ex lib (impl_ctx s))) (\<lambda>(out, ctx).
     ok_then (need ''EVP_CTRL_GCM_GET_TAG failed'' (GCM_GET_TAG lib 16 ctx)) (\<lambda>tag.
     let buffer = impl_buffer s @ out @ tag
     in Inr (buffer, s\<lparr>impl_ctx := ctx, impl_buffer := buffer\<rparr>)))"

text \<open>The key and the nonce never reach the context of a decryption in pieces.\<close>

definition decrypt_begin :: "'c crypto_lib \<Rightarrow> 'c streamer \<Rightarrow> string + 'c streamer" where
  "decrypt_begin lib s =
     ok_then (decrypt_init lib (impl_ctx s)) (\<lambda>ctx.
     Inr (s\<lparr>impl_ctx := ctx, impl_buffer := []\<rparr>))"

definition decrypt_update :: "'c crypto_lib \<Rightarrow> bytes \<Rightarrow> 'c streamer \<Rightarrow> string + 'c streamer" where
  "decrypt_update lib chunk s =
     ok_then (need ''EVP_DecryptUpdate failed'' (EVP_DecryptUpdate lib chunk (c_int (length chunk)) (impl_ctx s))) (\<lambda>(out, ctx).
     Inr (s\<lparr>impl_ctx := ctx, impl_buffer := impl_buffer s @ out\<rparr>))"

definition decrypt_final :: "'c crypto_lib \<Rightarrow> 'c streamer \<Rightarrow> string + (bytes \<times> 'c streamer)" where
  "decrypt_final lib s =
     ok_then (need ''AES-GCM: authentication failed'' (EVP_DecryptFinal_ex lib (impl_ctx s))) (\<lambda>out.
     let buffer = impl_buffer s @ out
     in Inr (buffer, s\<lparr>impl_buffer := buffer\<rparr>))"

subsection \<open>Keys\<close>

text \<open>The return code and the key written on success.\<close>

definition derive_pbkdf2 :: "'c crypto_lib \<Rightarrow> bytes \<Rightarrow> bytes \<Rightarrow> int \<times> bytes option" where
  "derive_pbkdf2 lib passphrase salt =
     (case PKCS5_PBKDF2_HMAC lib passphrase (c_int (length passphrase)) salt (c_int (length salt)) 100000 32 of
        Some key \<Rightarrow> (0, Some key)
      | None \<Rightarrow> (-1, None))"

definition generate_salt :: "'c crypto_lib \<Rightarrow> nat \<Rightarrow> string + bytes" where
  "generate_salt lib len = need ''RAND_bytes failed'' (RAND_bytes lib (c_int len))"

text \<open>A C string ends at its first zero byte.\<close>

definition streamer_derive_key :: "'c crypto_lib \<Rightarrow> bytes \<Rightarrow> bytes \<Rightarrow> int \<times> bytes option" where
  "streamer_derive_key lib passphrase salt =
     derive_pbkdf2 lib (takeWhile (\<lambda>c. c \<noteq> CHR 0x00) passphrase) salt"

subsection \<open>What the libraries promise\<close>

text \<open>
  LZ4 states the bound \<^verbatim>\<open>n + n/255 + 16\<close> for sizes up to \<^verbatim>\<open>0x7E000000\<close>; what it compresses into an
  output of that capacity fits, and decompression gives it back when the output has room for it.
  AES in Galois counter mode is a cipher \<open>cipher key nonce\<close> that maps every prefix of a message to
  the prefix of its ciphertext of the same length, and a tag of 16 bytes over the ciphertext.  A
  context that was started with key and nonce stands for the part of the message it has been given;
  an update with all of its bytes gives the ciphertext that comes next, the end gives none, and
  decryption ends well exactly with the tag of the ciphertext.
\<close>

definition lz4_ok :: "'c crypto_lib \<Rightarrow> bool" where
  "lz4_ok lib \<longleftrightarrow>
     (\<forall>src. length src \<le> 0x7E000000 \<longrightarrow>
        (let n = int (length src); b = n + n div 255 + 16; c = LZ4_compress_default lib src n b
         in LZ4_compressBound lib n = b \<and> int (length c) \<le> b \<and>
            (c \<noteq> [] \<longrightarrow> LZ4_decompress_safe lib c (int (length c)) n = Some src)))"

definition cipher_ok :: "(bytes \<Rightarrow> bytes \<Rightarrow> bytes \<Rightarrow> bytes) \<Rightarrow> (bytes \<Rightarrow> bytes \<Rightarrow> bytes \<Rightarrow> bytes) \<Rightarrow> bool" where
  "cipher_ok cipher auth \<longleftrightarrow>
     (\<forall>k n p. length (cipher k n p) = length p \<and> length (auth k n p) = 16) \<and>
     (\<forall>k n p q. take (length p) (cipher k n (p @ q)) = cipher k n p)"

definition encrypts :: "'c crypto_lib \<Rightarrow> (bytes \<Rightarrow> bytes \<Rightarrow> bytes \<Rightarrow> bytes) \<Rightarrow> (bytes \<Rightarrow> bytes \<Rightarrow> bytes \<Rightarrow> bytes) \<Rightarrow>
    ('c \<Rightarrow> bytes \<Rightarrow> bytes \<Rightarrow> bytes \<Rightarrow> bool) \<Rightarrow> bool" where
  "encrypts lib cipher auth enc \<longleftrightarrow>
     (\<forall>c k n c'. encrypt_init lib k n c = Inr c' \<longrightarrow> enc c' k n []) \<and>
     (\<forall>c k n p q out c'. enc c k n p \<longrightarrow> EVP_EncryptUpdate lib q (int (length q)) c = Some (out, c') \<longrightarrow>
        out = drop (length p) (cipher k n (p @ q)) \<and> enc c' k n (p @ q)) \<and>
     (\<forall>c k n p out c' tag. enc c k n p \<longrightarrow> EVP_EncryptFinal_ex lib c = Some (out, c') \<longrightarrow>
        GCM_GET_TAG lib 16 c' = Some tag \<longrightarrow> out = [] \<and> tag = auth k n (cipher k n p)) \<and>
     (\<forall>c tag. GCM_GET_TAG lib 16 c = Some tag \<longrightarrow> length tag = 16)"

definition decrypts :: "'c crypto_lib \<Rightarrow> (bytes \<Rightarrow> bytes \<Rightarrow> bytes \<Rightarrow> bytes) \<Rightarrow> (bytes \<Rightarrow> bytes \<Rightarrow> bytes \<Rightarrow> bytes) \<Rightarrow> bool" where
  "decrypts lib cipher auth \<longleftrightarrow>
     (\<forall>k n p tag c. length k = 32 \<longrightarrow> length n = 12 \<longrightarrow> EVP_CIPHER_CTX_new lib = Some c \<longrightarrow>
        (\<exists>c1 c2 c3 c4. decrypt_init lib c = Inr c1 \<and> DecryptInit_key lib k n c1 = Some c2 \<and>
           EVP_DecryptUpdate lib (cipher k n p) (int (length p)) c2 = Some (p, c3) \<and> GCM_SET_TAG lib tag c3 = Some c4 \<and>
           EVP_DecryptFinal_ex lib c4 = (if tag = auth k n (cipher k n p) then Some [] else None)))"

definition lawful_crypto :: "'c crypto_lib \<Rightarrow> bool" where
  "lawful_crypto lib \<longleftrightarrow>
     lz4_ok lib \<and> (\<exists>cipher auth enc. cipher_ok cipher auth \<and> encrypts lib cipher auth enc \<and> decrypts lib cipher auth)"

text \<open>So a message that was encrypted is decrypted with the same key and nonce.\<close>

lemma aes_gcm_encrypt_parts:
  assumes "aes_gcm_encrypt lib p key nonce = Inr out"
  obtains c c1 ct c2 last c3 tag where "length key = 32" "length nonce = 12" "EVP_CIPHER_CTX_new lib = Some c"
    "encrypt_init lib key nonce c = Inr c1" "EVP_EncryptUpdate lib p (c_int (length p)) c1 = Some (ct, c2)"
    "EVP_EncryptFinal_ex lib c2 = Some (last, c3)" "GCM_GET_TAG lib 16 c3 = Some tag" "out = ct @ last @ tag"
  using assms by (auto simp: aes_gcm_encrypt_def ok_then_Inr split: if_splits)

lemma aes_gcm_encrypt_Inr:
  assumes "aes_gcm_encrypt lib p key nonce = Inr out" "cipher_ok cipher auth" "encrypts lib cipher auth enc"
    and small: "length p < 2147483648"
  shows "length key = 32" "length nonce = 12" "EVP_CIPHER_CTX_new lib \<noteq> None"
    "out = cipher key nonce p @ auth key nonce (cipher key nonce p)"
proof -
  obtain c c1 ct c2 last c3 tag where s: "length key = 32" "length nonce = 12" "EVP_CIPHER_CTX_new lib = Some c"
    "encrypt_init lib key nonce c = Inr c1" "EVP_EncryptUpdate lib p (c_int (length p)) c1 = Some (ct, c2)"
    "EVP_EncryptFinal_ex lib c2 = Some (last, c3)" "GCM_GET_TAG lib 16 c3 = Some tag" "out = ct @ last @ tag"
    using assms(1) by (rule aes_gcm_encrypt_parts)
  have c1: "enc c1 key nonce []" using assms(3) s(4) by (auto simp: encrypts_def)
  have "EVP_EncryptUpdate lib p (int (length p)) c1 = Some (ct, c2)" using s(5) small by simp
  then have "ct = drop (length ([] :: bytes)) (cipher key nonce ([] @ p)) \<and> enc c2 key nonce ([] @ p)"
    using assms(3) c1 unfolding encrypts_def by blast
  then have c2: "ct = cipher key nonce p" "enc c2 key nonce p" by simp_all
  have "last = [] \<and> tag = auth key nonce (cipher key nonce p)"
    using assms(3) c2(2) s(6,7) unfolding encrypts_def by blast
  then show "length key = 32" "length nonce = 12" "EVP_CIPHER_CTX_new lib \<noteq> None"
    "out = cipher key nonce p @ auth key nonce (cipher key nonce p)"
    using s c2 by simp_all
qed

lemma aes_gcm_roundtrip:
  assumes "lawful_crypto lib" "aes_gcm_encrypt lib p key nonce = Inr out" "length p < 2147483648"
  obtains ct tag where "length key = 32" "length nonce = 12" "out = ct @ tag" "length tag = 16" "length ct = length p"
    "gcm_decrypt lib key nonce ct tag = Inr p"
proof -
  obtain cipher auth enc where l: "cipher_ok cipher auth" "encrypts lib cipher auth enc" "decrypts lib cipher auth"
    using assms(1) by (auto simp: lawful_crypto_def)
  note o = aes_gcm_encrypt_Inr[OF assms(2) l(1,2) assms(3)]
  obtain c where c: "EVP_CIPHER_CTX_new lib = Some c" using o(3) by blast
  let ?ct = "cipher key nonce p" and ?tag = "auth key nonce (cipher key nonce p)"
  have len: "length ?tag = 16" "length ?ct = length p" using l(1) by (auto simp: cipher_ok_def)
  obtain c1 c2 c3 c4 where "decrypt_init lib c = Inr c1" "DecryptInit_key lib key nonce c1 = Some c2"
    "EVP_DecryptUpdate lib ?ct (int (length p)) c2 = Some (p, c3)" "GCM_SET_TAG lib ?tag c3 = Some c4"
    "EVP_DecryptFinal_ex lib c4 = Some []"
    using l(3) o(1,2) c unfolding decrypts_def by metis
  then have "gcm_decrypt lib key nonce ?ct ?tag = Inr p" using c len assms(3) by (simp add: gcm_decrypt_def)
  then show ?thesis using that o(1,2,4) len by blast
qed

text \<open>Whatever the size, the output ends with a tag of 16 bytes.\<close>

lemma aes_gcm_encrypt_tag:
  assumes "lawful_crypto lib" "aes_gcm_encrypt lib p key nonce = Inr out"
  obtains ct tag where "out = ct @ tag" "length tag = 16"
proof -
  obtain cipher auth enc where l: "encrypts lib cipher auth enc"
    using assms(1) by (auto simp: lawful_crypto_def)
  obtain c ct last tag where s: "GCM_GET_TAG lib 16 c = Some tag" "out = ct @ last @ tag"
    using assms(2) by (rule aes_gcm_encrypt_parts)
  have "length tag = 16" using l s(1) unfolding encrypts_def by blast
  then show ?thesis using s(2) that[of "ct @ last" tag] by simp
qed

definition lz4_bytes :: "'c crypto_lib \<Rightarrow> bytes \<Rightarrow> bytes" where
  "lz4_bytes lib src = LZ4_compress_default lib src (c_int (length src)) (LZ4_compressBound lib (c_int (length src)))"

lemma compress_encrypt_Inr:
  assumes "compress_encrypt lib key src nonce = Inr out"
  obtains encrypted where "out = nonce @ encrypted" "length key = 32" "length nonce = 12"
    "aes_gcm_encrypt lib (write_u32_be (word_of_nat (length src)) @ lz4_bytes lib src) key nonce = Inr encrypted"
    "lz4_bytes lib src \<noteq> []"
proof -
  obtain encrypted where e: "out = nonce @ encrypted"
    "aes_gcm_encrypt lib (write_u32_be (word_of_nat (length src)) @ lz4_bytes lib src) key nonce = Inr encrypted"
    "lz4_bytes lib src \<noteq> []"
    using assms by (auto simp: compress_encrypt_def lz4_compress_def lz4_bytes_def Let_def split: sum.splits if_splits)
  then have "length key = 32" "length nonce = 12" by (auto simp: aes_gcm_encrypt_def split: if_splits)
  then show ?thesis using that e by blast
qed

lemma lz4_small:
  assumes "lawful_crypto lib" "length src \<le> MAX_DATA_SIZE"
  shows "length (lz4_bytes lib src) < 2147483644"
    "lz4_bytes lib src \<noteq> [] \<Longrightarrow>
       LZ4_decompress_safe lib (lz4_bytes lib src) (int (length (lz4_bytes lib src))) (int (length src)) = Some src"
proof -
  let ?n = "int (length src)"
  have n: "?n \<le> 268435456" using assms(2) by (simp add: MAX_DATA_SIZE_def)
  have "length src \<le> 0x7E000000" using n by simp
  then have l: "LZ4_compressBound lib ?n = ?n + ?n div 255 + 16"
    "int (length (LZ4_compress_default lib src ?n (?n + ?n div 255 + 16))) \<le> ?n + ?n div 255 + 16"
    "LZ4_compress_default lib src ?n (?n + ?n div 255 + 16) \<noteq> [] \<Longrightarrow>
      LZ4_decompress_safe lib (LZ4_compress_default lib src ?n (?n + ?n div 255 + 16))
        (int (length (LZ4_compress_default lib src ?n (?n + ?n div 255 + 16)))) ?n = Some src"
    using assms(1) unfolding lawful_crypto_def lz4_ok_def Let_def by blast+
  have c: "lz4_bytes lib src = LZ4_compress_default lib src ?n (?n + ?n div 255 + 16)"
    using n l(1) by (simp add: lz4_bytes_def)
  have "?n div 255 \<le> ?n" by simp
  then show "length (lz4_bytes lib src) < 2147483644" using l(2) n unfolding c by linarith
  show "LZ4_decompress_safe lib (lz4_bytes lib src) (int (length (lz4_bytes lib src))) (int (length src)) = Some src"
    if "lz4_bytes lib src \<noteq> []"
    using l(3) that unfolding c by blast
qed

lemma decrypt_frame:
  assumes "lawful_crypto lib" "compress_encrypt lib key src nonce = Inr out" "length src \<le> MAX_DATA_SIZE"
  shows "decrypt_decompress lib key out = Inr src"
proof -
  let ?p = "write_u32_be (word_of_nat (length src)) @ lz4_bytes lib src"
  obtain encrypted where o: "out = nonce @ encrypted" "length key = 32" "length nonce = 12"
    "aes_gcm_encrypt lib ?p key nonce = Inr encrypted" "lz4_bytes lib src \<noteq> []"
    using assms(2) by (rule compress_encrypt_Inr)
  have len: "length (write_u32_be v) = 4" for v by (simp add: write_u32_be_def)
  note lz4 = lz4_small[OF assms(1,3)]
  have "length ?p < 2147483648" using lz4(1) by (simp add: len)
  from aes_gcm_roundtrip[OF assms(1) o(4) this] obtain ct tag where
    t: "encrypted = ct @ tag" "length tag = 16" "gcm_decrypt lib key nonce ct tag = Inr ?p" by metis
  have "unat (word_of_nat (length src) :: 32 word) = length src"
    using assms(3) by (simp add: MAX_DATA_SIZE_def unsigned_of_nat take_bit_nat_eq_self)
  moreover have "drop 4 (write_u32_be v @ x) = x" for v x by (simp add: len)
  moreover have "c_int (length src) = int (length src)" "c_int (length (lz4_bytes lib src)) = int (length (lz4_bytes lib src))"
    using assms(3) lz4(1) by (simp_all add: MAX_DATA_SIZE_def)
  ultimately have "lz4_decompress lib ?p = Inr src"
    using lz4(2)[OF o(5)] assms(3) by (simp add: lz4_decompress_def read_write_u32 Let_def len linorder_not_less)
  then show ?thesis using o(1-3) t by (simp add: decrypt_decompress_def aes_gcm_decrypt_def Let_def)
qed

text \<open>In pieces: the context and the buffer always stand for the pieces so far.\<close>

fun encrypt_updates :: "'c crypto_lib \<Rightarrow> bytes list \<Rightarrow> 'c streamer \<Rightarrow> string + 'c streamer" where
  "encrypt_updates lib [] s = Inr s"
| "encrypt_updates lib (c # cs) s = ok_then (encrypt_update lib c s) (encrypt_updates lib cs)"

lemma encrypt_updates_state:
  assumes "cipher_ok cipher auth" "encrypts lib cipher auth enc"
  shows "encrypt_updates lib cs s = Inr s' \<Longrightarrow> enc (impl_ctx s) k n p \<Longrightarrow> impl_buffer s = cipher k n p \<Longrightarrow>
    length (concat cs) < 2147483648 \<Longrightarrow>
    enc (impl_ctx s') k n (p @ concat cs) \<and> impl_buffer s' = cipher k n (p @ concat cs)"
proof (induction cs arbitrary: s p)
  case (Cons c cs)
  have small: "length c < 2147483648" "length (concat cs) < 2147483648" using Cons.prems(4) by simp_all
  obtain out ctx where u: "EVP_EncryptUpdate lib c (int (length c)) (impl_ctx s) = Some (out, ctx)"
    "encrypt_updates lib cs (s\<lparr>impl_ctx := ctx, impl_buffer := impl_buffer s @ out\<rparr>) = Inr s'"
    using Cons.prems(1) small(1) by (auto simp: ok_then_Inr encrypt_update_def)
  have out: "out = drop (length p) (cipher k n (p @ c)) \<and> enc ctx k n (p @ c)"
    using assms(2) Cons.prems(2) u(1) unfolding encrypts_def by blast
  have "take (length p) (cipher k n (p @ c)) = cipher k n p" using assms(1) by (simp add: cipher_ok_def)
  then have "impl_buffer s @ out = cipher k n (p @ c)"
    using Cons.prems(3) out append_take_drop_id by metis
  then show ?case using Cons.IH[OF u(2), of "p @ c"] out small(2) by simp
qed simp

subsection \<open>The C interface\<close>

text \<open>
  Memory is a list of live blocks.  An operation on a block that is not live is undefined in C++,
  which is \<^term>\<open>None\<close> here.
\<close>

record heap =
  blocks :: "(nat \<times> bytes) list"
  next_addr :: nat

definition malloc :: "bytes \<Rightarrow> heap \<Rightarrow> nat \<times> heap" where
  "malloc b h = (next_addr h, h\<lparr>blocks := (next_addr h, b) # blocks h, next_addr := next_addr h + 1\<rparr>)"

definition free_block :: "nat \<Rightarrow> heap \<Rightarrow> heap option" where
  "free_block a h =
     (if map_of (blocks h) a = None then None
      else Some (h\<lparr>blocks := filter (\<lambda>b. fst b \<noteq> a) (blocks h)\<rparr>))"

definition wf_heap :: "heap \<Rightarrow> bool" where
  "wf_heap h \<longleftrightarrow> (\<forall>b \<in> set (blocks h). fst b < next_addr h)"

record StreamerResult_C =
  res_data :: "nat option"
  res_len :: nat
  res_error :: int
  res_error_msg :: string

definition failed_result :: "string \<Rightarrow> StreamerResult_C" where
  "failed_result msg = \<lparr>res_data = None, res_len = 0, res_error = 1, res_error_msg = take 255 msg\<rparr>"

text \<open>
  Both wrappers end the same way: a \<^verbatim>\<open>ByteResult\<close> owns the block of the result, its address and
  size are copied into the C structure, and when the wrapper returns the destructor of the
  \<^verbatim>\<open>ByteResult\<close> frees the block.
\<close>

definition hand_out :: "string + bytes \<Rightarrow> heap \<Rightarrow> (StreamerResult_C \<times> heap) option" where
  "hand_out r h =
     (case r of
        Inl msg \<Rightarrow> Some (failed_result msg, h)
      | Inr out \<Rightarrow>
          (case malloc out h of
             (a, h1) \<Rightarrow>
               map_option (\<lambda>h2. (\<lparr>res_data = Some a, res_len = length out, res_error = 0, res_error_msg = []\<rparr>, h2))
                 (free_block a h1)))"

definition streamer_compress_encrypt ::
  "'c crypto_lib \<Rightarrow> bytes \<Rightarrow> bytes \<Rightarrow> bytes \<Rightarrow> heap \<Rightarrow> (StreamerResult_C \<times> heap) option"
where
  "streamer_compress_encrypt lib src key nonce h =
     hand_out (ok_then (new_streamer lib key) (\<lambda>s. compress_encrypt lib (m_key s) src nonce)) h"

definition streamer_decrypt_decompress ::
  "'c crypto_lib \<Rightarrow> bytes \<Rightarrow> bytes \<Rightarrow> heap \<Rightarrow> (StreamerResult_C \<times> heap) option"
where
  "streamer_decrypt_decompress lib src key h =
     hand_out (ok_then (new_streamer lib key) (\<lambda>s. decrypt_decompress lib (m_key s) src)) h"

definition streamer_free :: "StreamerResult_C \<Rightarrow> heap \<Rightarrow> heap option" where
  "streamer_free r h = (case res_data r of None \<Rightarrow> Some h | Some a \<Rightarrow> free_block a h)"

text \<open>What Go's \<^verbatim>\<open>C.GoBytes\<close> reads.\<close>

definition GoBytes :: "StreamerResult_C \<Rightarrow> heap \<Rightarrow> bytes option" where
  "GoBytes r h = (case res_data r of None \<Rightarrow> None | Some a \<Rightarrow> map_option (take (res_len r)) (map_of (blocks h) a))"

lemma hand_out_dangles:
  assumes "hand_out r h = Some (res, h')" "res_error res = 0"
  shows "GoBytes res h' = None" "streamer_free res h' = None"
proof -
  obtain out a h1 where r: "r = Inr out" "malloc out h = (a, h1)" "res_data res = Some a" "free_block a h1 = Some h'"
    using assms by (auto simp: hand_out_def failed_result_def split: sum.splits prod.splits)
  then have "map_of (blocks h') a = None"
    by (auto simp: free_block_def map_of_eq_None_iff split: if_splits)
  then show "GoBytes res h' = None" "streamer_free res h' = None"
    using r(3) by (simp_all add: GoBytes_def streamer_free_def free_block_def)
qed

lemma hand_out_returns: "wf_heap h \<Longrightarrow> \<exists>res h'. hand_out r h = Some (res, h') \<and> wf_heap h'"
  by (auto simp: hand_out_def malloc_def free_block_def wf_heap_def split: sum.split)

subsection \<open>Properties\<close>

text \<open>
  C10: the frame loses nothing: what \<^verbatim>\<open>compress_encrypt\<close> makes of any data up to the size limit,
  \<^verbatim>\<open>decrypt_decompress\<close> turns back into the data, and it starts with the nonce.
\<close>

theorem decrypt_decompress_inverts:
  assumes "lawful_crypto lib" and "length src \<le> MAX_DATA_SIZE"
    and "compress_encrypt lib key src nonce = Inr out"
  shows "decrypt_decompress lib key out = Inr src \<and> take 12 out = nonce"
proof -
  have "take 12 out = nonce" using assms(3) by (rule compress_encrypt_Inr) simp
  then show ?thesis using decrypt_frame[OF assms(1,3,2)] by simp
qed

text \<open>
  A library that leaves the data as it is, with a tag made from their length; a context is the
  data so far and the tag to be expected.
\<close>

definition length_tag :: "bytes \<Rightarrow> bytes" where
  "length_tag p = replicate 16 (char_of (length p))"

definition plain_crypto :: "(bytes \<times> bytes) crypto_lib" where
  "plain_crypto =
     \<lparr>LZ4_compressBound = (\<lambda>n. n + n div 255 + 16), LZ4_compress_default = (\<lambda>src n capacity. take (nat n) src),
      LZ4_decompress_safe = (\<lambda>src n capacity. if n \<le> capacity then Some (take (nat n) src) else None),
      EVP_CIPHER_CTX_new = Some ([], []),
      EncryptInit_cipher = Some, EncryptInit_key = (\<lambda>key nonce c. Some ([], [])),
      EVP_EncryptUpdate = (\<lambda>q n (p, t). Some (take (nat n) q, (p @ take (nat n) q, t))), EVP_EncryptFinal_ex = (\<lambda>c. Some ([], c)),
      DecryptInit_cipher = Some, DecryptInit_key = (\<lambda>key nonce c. Some ([], [])),
      EVP_DecryptUpdate = (\<lambda>q n (p, t). Some (take (nat n) q, (p @ take (nat n) q, t))),
      EVP_DecryptFinal_ex = (\<lambda>(p, t). if t = length_tag p then Some [] else None),
      GCM_SET_IVLEN = (\<lambda>n. Some), GCM_GET_TAG = (\<lambda>n (p, t). Some (length_tag p)),
      GCM_SET_TAG = (\<lambda>tag (p, t). Some (p, tag)),
      PKCS5_PBKDF2_HMAC = (\<lambda>passphrase n salt m rounds len. Some (replicate (nat len) CHR 0x00)),
      RAND_bytes = (\<lambda>n. Some (replicate (nat n) CHR 0x00))\<rparr>"

lemma plain_gcm:
  "cipher_ok (\<lambda>k n p. p) (\<lambda>k n. length_tag)"
  "encrypts plain_crypto (\<lambda>k n p. p) (\<lambda>k n. length_tag) (\<lambda>c k n p. fst c = p)"
  "decrypts plain_crypto (\<lambda>k n p. p) (\<lambda>k n. length_tag)"
  by (auto simp: cipher_ok_def encrypts_def decrypts_def encrypt_init_def decrypt_init_def plain_crypto_def length_tag_def)

lemma plain_crypto_lawful: "lawful_crypto plain_crypto"
  unfolding lawful_crypto_def
proof (intro conjI exI)
  show "lz4_ok plain_crypto" by (simp add: lz4_ok_def plain_crypto_def Let_def)
qed (rule plain_gcm)+

lemma plain_decrypt:
  "length ct < 2147483648 \<Longrightarrow> gcm_decrypt plain_crypto key nonce ct tag =
     (if tag = length_tag ct then Inr ct
      else Inl (''AES-GCM: authentication tag mismatch '' @ em_dash @ '' data corrupted or tampered''))"
  by (simp add: gcm_decrypt_def decrypt_init_def plain_crypto_def need_def)

definition zero_key :: bytes where "zero_key = replicate 32 CHR 0x00"

definition zero_nonce :: bytes where "zero_nonce = replicate 12 CHR 0x00"

lemma plain_compress:
  "src \<noteq> [] \<Longrightarrow> length src < 2147483644 \<Longrightarrow> compress_encrypt plain_crypto zero_key src zero_nonce =
     Inr (zero_nonce @ write_u32_be (word_of_nat (length src)) @ src @
       length_tag (write_u32_be (word_of_nat (length src)) @ src))"
  by (simp add: compress_encrypt_def lz4_compress_def aes_gcm_encrypt_def encrypt_init_def write_u32_be_def plain_crypto_def zero_key_def zero_nonce_def)

theorem decrypt_decompress_inverts_witness:
  "decrypt_decompress plain_crypto zero_key
     (zero_nonce @ write_u32_be (word_of_nat (length ''hello'')) @ ''hello'' @
      length_tag (write_u32_be (word_of_nat (length ''hello'')) @ ''hello'')) = Inr ''hello'' \<and>
   take 12 (zero_nonce @ write_u32_be (word_of_nat (length ''hello'')) @ ''hello'' @
      length_tag (write_u32_be (word_of_nat (length ''hello'')) @ ''hello'')) = zero_nonce"
  by (rule decrypt_decompress_inverts[OF plain_crypto_lawful _ plain_compress]) (simp_all add: MAX_DATA_SIZE_def)

text \<open>
  C16: encrypting in pieces is encrypting the whole, for messages below 2 GiB: after
  \<^verbatim>\<open>encrypt_begin\<close>, any number of updates and \<^verbatim>\<open>encrypt_final\<close>, the result is what \<^verbatim>\<open>aes_gcm_encrypt\<close>
  makes of the pieces put together, however they were cut, and it decrypts to them.  From 2 GiB on
  the cast of the size to \<^verbatim>\<open>int\<close> makes a different number of it.
\<close>

theorem streamed_encryption_is_whole:
  assumes "lawful_crypto lib" and "length (concat cs) < 2 ^ 31" and "encrypt_begin lib nonce s = Inr s1" and "encrypt_updates lib cs s1 = Inr s2"
    and "encrypt_final lib s2 = Inr (out, s3)" and "aes_gcm_encrypt lib (concat cs) (m_key s) nonce = Inr whole"
  shows "out = whole \<and> aes_gcm_decrypt lib out (m_key s) nonce = Inr (concat cs)"
proof -
  have small: "length (concat cs) < 2147483648" using assms(2) by simp
  obtain cipher auth enc where l: "cipher_ok cipher auth" "encrypts lib cipher auth enc"
    using assms(1) by (auto simp: lawful_crypto_def)
  have s1: "enc (impl_ctx s1) (m_key s) nonce []" "impl_buffer s1 = []"
    using assms(3) l(2) by (auto simp: encrypt_begin_def ok_then_Inr encrypts_def)
  have "length (cipher (m_key s) nonce []) = 0" using l(1) unfolding cipher_ok_def by (metis list.size(3))
  then have s2: "enc (impl_ctx s2) (m_key s) nonce (concat cs)" "impl_buffer s2 = cipher (m_key s) nonce (concat cs)"
    using encrypt_updates_state[OF l assms(4), of "m_key s" nonce "[]"] s1 small by simp_all
  obtain o2 ctx tag where f: "EVP_EncryptFinal_ex lib (impl_ctx s2) = Some (o2, ctx)" "GCM_GET_TAG lib 16 ctx = Some tag"
    "out = impl_buffer s2 @ o2 @ tag"
    using assms(5) by (auto simp: encrypt_final_def ok_then_Inr Let_def)
  have "o2 = [] \<and> tag = auth (m_key s) nonce (cipher (m_key s) nonce (concat cs))"
    using l(2) s2(1) f(1,2) unfolding encrypts_def by blast
  then have "out = whole" using f(3) s2(2) aes_gcm_encrypt_Inr(4)[OF assms(6) l small] by simp
  moreover obtain ct tg where "length (m_key s) = 32" "length nonce = 12" "whole = ct @ tg" "length tg = 16"
    "gcm_decrypt lib (m_key s) nonce ct tg = Inr (concat cs)"
    using aes_gcm_roundtrip[OF assms(1,6) small] by metis
  ultimately show ?thesis by (simp add: aes_gcm_decrypt_def Let_def)
qed

theorem streamed_encryption_is_whole_witness:
  "''hello'' @ length_tag ''hello'' = ''hello'' @ length_tag ''hello'' \<and>
   aes_gcm_decrypt plain_crypto (''hello'' @ length_tag ''hello'') zero_key zero_nonce = Inr ''hello''"
proof -
  let ?s = "\<lparr>m_key = zero_key, impl_buffer = ''x'', impl_ctx = (''y'', [])\<rparr>"
  let ?s1 = "\<lparr>m_key = zero_key, impl_buffer = [], impl_ctx = ([], [])\<rparr>"
  let ?s2 = "\<lparr>m_key = zero_key, impl_buffer = ''hello'', impl_ctx = (''hello'', [])\<rparr>"
  let ?s3 = "\<lparr>m_key = zero_key, impl_buffer = ''hello'' @ length_tag ''hello'', impl_ctx = (''hello'', [])\<rparr>"
  have b: "encrypt_begin plain_crypto zero_nonce ?s = Inr ?s1"
    by (simp add: encrypt_begin_def encrypt_init_def plain_crypto_def)
  have u: "encrypt_updates plain_crypto [''hel'', ''lo''] ?s1 = Inr ?s2"
    by (simp add: encrypt_update_def plain_crypto_def)
  have e: "encrypt_final plain_crypto ?s2 = Inr (''hello'' @ length_tag ''hello'', ?s3)"
    by (simp add: encrypt_final_def plain_crypto_def Let_def)
  have w: "aes_gcm_encrypt plain_crypto (concat [''hel'', ''lo'']) (m_key ?s) zero_nonce =
      Inr (''hello'' @ length_tag ''hello'')"
    by (simp add: aes_gcm_encrypt_def encrypt_init_def plain_crypto_def zero_key_def zero_nonce_def)
  show ?thesis using streamed_encryption_is_whole[OF plain_crypto_lawful _ b u e w] by simp
qed

text \<open>
  The C interface hands out memory that is already freed: whenever \<^verbatim>\<open>streamer_compress_encrypt\<close>
  reports success, reading its result is undefined, and so is freeing it, which the caller must.
\<close>

theorem streamer_result_dangles:
  assumes "streamer_compress_encrypt lib src key nonce h = Some (res, h')" and "res_error res = 0"
  shows "GoBytes res h' = None \<and> streamer_free res h' = None"
  using assms hand_out_dangles by (simp add: streamer_compress_encrypt_def)

theorem streamer_result_dangles_witness:
  "\<exists>res h'. GoBytes res h' = None \<and> streamer_free res h' = None \<and> res_error res = 0"
proof -
  let ?out = "zero_nonce @ write_u32_be (word_of_nat (length ''hello'')) @ ''hello'' @
      length_tag (write_u32_be (word_of_nat (length ''hello'')) @ ''hello'')"
  let ?res = "\<lparr>res_data = Some 0, res_len = length ?out, res_error = 0, res_error_msg = []\<rparr>"
  have "streamer_compress_encrypt plain_crypto ''hello'' zero_key zero_nonce \<lparr>blocks = [], next_addr = 0\<rparr> =
      Some (?res, \<lparr>blocks = [], next_addr = 1\<rparr>)"
    using plain_compress[of "''hello''"]
    by (simp add: streamer_compress_encrypt_def new_streamer_def plain_crypto_def hand_out_def malloc_def free_block_def)
  from streamer_result_dangles[OF this] show ?thesis by (intro exI[of _ ?res] exI) simp
qed

end
