(* ===== verification/Transport.thy ===== *)
theory Transport
  imports Extractor Go_Tar Streamer
begin

text \<open>
  \<^verbatim>\<open>internal/extractor/transport.go\<close> and \<^verbatim>\<open>transport_stub.go\<close>: packing the state of a server into an
  encrypted archive, unpacking it and sending it.  The YAML library is an argument, and so are the
  bytes \<^verbatim>\<open>crypto/rand\<close> gives.  The C functions are the fields of a record, of which \<open>streamer_api\<close> is
  the one the source links.
\<close>

record StreamState =
  ss_Data :: bytes
  ss_Key :: bytes
  ss_Nonce :: bytes
  ss_Checksum :: string
  ss_Size :: int

datatype transport_error =
    CppError string | ZeroBytes
  | MarshalFailed string | HeaderFailed string | MetadataFailed string
  | KeyFailed string | NonceFailed string | CompressionFailed transport_error
  | CppDecryption string | EmptyPlaintext
  | TarReadFailed string | EntryReadFailed string string | UnmarshalFailed string
  | TransmissionFailed string | CgoDisabled

subsection \<open>The C functions\<close>

record c_api =
  c_compress_encrypt :: "bytes \<Rightarrow> bytes \<Rightarrow> bytes \<Rightarrow> heap \<Rightarrow> (StreamerResult_C \<times> heap) option"
  c_decrypt_decompress :: "bytes \<Rightarrow> bytes \<Rightarrow> heap \<Rightarrow> (StreamerResult_C \<times> heap) option"

definition streamer_api :: "'c crypto_lib \<Rightarrow> c_api" where
  "streamer_api lib =
     \<lparr>c_compress_encrypt = streamer_compress_encrypt lib, c_decrypt_decompress = streamer_decrypt_decompress lib\<rparr>"

text \<open>
  A call from Go: it returns, ends with a run-time panic, goes on for ever, or its behaviour is
  undefined.
\<close>

datatype 'a go_outcome = Returned 'a heap | Panicked | Diverges | Undefined

text \<open>
  Both callers treat the result alike: test the error, test the length, copy the bytes, and free
  the result on the way out.
\<close>

definition take_result ::
  "(StreamerResult_C \<times> heap) option \<Rightarrow> (string \<Rightarrow> transport_error) \<Rightarrow> transport_error \<Rightarrow> (transport_error + bytes) go_outcome"
where
  "take_result r on_error on_empty =
     (case r of
        None \<Rightarrow> Undefined
      | Some (result, h1) \<Rightarrow>
          (let finish = (\<lambda>v. case streamer_free result h1 of None \<Rightarrow> Undefined | Some h2 \<Rightarrow> Returned v h2)
           in if res_error result \<noteq> 0 then finish (Inl (on_error (res_error_msg result)))
              else if res_len result = 0 then finish (Inl on_empty)
              else (case GoBytes result h1 of None \<Rightarrow> Undefined | Some b \<Rightarrow> finish (Inr b))))"

text \<open>Taking the address of the first byte of empty data panics.\<close>

definition CompressAndEncrypt :: "c_api \<Rightarrow> bytes \<Rightarrow> bytes \<Rightarrow> bytes \<Rightarrow> heap \<Rightarrow> (transport_error + bytes) go_outcome" where
  "CompressAndEncrypt api data key nonce h =
     (if data = [] then Panicked
      else take_result (c_compress_encrypt api data key nonce h) CppError ZeroBytes)"

subsection \<open>Packing\<close>

definition add_file :: "other_header \<Rightarrow> string \<Rightarrow> nat \<Rightarrow> string \<times> bytes \<Rightarrow> tar_writer \<Rightarrow> tar_writer" where
  "add_file oh dir mode e tw =
     (case WriteHeader oh (dir @ ''/'' @ fst e) mode (length (snd e)) tw of
        (Some _, tw1) \<Rightarrow> tw1
      | (None, tw1) \<Rightarrow> snd (Write (snd e) tw1))"

definition addToTar :: "other_header \<Rightarrow> string \<Rightarrow> nat \<Rightarrow> bytes gomap \<Rightarrow> tar_writer \<Rightarrow> tar_writer" where
  "addToTar oh dir mode m tw = fold (add_file oh dir mode) m tw"

text \<open>The modes are \<^verbatim>\<open>0600\<close> for the files and \<^verbatim>\<open>0644\<close> for metadata and public keys.\<close>

definition pack_files :: "other_header \<Rightarrow> SystemState \<Rightarrow> tar_writer \<Rightarrow> tar_writer" where
  "pack_files oh st tw =
     addToTar oh ''ssh_keys'' 420 (SSHPublicKeys st)
      (addToTar oh ''configs'' 384 (Configs st)
        (addToTar oh ''databases'' 384 (Databases st)
          (addToTar oh ''certs'' 384 (Certificates st) tw)))"

text \<open>The bytes of the archive, taken before the writer is closed.\<close>

definition pack_archive ::
  "other_header \<Rightarrow> (SystemState \<Rightarrow> string + bytes) \<Rightarrow> SystemState \<Rightarrow> transport_error + bytes"
where
  "pack_archive oh yaml_marshal st =
     (case yaml_marshal st of
        Inl e \<Rightarrow> Inl (MarshalFailed e)
      | Inr metadata \<Rightarrow>
          (case WriteHeader oh ''STATE.yaml'' 420 (length metadata) NewWriter of
             (Some e, _) \<Rightarrow> Inl (HeaderFailed e)
           | (None, tw1) \<Rightarrow>
               (case Write metadata tw1 of
                  (Some e, _) \<Rightarrow> Inl (MetadataFailed e)
                | (None, tw2) \<Rightarrow> Inr (tw_buf (pack_files oh st tw2)))))"

definition PackSystemState ::
  "c_api \<Rightarrow> other_header \<Rightarrow> (SystemState \<Rightarrow> string + bytes) \<Rightarrow> string + bytes \<Rightarrow> string + bytes \<Rightarrow>
   SystemState \<Rightarrow> heap \<Rightarrow> (transport_error + StreamState) go_outcome"
where
  "PackSystemState api oh yaml_marshal rand_key rand_nonce st h =
     (case pack_archive oh yaml_marshal st of
        Inl e \<Rightarrow> Returned (Inl e) h
      | Inr tarData \<Rightarrow>
          (case rand_key of
             Inl e \<Rightarrow> Returned (Inl (KeyFailed e)) h
           | Inr key \<Rightarrow>
               (case rand_nonce of
                  Inl e \<Rightarrow> Returned (Inl (NonceFailed e)) h
                | Inr nonce \<Rightarrow>
                    (case CompressAndEncrypt api tarData key nonce h of
                       Panicked \<Rightarrow> Panicked
                     | Diverges \<Rightarrow> Diverges
                     | Undefined \<Rightarrow> Undefined
                     | Returned (Inl e) h1 \<Rightarrow> Returned (Inl (CompressionFailed e)) h1
                     | Returned (Inr encrypted) h1 \<Rightarrow>
                         Returned (Inr \<lparr>ss_Data = encrypted, ss_Key = key, ss_Nonce = nonce,
                                        ss_Checksum = [], ss_Size = int (length tarData)\<rparr>) h1))))"

subsection \<open>Unpacking\<close>

definition no_state :: SystemState where
  "no_state =
     \<lparr>st_Hostname = [], st_Location = [], st_Role = [], st_Timestamp = 0, SystemInfo = [], Certificates = [],
      Databases = [], Configs = [], SSHPublicKeys = [], st_Docker = None, st_Nomad = None\<rparr>"

text \<open>No two of the four prefixes fit one name, so the order in which Go tries them is open.\<close>

definition put_file :: "string \<Rightarrow> bytes \<Rightarrow> SystemState \<Rightarrow> SystemState" where
  "put_file name data st =
     (if HasPrefix name ''certs/'' then st\<lparr>Certificates := map_put (TrimPrefix name ''certs/'') data (Certificates st)\<rparr>
      else if HasPrefix name ''databases/'' then st\<lparr>Databases := map_put (TrimPrefix name ''databases/'') data (Databases st)\<rparr>
      else if HasPrefix name ''configs/'' then st\<lparr>Configs := map_put (TrimPrefix name ''configs/'') data (Configs st)\<rparr>
      else if HasPrefix name ''ssh_keys/'' then st\<lparr>SSHPublicKeys := map_put (TrimPrefix name ''ssh_keys/'') data (SSHPublicKeys st)\<rparr>
      else st)"

text \<open>
  The endless loop of the source, left at the end of the archive or at the first error.  Nothing
  here makes it end: \<^term>\<open>None\<close> is a loop that goes on for ever.
\<close>

partial_function (option) unpack_loop ::
  "(bytes \<Rightarrow> tar_step) \<Rightarrow> (bytes \<Rightarrow> SystemState \<Rightarrow> string + SystemState) \<Rightarrow> bytes \<Rightarrow> SystemState \<Rightarrow>
   (transport_error + SystemState) option"
where
  "unpack_loop other yaml_unmarshal src st =
     (case tar_next other src of
        TarEOF \<Rightarrow> Some (Inr st)
      | TarError e \<Rightarrow> if e = ''EOF'' then Some (Inr st) else Some (Inl (TarReadFailed e))
      | TarEntry name r rest \<Rightarrow>
          (case r of
             Inl e \<Rightarrow> Some (Inl (EntryReadFailed name e))
           | Inr data \<Rightarrow>
               if name = ''STATE.yaml'' then
                 (case yaml_unmarshal data st of
                    Inl e \<Rightarrow> Some (Inl (UnmarshalFailed e))
                  | Inr st1 \<Rightarrow> unpack_loop other yaml_unmarshal rest st1)
               else unpack_loop other yaml_unmarshal rest (put_file name data st)))"

definition UnpackSystemState ::
  "c_api \<Rightarrow> (bytes \<Rightarrow> tar_step) \<Rightarrow> (bytes \<Rightarrow> SystemState \<Rightarrow> string + SystemState) \<Rightarrow> StreamState \<Rightarrow> heap \<Rightarrow>
   (transport_error + SystemState) go_outcome"
where
  "UnpackSystemState api other yaml_unmarshal stream h =
     (case take_result (c_decrypt_decompress api (ss_Nonce stream @ ss_Data stream) (ss_Key stream) h)
             CppDecryption EmptyPlaintext of
        Panicked \<Rightarrow> Panicked
      | Diverges \<Rightarrow> Diverges
      | Undefined \<Rightarrow> Undefined
      | Returned (Inl e) h1 \<Rightarrow> Returned (Inl e) h1
      | Returned (Inr tarData) h1 \<Rightarrow>
          (case unpack_loop other yaml_unmarshal tarData no_state of
             None \<Rightarrow> Diverges
           | Some r \<Rightarrow> Returned r h1))"

subsection \<open>Sending\<close>

definition decode_cmd :: "bytes \<Rightarrow> string \<Rightarrow> string" where
  "decode_cmd payload targetPath =
     ''echo '' @ SQ @ base64 payload @ SQ @ '' | base64 -d | sudo tee '' @ targetPath @ '' > /dev/null''"

definition TransmitState :: "'w SSHRunner \<Rightarrow> StreamState \<Rightarrow> string \<Rightarrow> ('w, transport_error option) state" where
  "TransmitState client stream targetPath =
     check TransmissionFailed (Run client (decode_cmd (ss_Nonce stream @ ss_Data stream) targetPath))"

subsection \<open>Without the C library\<close>

definition stub_CompressAndEncrypt :: "bytes \<Rightarrow> bytes \<Rightarrow> bytes \<Rightarrow> transport_error + bytes" where
  "stub_CompressAndEncrypt data key nonce = Inl CgoDisabled"

definition stub_PackSystemState :: "SystemState \<Rightarrow> transport_error + StreamState" where
  "stub_PackSystemState st =
     Inr \<lparr>ss_Data = [], ss_Key = replicate 32 CHR 0x00, ss_Nonce = replicate 12 CHR 0x00, ss_Checksum = [], ss_Size = 0\<rparr>"

subsection \<open>The archive\<close>

text \<open>The entries of the archive of a state, and when all their headers are plain.\<close>

definition file_entries :: "string \<Rightarrow> nat \<Rightarrow> bytes gomap \<Rightarrow> (string \<times> nat \<times> bytes) list" where
  "file_entries dir mode m = map (\<lambda>e. (dir @ ''/'' @ fst e, mode, snd e)) m"

definition state_entries :: "bytes \<Rightarrow> SystemState \<Rightarrow> (string \<times> nat \<times> bytes) list" where
  "state_entries metadata st =
     (''STATE.yaml'', 420, metadata) #
     file_entries ''certs'' 384 (Certificates st) @ file_entries ''databases'' 384 (Databases st) @
     file_entries ''configs'' 384 (Configs st) @ file_entries ''ssh_keys'' 420 (SSHPublicKeys st)"

lemma entry_ok_triple: "entry_ok (name, mode, data) \<longleftrightarrow> ustar_ok name mode (length data)"
  by (simp add: entry_ok_def)

lemma add_file_written:
  assumes "ustar_ok (dir @ ''/'' @ fst e) mode (length (snd e))"
  shows "add_file oh dir mode e (written es) = written (es @ [(dir @ ''/'' @ fst e, mode, snd e)])"
  using write_entry[OF assms, of oh es] by (auto simp: add_file_def)

lemma addToTar_written:
  "list_all entry_ok (file_entries dir mode m) \<Longrightarrow> addToTar oh dir mode m (written es) = written (es @ file_entries dir mode m)"
proof (induction m arbitrary: es)
  case (Cons e m)
  have "ustar_ok (dir @ ''/'' @ fst e) mode (length (snd e))" "list_all entry_ok (file_entries dir mode m)"
    using Cons.prems by (simp_all add: file_entries_def entry_ok_triple)
  then show ?case
    using Cons.IH[of "es @ [(dir @ ''/'' @ fst e, mode, snd e)]"] add_file_written[of dir e mode oh es]
    by (simp add: addToTar_def file_entries_def)
qed (simp add: addToTar_def file_entries_def)

lemma packed_archive:
  assumes "list_all entry_ok (state_entries metadata st)" "yaml_marshal st = Inr metadata"
  shows "pack_archive oh yaml_marshal st = Inr (archive (state_entries metadata st))"
proof -
  have "ustar_ok ''STATE.yaml'' 420 (length metadata)"
    using assms by (simp add: state_entries_def entry_ok_triple)
  from write_entry[OF this, of oh "[]"] obtain tw1 where
    tw1: "WriteHeader oh ''STATE.yaml'' 420 (length metadata) NewWriter = (None, tw1)"
      "Write metadata tw1 = (None, written [(''STATE.yaml'', 420, metadata)])"
    by (auto simp: NewWriter_written)
  have "pack_files oh st (written [(''STATE.yaml'', 420, metadata)]) = written (state_entries metadata st)"
    using assms by (simp add: pack_files_def addToTar_written state_entries_def)
  then show ?thesis using tw1 assms(2) by (simp add: pack_archive_def written_def)
qed

text \<open>Reading the archive is a loop over its entries.\<close>

fun unpack_entries :: "(bytes \<Rightarrow> SystemState \<Rightarrow> string + SystemState) \<Rightarrow> (string \<times> nat \<times> bytes) list \<Rightarrow> SystemState \<Rightarrow> transport_error + SystemState" where
  "unpack_entries yaml_unmarshal [] st = Inr st"
| "unpack_entries yaml_unmarshal (e # es) st =
     (if fst e = ''STATE.yaml'' then
        (case yaml_unmarshal (snd (snd e)) st of
           Inl err \<Rightarrow> Inl (UnmarshalFailed err)
         | Inr st1 \<Rightarrow> unpack_entries yaml_unmarshal es st1)
      else unpack_entries yaml_unmarshal es (put_file (fst e) (snd (snd e)) st))"

lemma unpack_archive:
  "list_all entry_ok es \<Longrightarrow> unpack_loop other yu (archive es) st = Some (unpack_entries yu es st)"
proof (induction es arbitrary: st)
  case Nil
  then show ?case by (subst unpack_loop.simps) simp
next
  case (Cons e es)
  then have n: "tar_next other (archive (e # es)) = TarEntry (fst e) (Inr (snd (snd e))) (archive es)"
    using tar_next_archive[of e other es] by simp
  show ?case
    by (subst unpack_loop.simps) (use Cons in \<open>simp add: n split: sum.split\<close>)
qed

lemma unpack_entries_append:
  "unpack_entries yu (xs @ ys) st = (case unpack_entries yu xs st of Inl e \<Rightarrow> Inl e | Inr st1 \<Rightarrow> unpack_entries yu ys st1)"
  by (induction xs arbitrary: st) (auto split: sum.split)

text \<open>The entries of one map are put into that map, and nothing else changes.\<close>

definition put_all :: "bytes gomap \<Rightarrow> bytes gomap \<Rightarrow> bytes gomap" where
  "put_all m c = foldl (\<lambda>c e. map_put (fst e) (snd e) c) c m"

lemma put_all_lookup:
  "wf_gomap m \<Longrightarrow> map_of c \<subseteq>\<^sub>m map_of m \<Longrightarrow> map_of (put_all m c) = map_of m"
proof -
  have "distinct (map fst m) \<Longrightarrow> map_of (put_all m c) = map_of c ++ map_of m" for c
  proof (induction m arbitrary: c)
    case (Cons e m)
    then have "map_of (put_all (e # m) c) = (map_of c)(fst e \<mapsto> snd e) ++ map_of m" by (simp add: put_all_def)
    moreover have "fst e \<notin> dom (map_of m)" using Cons.prems by (simp add: dom_map_of_conv_image_fst)
    ultimately show ?case by (auto simp: fun_eq_iff map_add_def split: option.split)
  qed (simp add: put_all_def)
  then show "wf_gomap m \<Longrightarrow> map_of c \<subseteq>\<^sub>m map_of m \<Longrightarrow> map_of (put_all m c) = map_of m"
    by (simp add: wf_gomap_def map_keys_def map_le_iff_map_add_commute map_add_le_mapI map_le_antisym)
qed

lemma unpack_files:
  "unpack_entries yu (file_entries ''certs'' mode m) st = Inr (st\<lparr>Certificates := put_all m (Certificates st)\<rparr>)"
  "unpack_entries yu (file_entries ''databases'' mode m) st = Inr (st\<lparr>Databases := put_all m (Databases st)\<rparr>)"
  "unpack_entries yu (file_entries ''configs'' mode m) st = Inr (st\<lparr>Configs := put_all m (Configs st)\<rparr>)"
  "unpack_entries yu (file_entries ''ssh_keys'' mode m) st = Inr (st\<lparr>SSHPublicKeys := put_all m (SSHPublicKeys st)\<rparr>)"
  by (induction m arbitrary: st) (simp_all add: file_entries_def put_all_def put_file_def HasPrefix_def TrimPrefix_def)

definition wf_files :: "SystemState \<Rightarrow> bool" where
  "wf_files st \<longleftrightarrow> wf_gomap (Certificates st) \<and> wf_gomap (Databases st) \<and> wf_gomap (Configs st) \<and> wf_gomap (SSHPublicKeys st)"

text \<open>The files of one state are among those of another, are the same; and a state without them.\<close>

definition files_below :: "SystemState \<Rightarrow> SystemState \<Rightarrow> bool" where
  "files_below s t \<longleftrightarrow> map_of (Certificates s) \<subseteq>\<^sub>m map_of (Certificates t) \<and> map_of (Databases s) \<subseteq>\<^sub>m map_of (Databases t) \<and>
     map_of (Configs s) \<subseteq>\<^sub>m map_of (Configs t) \<and> map_of (SSHPublicKeys s) \<subseteq>\<^sub>m map_of (SSHPublicKeys t)"

definition same_files :: "SystemState \<Rightarrow> SystemState \<Rightarrow> bool" where
  "same_files s t \<longleftrightarrow> map_of (Certificates s) = map_of (Certificates t) \<and> map_of (Databases s) = map_of (Databases t) \<and>
     map_of (Configs s) = map_of (Configs t) \<and> map_of (SSHPublicKeys s) = map_of (SSHPublicKeys t)"

definition without_files :: "SystemState \<Rightarrow> SystemState" where
  "without_files st = st\<lparr>Certificates := [], Databases := [], Configs := [], SSHPublicKeys := []\<rparr>"

lemma unpack_state_entries:
  assumes "yu metadata no_state = Inr st0" "wf_files st" "files_below st0 st"
  shows "\<exists>st'. unpack_entries yu (state_entries metadata st) no_state = Inr st' \<and> same_files st' st \<and>
    without_files st' = without_files st0"
  using assms
  by (simp add: state_entries_def unpack_entries_append unpack_files same_files_def files_below_def wf_files_def
      put_all_lookup without_files_def)

subsection \<open>What packing and unpacking come to\<close>

lemma take_result_failed: "take_result (hand_out (Inl msg) h) f g = Returned (Inl (f (take 255 msg))) h"
  by (simp add: take_result_def hand_out_def failed_result_def streamer_free_def Let_def)

lemma take_result_dangling:
  "take_result (hand_out r h) f g \<noteq> Returned (Inr b) h'"
proof (cases "hand_out r h")
  case None
  then show ?thesis by (simp add: take_result_def)
next
  case (Some p)
  then obtain res h1 where p: "hand_out r h = Some (res, h1)" by (cases p) auto
  show ?thesis
    using hand_out_dangles[OF p] by (auto simp: take_result_def p Let_def split: option.splits)
qed

lemma pack_gives_no_stream:
  "PackSystemState (streamer_api lib) oh yaml_marshal rand_key rand_nonce st h \<noteq> Returned (Inr stream) h'"
proof
  assume "PackSystemState (streamer_api lib) oh yaml_marshal rand_key rand_nonce st h = Returned (Inr stream) h'"
  then obtain data key nonce e h1 where "CompressAndEncrypt (streamer_api lib) data key nonce h = Returned (Inr e) h1"
    by (auto simp: PackSystemState_def split: sum.splits go_outcome.splits)
  then show False
    using take_result_dangling
    by (auto simp: CompressAndEncrypt_def streamer_api_def streamer_compress_encrypt_def split: if_splits)
qed

text \<open>A small state to be packed.\<close>

definition packed_state :: SystemState where
  "packed_state = no_state\<lparr>st_Hostname := ''h'', Databases := [(''x-ui.db'', ''db'')]\<rparr>"

lemma packed_entries: "state_entries ''s'' packed_state = [(''STATE.yaml'', 420, ''s''), (''databases/x-ui.db'', 384, ''db'')]"
  by (simp add: state_entries_def file_entries_def packed_state_def no_state_def)

subsection \<open>Properties\<close>

text \<open>
  C12: with the C functions as they are, no stream ever comes out of packing and no state out of
  unpacking: the bytes that would be copied are in memory that is freed already, so either it
  fails or its behaviour is undefined.
\<close>

theorem PackSystemState_never_returns_a_stream:
  "PackSystemState (streamer_api lib) oh yaml_marshal rand_key rand_nonce st h \<noteq> Returned (Inr stream) h' \<and>
   UnpackSystemState (streamer_api lib) other yaml_unmarshal stream h \<noteq> Returned (Inr st) h'"
proof (rule conjI, rule pack_gives_no_stream, rule notI)
  assume "UnpackSystemState (streamer_api lib) other yaml_unmarshal stream h = Returned (Inr st) h'"
  then show False
    using take_result_dangling
    by (auto simp: UnpackSystemState_def streamer_api_def streamer_decrypt_decompress_def
        split: go_outcome.splits sum.splits)
qed

text \<open>
  C4: the archive carries the files: from the bytes that packing puts together, the loop of
  unpacking gets back every certificate, database, configuration and public key with its name
  and its content, for every state whose files have plain names, and the other fields as the YAML
  library reads them.  Of the files it need not read any.
\<close>

theorem archive_carries_the_files:
  assumes "pack_archive oh yaml_marshal st = Inr tarData"
    and "yaml_marshal st = Inr metadata" and "yaml_unmarshal metadata no_state = Inr st0"
    and "files_below st0 st" and "wf_files st" and "list_all entry_ok (state_entries metadata st)"
  shows "\<exists>st'. unpack_loop other yaml_unmarshal tarData no_state = Some (Inr st') \<and> same_files st' st \<and>
    without_files st' = without_files st0"
proof -
  have "tarData = archive (state_entries metadata st)" using packed_archive[OF assms(6), of yaml_marshal oh] assms(1,2) by simp
  then show ?thesis
    using unpack_archive[OF assms(6)] unpack_state_entries[of yaml_unmarshal metadata st0 st, OF assms(3,5,4)] by auto
qed

text \<open>
  C13: the nonce is in a stream twice: what the C++ function makes of an archive starts with the
  nonce, and unpacking the stream that holds it puts the nonce in front once more; the cipher is
  given the nonce as the first bytes of the ciphertext, and when it rejects that, unpacking fails
  with the error of the cipher, through the C interface as it is.
\<close>

theorem packed_nonce_is_repeated:
  assumes "compress_encrypt lib (ss_Key stream) tarData (ss_Nonce stream) = Inr (ss_Data stream)"
    and "lawful_crypto lib"
  shows "\<exists>ct tag. ss_Data stream = ss_Nonce stream @ ct @ tag \<and> length tag = 16 \<and>
    (\<forall>e. gcm_decrypt lib (ss_Key stream) (ss_Nonce stream) (ss_Nonce stream @ ct) tag = Inl e \<longrightarrow>
      UnpackSystemState (streamer_api lib) other yaml_unmarshal stream h =
        Returned (Inl (CppDecryption (take 255 e))) h)"
proof -
  obtain encrypted p where d: "ss_Data stream = ss_Nonce stream @ encrypted" "length (ss_Key stream) = 32"
    "length (ss_Nonce stream) = 12" "aes_gcm_encrypt lib p (ss_Key stream) (ss_Nonce stream) = Inr encrypted"
    using assms(1) by (rule compress_encrypt_Inr)
  obtain ct tag where t: "encrypted = ct @ tag" "length tag = 16"
    using assms(2) d(4) by (rule aes_gcm_encrypt_tag)
  obtain c where "EVP_CIPHER_CTX_new lib = Some c" using d(4) by (rule aes_gcm_encrypt_parts)
  then have new: "\<exists>s. new_streamer lib (ss_Key stream) = Inr s \<and> m_key s = ss_Key stream"
    by (simp add: new_streamer_def)
  have "decrypt_decompress lib (ss_Key stream) (ss_Nonce stream @ ss_Data stream) = Inl e"
    if "gcm_decrypt lib (ss_Key stream) (ss_Nonce stream) (ss_Nonce stream @ ct) tag = Inl e" for e
    using that d(1-3) t by (simp add: decrypt_decompress_def aes_gcm_decrypt_def Let_def)
  then have "UnpackSystemState (streamer_api lib) other yaml_unmarshal stream h =
      Returned (Inl (CppDecryption (take 255 e))) h"
    if "gcm_decrypt lib (ss_Key stream) (ss_Nonce stream) (ss_Nonce stream @ ct) tag = Inl e" for e
    using that new
    by (auto simp: UnpackSystemState_def streamer_api_def streamer_decrypt_decompress_def take_result_failed)
  then show ?thesis using d(1) t by (intro exI[of _ ct] exI[of _ tag]) simp
qed

text \<open>
  C17: unpacking ends, whatever bytes the stream holds: the loop of the source has no bound of its
  own, but every header takes up input, so when the library's reading of unusual blocks does so
  too, the loop gives a result, and unpacking never goes on for ever, whatever the C functions do.
\<close>

theorem unpack_loop_ends:
  assumes "advances other"
  shows "unpack_loop other yaml_unmarshal src st \<noteq> None \<and> UnpackSystemState api other yaml_unmarshal stream h \<noteq> Diverges"
proof -
  note adv = tar_next_advances[OF assms, unfolded advances_def, rule_format]
  have ends: "\<exists>r. unpack_loop other yaml_unmarshal src st = Some r" for src st
  proof (induction src arbitrary: st rule: measure_induct_rule[of length])
    case (less src)
    show ?case
    proof (cases "tar_next other src")
      case (TarEntry name r rest)
      then have "\<exists>r. unpack_loop other yaml_unmarshal rest s = Some r" for s using less[of rest s] adv by blast
      then show ?thesis by (subst unpack_loop.simps) (auto simp: TarEntry split: sum.split)
    qed (subst unpack_loop.simps; simp)+
  qed
  moreover have "take_result x f g \<noteq> Diverges" for x and f :: "string \<Rightarrow> transport_error" and g
    by (simp add: take_result_def Let_def split: option.split)
  ultimately show ?thesis
    by (auto simp: UnpackSystemState_def split: go_outcome.split sum.split option.split)
      (metis option.distinct(1))+
qed

text \<open>
  C15: what is sent arrives: sending a stream is one command, and what the shell finds between its
  quotes decodes to the nonce and the data of the stream, whatever bytes they are.
\<close>

theorem TransmitState_sends_the_stream:
  assumes "CHR 0x27 \<notin> set targetPath"
  shows "\<exists>c s. cmds_of (TransmitState (traced client) stream targetPath) w = [c] \<and> quoted_payload c = Some s \<and>
    unbase64 s = Some (ss_Nonce stream @ ss_Data stream)"
proof -
  have "decode_cmd d targetPath = write_cmd targetPath d True" for d
    by (simp add: decode_cmd_def write_cmd_def)
  then have "quoted_payload (decode_cmd (ss_Nonce stream @ ss_Data stream) targetPath) =
      Some (base64 (ss_Nonce stream @ ss_Data stream))"
    using quoted_payload_write[OF assms] by simp
  moreover have "cmds_of (TransmitState (traced client) stream targetPath) w =
      [decode_cmd (ss_Nonce stream @ ss_Data stream) targetPath]"
    by (simp add: TransmitState_def check_def cmds_of_def trace_of_def traced_def split: prod.splits)
  ultimately show ?thesis using unbase64_base64 by blast
qed

subsection \<open>Witnesses\<close>

definition empty_heap :: heap where "empty_heap = \<lparr>blocks = [], next_addr = 0\<rparr>"

lemma packed_ok: "list_all entry_ok (state_entries ''s'' packed_state)"
  by (simp add: packed_entries entry_ok_triple ustar_ok_def)

text \<open>The YAML library of this witness reads the host name and no file.\<close>

theorem archive_carries_the_files_witness:
  "\<exists>tarData st'. pack_archive (\<lambda>_ _ _. Inl ''e'') (\<lambda>_. Inr ''s'') packed_state = Inr tarData \<and>
     unpack_loop (\<lambda>_. TarEOF) (\<lambda>_ _. Inr (no_state\<lparr>st_Hostname := ''h''\<rparr>)) tarData no_state = Some (Inr st') \<and>
     same_files st' packed_state \<and> without_files st' = without_files (no_state\<lparr>st_Hostname := ''h''\<rparr>)"
proof -
  let ?st0 = "no_state\<lparr>st_Hostname := ''h''\<rparr>"
  have p: "pack_archive (\<lambda>_ _ _. Inl ''e'') (\<lambda>_. Inr ''s'') packed_state = Inr (archive (state_entries ''s'' packed_state))"
    by (rule packed_archive[OF packed_ok refl])
  have "files_below ?st0 packed_state" "wf_files packed_state"
    by (simp_all add: files_below_def wf_files_def packed_state_def no_state_def wf_gomap_def map_keys_def)
  from archive_carries_the_files[OF p refl _ this packed_ok, of "\<lambda>_ _. Inr ?st0" "\<lambda>_. TarEOF"] p
  show ?thesis by blast
qed

lemma length_tag_differs: "length_tag (zero_nonce @ p) \<noteq> length_tag p"
proof -
  have "(12 + length p) mod 256 \<noteq> length p mod 256"
    using mod_eq_dvd_iff_nat[of "length p" "12 + length p" 256] by simp
  then show ?thesis by (simp add: length_tag_def zero_nonce_def replicate_eq_replicate)
qed

theorem packed_nonce_is_repeated_witness:
  "\<exists>data. compress_encrypt plain_crypto zero_key ''hello'' zero_nonce = Inr data \<and>
     UnpackSystemState (streamer_api plain_crypto) (\<lambda>_. TarEOF) (\<lambda>_ _. Inr packed_state)
       \<lparr>ss_Data = data, ss_Key = zero_key, ss_Nonce = zero_nonce, ss_Checksum = [], ss_Size = 5\<rparr> empty_heap =
     Returned (Inl (CppDecryption (''AES-GCM: authentication tag mismatch '' @ em_dash @ '' data corrupted or tampered''))) empty_heap"
proof -
  let ?msg = "''AES-GCM: authentication tag mismatch '' @ em_dash @ '' data corrupted or tampered''"
  let ?p = "write_u32_be (word_of_nat (length ''hello'')) @ ''hello''"
  let ?stream = "\<lparr>ss_Data = zero_nonce @ ?p @ length_tag ?p, ss_Key = zero_key, ss_Nonce = zero_nonce, ss_Checksum = [], ss_Size = 5\<rparr>"
  have c: "compress_encrypt plain_crypto (ss_Key ?stream) ''hello'' (ss_Nonce ?stream) = Inr (ss_Data ?stream)"
    using plain_compress[of "''hello''"] by simp
  from packed_nonce_is_repeated[OF c plain_crypto_lawful, of "\<lambda>_. TarEOF" "\<lambda>_ _. Inr packed_state" empty_heap]
  obtain ct tag where t: "ss_Data ?stream = ss_Nonce ?stream @ ct @ tag" "length tag = 16"
    "\<forall>e. gcm_decrypt plain_crypto (ss_Key ?stream) (ss_Nonce ?stream) (ss_Nonce ?stream @ ct) tag = Inl e \<longrightarrow>
      UnpackSystemState (streamer_api plain_crypto) (\<lambda>_. TarEOF) (\<lambda>_ _. Inr packed_state) ?stream empty_heap =
        Returned (Inl (CppDecryption (take 255 e))) empty_heap"
    by (elim exE conjE) (rule that)
  have "ct @ tag = ?p @ length_tag ?p" using t(1) by simp
  moreover have "length tag = length (length_tag ?p)" using t(2) by (simp add: length_tag_def)
  ultimately have ct: "ct = ?p" "tag = length_tag ?p" using append_eq_append_conv[of ct ?p tag "length_tag ?p"] by blast+
  have "tag \<noteq> length_tag (zero_nonce @ ct)" unfolding ct using length_tag_differs[of ?p] by metis
  moreover have "length (zero_nonce @ ct) < 2147483648" unfolding ct by (simp add: zero_nonce_def write_u32_be_def)
  ultimately have "gcm_decrypt plain_crypto (ss_Key ?stream) (ss_Nonce ?stream) (ss_Nonce ?stream @ ct) tag = Inl ?msg"
    by (simp add: plain_decrypt)
  then have "UnpackSystemState (streamer_api plain_crypto) (\<lambda>_. TarEOF) (\<lambda>_ _. Inr packed_state) ?stream empty_heap =
      Returned (Inl (CppDecryption (take 255 ?msg))) empty_heap"
    using t(3) by blast
  moreover have "take 255 ?msg = ?msg" by (simp add: em_dash_def)
  ultimately show ?thesis using c by auto
qed

theorem unpack_loop_ends_witness:
  "unpack_loop (\<lambda>_. TarEOF) (\<lambda>_ _. Inr packed_state) ''not an archive'' no_state \<noteq> None \<and>
   UnpackSystemState (streamer_api plain_crypto) (\<lambda>_. TarEOF) (\<lambda>_ _. Inr packed_state)
     \<lparr>ss_Data = ''x'', ss_Key = zero_key, ss_Nonce = zero_nonce, ss_Checksum = [], ss_Size = 5\<rparr> empty_heap \<noteq> Diverges"
  by (rule unpack_loop_ends) (simp add: advances_def)

theorem TransmitState_sends_the_stream_witness:
  "\<exists>c s. cmds_of (TransmitState (traced (constant_client ([], None)))
      \<lparr>ss_Data = ''hello'', ss_Key = [], ss_Nonce = zero_nonce, ss_Checksum = [], ss_Size = 5\<rparr> ''/tmp/s'') () = [c] \<and>
    quoted_payload c = Some s \<and> unbase64 s = Some (zero_nonce @ ''hello'')"
  using TransmitState_sends_the_stream[of "''/tmp/s''" "constant_client ([], None)"
      "\<lparr>ss_Data = ''hello'', ss_Key = [], ss_Nonce = zero_nonce, ss_Checksum = [], ss_Size = 5\<rparr>" "()"]
  by simp

end
