(* ===== verification/Main_Cmd.thy ===== *)
theory Main_Cmd
  imports Provisioner Security_Audit System_Restore Transport
begin

text \<open>
  \<^verbatim>\<open>cmd/gs/main.go\<close>: the arguments of the program and the sequence of calls behind each command.
  A run gives the exit code and what was printed; the state is the world behind the SSH library.
  \<^verbatim>\<open>os.Exit\<close> ends the program without running deferred calls, so a connection is closed only on
  the way to success.  The log is not modelled.
\<close>

subsection \<open>Environment and outcome\<close>

text \<open>
  Numbers printed with a fixed number of decimals stay as they are: \<open>MB n\<close> is \<open>n\<close> bytes in
  megabytes and \<open>Ratio a b\<close> is \<open>a\<close> in percent of \<open>b\<close>.
\<close>

datatype item = Str string | MB int | Ratio int int

text \<open>A run that goes on for ever, or whose behaviour is undefined, has no exit code.\<close>

datatype outcome = Exit (exit_code: int) (printed: "item list") | Never_ends | Undefined_run
  where "exit_code Never_ends = - 1" | "exit_code Undefined_run = - 1"

text \<open>
  The package \<^verbatim>\<open>extractor\<close> has two builds: without the tag \<^verbatim>\<open>cgo_streamer\<close> packing is that of
  \<^verbatim>\<open>transport_stub.go\<close>; with it, that of \<^verbatim>\<open>transport.go\<close>, which calls the C functions over a library
  of ciphers and uses a YAML library, \<^verbatim>\<open>archive/tar\<close>'s other header formats, the bytes of
  \<^verbatim>\<open>crypto/rand\<close> and the heap of C.
\<close>

datatype 'c build =
    Stub_build
  | Cgo_streamer "'c crypto_lib" other_header "SystemState \<Rightarrow> string + bytes" "string + bytes" "string + bytes" heap

definition pack_state :: "'c build \<Rightarrow> SystemState \<Rightarrow> (transport_error + StreamState) go_outcome" where
  "pack_state b st =
     (case b of
        Stub_build \<Rightarrow> Returned (stub_PackSystemState st) empty_heap
      | Cgo_streamer lib oh yaml_marshal rand_key rand_nonce h \<Rightarrow>
          PackSystemState (streamer_api lib) oh yaml_marshal rand_key rand_nonce st h)"

record ('key, 'conn, 'sess, 'w, 'c) env =
  env_ssh :: "('key, 'conn, 'sess, 'w) ssh_lib"
  env_SSH_KEY :: string
  env_read_file :: "string \<Rightarrow> string + bytes"
  env_yaml :: "bytes \<Rightarrow> string + NodeManifest"
  env_http :: "'w http_post"
  env_now :: int
  env_json_order :: "json gomap \<Rightarrow> json gomap"
  env_config_paths :: "string gomap"
  env_build :: "'c build"

definition fail_with :: "item list \<Rightarrow> ('w, outcome) state" where
  "fail_with out = State_Monad.return (Exit 1 out)"

definition succeed_with :: "item list \<Rightarrow> ('w, outcome) state" where
  "succeed_with out = State_Monad.return (Exit 0 out)"

definition tick :: string where "tick = [CHR 0xE2, CHR 0x9C, CHR 0x93]"

definition connect :: "('key, 'conn, 'sess, 'w, 'c) env \<Rightarrow> string \<Rightarrow> ('w, string + 'conn) state" where
  "connect env ip = NewSSHClient (env_ssh env) ''root'' ip 22 (env_SSH_KEY env)"

definition client_of :: "('key, 'conn, 'sess, 'w, 'c) env \<Rightarrow> 'conn \<Rightarrow> 'w SSHRunner" where
  "client_of env conn = ssh_client (env_ssh env) conn"

definition load_config :: "('key, 'conn, 'sess, 'w, 'c) env \<Rightarrow> string \<Rightarrow> load_error + NodeManifest" where
  "load_config env path = Load (env_read_file env) (env_yaml env) path"

definition default_config :: string where "default_config = ''configs/example-node.yaml''"

subsection \<open>The commands\<close>

definition cmdLand :: "('key, 'conn, 'sess, 'w, 'c) env \<Rightarrow> string \<Rightarrow> string list \<Rightarrow> ('w, outcome) state" where
  "cmdLand env ip args =
     (let configFile = (if length args > 0 then args ! 0 else default_config) in
      case load_config env configFile of
        Inl _ \<Rightarrow> fail_with []
      | Inr cfg \<Rightarrow> do {
          r \<leftarrow> connect env ip;
          (case r of
             Inl _ \<Rightarrow> fail_with []
           | Inr conn \<Rightarrow> do {
               err \<leftarrow> RunFullProvisioning (client_of env conn) cfg;
               (if err \<noteq> None then fail_with []
                else do {
                  _ \<leftarrow> Close (client_of env conn);
                  succeed_with
                    [Str (NL @ tick @ '' Landing sequence completed successfully!'' @ NL),
                     Str (tick @ '' Server is ready for deployment'' @ NL)] }) }) })"

text \<open>A panic runs the deferred calls and ends the program with exit code 2.\<close>

definition cmdExtract :: "('key, 'conn, 'sess, 'w, 'c) env \<Rightarrow> string \<Rightarrow> ('w, outcome) state" where
  "cmdExtract env configFile =
     (case load_config env configFile of
        Inl _ \<Rightarrow> fail_with []
      | Inr cfg \<Rightarrow> do {
          r \<leftarrow> connect env (node_IP (Node cfg));
          (case r of
             Inl _ \<Rightarrow> fail_with []
           | Inr conn \<Rightarrow> do {
               st \<leftarrow> ExtractSystemState (env_json_order env) (env_config_paths env) (env_now env) (client_of env conn) cfg;
               (if ValidateState st \<noteq> None then fail_with []
                else
                  (case pack_state (env_build env) st of
                     Panicked \<Rightarrow> do {
                       _ \<leftarrow> Close (client_of env conn);
                       State_Monad.return (Exit 2 []) }
                   | Diverges \<Rightarrow> State_Monad.return Never_ends
                   | Undefined \<Rightarrow> State_Monad.return Undefined_run
                   | Returned (Inl _) _ \<Rightarrow> fail_with []
                   | Returned (Inr stream) _ \<Rightarrow> do {
                       _ \<leftarrow> Close (client_of env conn);
                       succeed_with
                         [Str (NL @ tick @ '' System state extracted and encrypted'' @ NL),
                          Str (''  Databases: '' @ itoa (int (length (Databases st))) @ NL),
                          Str (''  Certificates: '' @ itoa (int (length (Certificates st))) @ NL),
                          Str ''  Original size: '', MB (ss_Size stream), Str ('' MB'' @ NL),
                          Str ''  Encrypted size: '', MB (int (length (ss_Data stream))), Str ('' MB'' @ NL),
                          Str ''  Compression ratio: '', Ratio (int (length (ss_Data stream))) (ss_Size stream),
                          Str (''%'' @ NL)] })) }) })"

record migrate_flags =
  sourceIP :: string
  targetIP :: string
  configFile :: string

text \<open>A flag takes the argument after it; one at the very end takes nothing; others are passed over.\<close>

fun parse_flags :: "string list \<Rightarrow> migrate_flags \<Rightarrow> migrate_flags" where
  "parse_flags [] f = f"
| "parse_flags [a] f = f"
| "parse_flags (a # v # rest) f =
     (if a = ''--from'' then parse_flags rest (f\<lparr>sourceIP := v\<rparr>)
      else if a = ''--to'' then parse_flags rest (f\<lparr>targetIP := v\<rparr>)
      else if a = ''--config'' then parse_flags rest (f\<lparr>configFile := v\<rparr>)
      else parse_flags (v # rest) f)"

definition no_flags :: migrate_flags where
  "no_flags = \<lparr>sourceIP = [], targetIP = [], configFile = default_config\<rparr>"

definition phase :: "string \<Rightarrow> item" where
  "phase title = Str (NL @ ''=== '' @ title @ '' ==='' @ NL)"

definition phase1 :: item where "phase1 = phase ''Phase 1: Extracting state from source''"

definition phase2 :: item where "phase2 = phase ''Phase 2: Provisioning target server''"

definition phase3 :: item where "phase3 = phase ''Phase 3: Restoring state to target''"

text \<open>The two deferred calls run last to first, so the target is closed before the source.\<close>

definition run_migration :: "('key, 'conn, 'sess, 'w, 'c) env \<Rightarrow> migrate_flags \<Rightarrow> NodeManifest \<Rightarrow> ('w, outcome) state" where
  "run_migration env f cfg = do {
     r1 \<leftarrow> connect env (sourceIP f);
     (case r1 of
        Inl _ \<Rightarrow> fail_with [phase1]
      | Inr source \<Rightarrow> do {
          st \<leftarrow> ExtractSystemState (env_json_order env) (env_config_paths env) (env_now env) (client_of env source) cfg;
          (if ValidateState st \<noteq> None then fail_with [phase1]
           else do {
             r2 \<leftarrow> connect env (targetIP f);
             (case r2 of
                Inl _ \<Rightarrow> fail_with [phase1, phase2]
              | Inr target \<Rightarrow> do {
                  err \<leftarrow> RunFullProvisioning (client_of env target) cfg;
                  (if err \<noteq> None then fail_with [phase1, phase2]
                   else do {
                     _ \<leftarrow> RestoreSystemState (client_of env target) st;
                     _ \<leftarrow> Close (client_of env target);
                     _ \<leftarrow> Close (client_of env source);
                     succeed_with
                       [phase1, phase2, phase3,
                        Str (NL @ tick @ '' Migration completed successfully!'' @ NL),
                        Str (''  Source: '' @ sourceIP f @ NL), Str (''  Target: '' @ targetIP f @ NL),
                        Str (''  Databases migrated: '' @ itoa (int (length (Databases st))) @ NL),
                        Str (''  Certificates migrated: '' @ itoa (int (length (Certificates st))) @ NL)] }) }) }) }) }"

definition cmdMigrate :: "('key, 'conn, 'sess, 'w, 'c) env \<Rightarrow> string list \<Rightarrow> ('w, outcome) state" where
  "cmdMigrate env args =
     (if length args < 4
      then fail_with [Str (''Usage: gs migrate --from <source_ip> --to <target_ip> [--config config.yaml]'' @ NL)]
      else let f = parse_flags args no_flags in
        if sourceIP f = [] \<or> targetIP f = [] then fail_with [Str (''Error: --from and --to are required'' @ NL)]
        else (case load_config env (configFile f) of
          Inl _ \<Rightarrow> fail_with []
        | Inr cfg \<Rightarrow> run_migration env f cfg))"

definition cmdStatus :: "string \<Rightarrow> ('w, outcome) state" where
  "cmdStatus ip =
     succeed_with [Str (''Checking status of '' @ ip @ NL), Str (''Status command - not yet implemented'' @ NL)]"

definition alert_line :: "SecurityAlert \<Rightarrow> item" where
  "alert_line a = Str (''  '' @ al_Level a @ '' ('' @ al_Component a @ ''): '' @ al_Issue a @ NL)"

definition audit_output :: "AuditReport \<Rightarrow> item list" where
  "audit_output report =
     (let allAlerts = SystemChecks report @ DockerChecks report @ NomadChecks report in
      [Str (NL @ ''=== Security Audit Report ==='' @ NL),
       Str (''Hostname: '' @ rep_Hostname report @ NL),
       Str (''Timestamp: '' @ itoa (rep_Timestamp report) @ NL @ NL),
       Str (''System Security: '' @ itoa (int (length (SystemChecks report))) @ '' checks'' @ NL),
       Str (''Docker Security: '' @ itoa (int (length (DockerChecks report))) @ '' checks'' @ NL),
       Str (''Nomad Security: '' @ itoa (int (length (NomadChecks report))) @ '' checks'' @ NL)] @
      (if length allAlerts = 0 then [Str (NL @ tick @ '' All checks passed!'' @ NL)]
       else Str (NL @ ''Alerts: '' @ itoa (int (length allAlerts)) @ '' (Critical: '' @ itoa (CriticalCount report) @
              '', Warnings: '' @ itoa (WarningCount report) @ '', Passed: '' @ itoa (PassedCount report) @ '')'' @ NL) #
            map alert_line allAlerts))"

definition cmdAudit :: "('key, 'conn, 'sess, 'w, 'c) env \<Rightarrow> string \<Rightarrow> ('w, outcome) state" where
  "cmdAudit env ip = do {
     r \<leftarrow> connect env ip;
     (case r of
        Inl _ \<Rightarrow> fail_with []
      | Inr conn \<Rightarrow> do {
          report \<leftarrow> RunSecurityAudit (env_http env) (env_now env) (client_of env conn) None;
          _ \<leftarrow> Close (client_of env conn);
          succeed_with (audit_output report) }) }"

subsection \<open>The program\<close>

definition usage :: item where
  "usage = Str (NL @ ''Available commands:'' @ NL @
     ''  land <IP> [config]      - Provision a fresh VPS (Full hardening + Docker + Nomad)'' @ NL @
     ''  extract <config>        - Extract system state for migration'' @ NL @
     ''  migrate <from> <to>     - Migrate infrastructure from one server to another'' @ NL @
     ''  audit <IP>              - Run comprehensive security audit'' @ NL @
     ''  status <IP>             - Check node status'' @ NL @ NL @ ''Examples:'' @ NL @
     ''  gs land 192.168.1.100 configs/relay-ru.yaml'' @ NL @
     ''  gs extract configs/relay-ru.yaml'' @ NL @
     ''  gs migrate --from 192.168.1.100 --to 192.168.1.101'' @ NL @
     ''  gs audit 192.168.1.100'' @ NL @ ''  gs status 192.168.1.100'' @ NL)"

definition usage_of :: "string \<Rightarrow> ('w, outcome) state" where
  "usage_of args = fail_with [Str (''Usage: gs '' @ args @ NL)]"

text \<open>\<^verbatim>\<open>os.Args\<close> without the name of the program.  The banner is printed before all of this.\<close>

definition main_cmd :: "('key, 'conn, 'sess, 'w, 'c) env \<Rightarrow> string list \<Rightarrow> ('w, outcome) state" where
  "main_cmd env args =
     (case args of
        [] \<Rightarrow> fail_with [usage]
      | command # rest \<Rightarrow>
          if command = ''land'' then
            (case rest of [] \<Rightarrow> usage_of ''land <IP> [config]'' | ip # opts \<Rightarrow> cmdLand env ip opts)
          else if command = ''migrate'' then cmdMigrate env rest
          else if command = ''extract'' then
            (case rest of [] \<Rightarrow> usage_of ''extract <config_file>'' | cfg # _ \<Rightarrow> cmdExtract env cfg)
          else if command = ''audit'' then
            (case rest of [] \<Rightarrow> usage_of ''audit <IP>'' | ip # _ \<Rightarrow> cmdAudit env ip)
          else if command = ''status'' then
            (case rest of [] \<Rightarrow> usage_of ''status <IP>'' | ip # _ \<Rightarrow> cmdStatus ip)
          else fail_with [Str (''Unknown command: '' @ command @ NL), usage])"

subsection \<open>Servers on which no command fails\<close>

text \<open>
  The commands of provisioning a manifest, and a server that fails none of them but \<^verbatim>\<open>which docker\<close>,
  perhaps: Docker is installed then.
\<close>

definition provisioning_cmds :: "NodeManifest \<Rightarrow> string set" where
  "provisioning_cmds m = setup_cmds \<union> set (map fst (hardening_plan (Firewall m))) \<union> deploy_cmds (Services m)"

definition obliging :: "NodeManifest \<Rightarrow> 'w SSHRunner \<Rightarrow> bool" where
  "obliging m client \<longleftrightarrow>
     (\<forall>cmd \<in> provisioning_cmds m. cmd \<noteq> which_docker_cmd \<longrightarrow> (\<forall>w. snd (fst (run_state (Run client cmd) w)) = None))"

definition succeeds :: "('w, 'e option) state \<Rightarrow> bool" where
  "succeeds m \<longleftrightarrow> (\<forall>w. fst (run_state m w) = None)"

lemma succeeds_rules:
  "succeeds (State_Monad.return None)"
  "succeeds a \<Longrightarrow> succeeds b \<Longrightarrow> succeeds (and_then a b)"
  "succeeds a \<Longrightarrow> succeeds (wrap_error f a)"
  "(\<And>x. x \<in> set xs \<Longrightarrow> succeeds (g x)) \<Longrightarrow> succeeds (until_error g xs)"
  "(\<And>x. succeeds (h x)) \<Longrightarrow> succeeds (m \<bind> h)"
proof -
  show "(\<And>x. x \<in> set xs \<Longrightarrow> succeeds (g x)) \<Longrightarrow> succeeds (until_error g xs)"
  proof (induction xs)
    case (Cons x xs)
    then have "succeeds (g x)" "succeeds (until_error g xs)" by simp_all
    then show ?case by (auto simp: succeeds_def split: prod.splits option.splits) (metis fst_conv option.distinct(1))+
  qed (simp add: succeeds_def)
qed (auto simp: succeeds_def and_then_def wrap_error_def split: prod.splits option.splits,
     (metis fst_conv option.distinct(1))+)

lemma check_obliging:
  assumes "obliging m client" "cmd \<in> provisioning_cmds m" "cmd \<noteq> which_docker_cmd"
  shows "succeeds (check f (Run client cmd))"
  unfolding succeeds_def
proof
  fix w
  have "snd (fst (run_state (Run client cmd) w)) = None" using assms by (simp add: obliging_def)
  then show "fst (run_state (check f (Run client cmd)) w) = None" by (auto simp: check_def split: prod.splits)
qed

lemma provisioning_cmds_members:
  "update_cmd \<in> provisioning_cmds m" "install_docker_cmd \<in> provisioning_cmds m"
  "fw_AllowSSH (Firewall m) \<Longrightarrow> allow_ssh_cmd \<in> provisioning_cmds m"
  "i \<in> set (fw_AllowPorts (Firewall m)) \<Longrightarrow> allow_port_cmd i \<in> provisioning_cmds m"
  "enable_ufw_cmd \<in> provisioning_cmds m" "mkdir_cmd \<in> provisioning_cmds m"
  "read_cmd composePath \<in> provisioning_cmds m"
  "buildComposeProject (Services m) = Inr (yaml, args) \<Longrightarrow> heredoc_cmd composePath yaml \<in> provisioning_cmds m"
  "buildComposeProject (Services m) = Inr (yaml, args) \<Longrightarrow> up_cmd args \<in> provisioning_cmds m"
  by (auto simp: provisioning_cmds_def setup_cmds_def hardening_plan_def deploy_cmds_def
      buildComposeProject_Inr_iff)

lemma not_which_docker:
  "update_cmd \<noteq> which_docker_cmd" "install_docker_cmd \<noteq> which_docker_cmd" "allow_ssh_cmd \<noteq> which_docker_cmd"
  "allow_port_cmd i \<noteq> which_docker_cmd" "enable_ufw_cmd \<noteq> which_docker_cmd" "mkdir_cmd \<noteq> which_docker_cmd"
  "heredoc_cmd q b \<noteq> which_docker_cmd" "up_cmd a \<noteq> which_docker_cmd" "read_cmd p \<noteq> which_docker_cmd"
  by (simp_all add: update_cmd_def install_docker_cmd_def allow_ssh_cmd_def allow_port_cmd_def enable_ufw_cmd_def
      which_docker_cmd_def mkdir_cmd_def heredoc_cmd_def up_cmd_def read_cmd_def Let_def)

lemma succeeds_read:
  assumes "obliging m client" "\<And>out. succeeds (f (Inr out))"
  shows "succeeds (do { r \<leftarrow> provisioner_readRemoteFile client composePath; f r })"
  unfolding succeeds_def
proof
  fix w
  obtain r v where r: "run_state (provisioner_readRemoteFile client composePath) w = (r, v)" by fastforce
  have "snd (fst (run_state (Run client (read_cmd composePath)) w)) = None"
    using assms(1) provisioning_cmds_members(7)[of m] not_which_docker(9) by (simp add: obliging_def)
  then obtain out where "r = Inr out"
    using r by (auto simp: provisioner_readRemoteFile_def split: prod.splits option.splits)
  then show "fst (run_state (do { r \<leftarrow> provisioner_readRemoteFile client composePath; f r }) w) = None"
    using r assms(2) by (simp add: succeeds_def)
qed

lemma DeployServices_succeeds:
  assumes "obliging m client" "buildComposeProject (Services m) = Inr p"
  shows "succeeds (DeployServices client (Services m))"
proof -
  obtain yaml args where p: "buildComposeProject (Services m) = Inr (yaml, args)" using assms(2) by (cases p) auto
  note ok = check_obliging[OF assms(1)] provisioning_cmds_members(6) provisioning_cmds_members(8,9)[OF p] not_which_docker
  have "succeeds (check MkdirFailed (Run client mkdir_cmd))"
    "succeeds (check WriteFailed (Run client (heredoc_cmd composePath yaml)))"
    "succeeds (check UpFailed (Run client (up_cmd args)))"
    by (rule ok(1) ok(2-))+
  then show ?thesis
    by (auto simp: DeployServices_def p intro!: succeeds_rules(1-4) succeeds_read[OF assms(1)])
qed

lemma ApplyHardening_succeeds:
  assumes "obliging m client" "fw_Backend (Firewall m) = ''ufw''"
  shows "succeeds (ApplyHardening client (Firewall m))"
  using assms(2)
  by (auto simp: ApplyHardening_def
      intro!: succeeds_rules(1-4) check_obliging[OF assms(1)] provisioning_cmds_members not_which_docker)

lemma RunFullProvisioning_succeeds:
  assumes "obliging m client" "fw_Backend (Firewall m) = ''ufw''" "buildComposeProject (Services m) = Inr p"
  shows "succeeds (RunFullProvisioning client m)"
  unfolding RunFullProvisioning_def
  by (intro succeeds_rules check_obliging[OF assms(1)] provisioning_cmds_members not_which_docker
      DeployServices_succeeds[OF assms(1,3)] ApplyHardening_succeeds[OF assms(1,2)])
    (auto intro!: succeeds_rules check_obliging[OF assms(1)] provisioning_cmds_members not_which_docker split: prod.split)

subsection \<open>Migration\<close>

lemma parse_flags_untouched:
  "''--from'' \<notin> set args \<Longrightarrow> sourceIP (parse_flags args f) = sourceIP f"
  "''--to'' \<notin> set args \<Longrightarrow> targetIP (parse_flags args f) = targetIP f"
  by (induction args f rule: parse_flags.induct) auto

text \<open>The steps of a migration that ends with exit code 0.\<close>

lemma fail_with_run [simp]: "run_state (fail_with out) w = (Exit 1 out, w)"
  by (simp add: fail_with_def)

lemma succeed_with_run [simp]: "run_state (succeed_with out) w = (Exit 0 out, w)"
  by (simp add: succeed_with_def)

lemma run_migration_steps:
  assumes "run_state (run_migration env f cfg) w = (out, w')" "exit_code out = 0"
    and "run_state (connect env (sourceIP f)) w = (Inr source, w1)"
    and "run_state (ExtractSystemState (env_json_order env) (env_config_paths env) (env_now env) (client_of env source) cfg) w1
      = (st, w2)"
  obtains target w3 w4 u w5 where "ValidateState st = None"
    "run_state (connect env (targetIP f)) w2 = (Inr target, w3)"
    "run_state (RunFullProvisioning (client_of env target) cfg) w3 = (None, w4)"
    "run_state (RestoreSystemState (client_of env target) st) w4 = (u, w5)"
    "w' = snd (run_state (Close (client_of env source)) (snd (run_state (Close (client_of env target)) w5)))"
proof -
  obtain r2 w3 where 3: "run_state (connect env (targetIP f)) w2 = (r2, w3)" by fastforce
  show ?thesis
  proof (cases r2)
    case (Inl e)
    then show ?thesis using assms 3 by (auto simp: run_migration_def split: if_splits)
  next
    case (Inr target)
    obtain err w4 where 4: "run_state (RunFullProvisioning (client_of env target) cfg) w3 = (err, w4)" by fastforce
    obtain u w5 where 5: "run_state (RestoreSystemState (client_of env target) st) w4 = (u, w5)" by (rule prod.exhaust)
    have "ValidateState st = None" "err = None"
      "w' = snd (run_state (Close (client_of env source)) (snd (run_state (Close (client_of env target)) w5)))"
      using assms 3 4 5 Inr by (auto simp: run_migration_def split: if_splits prod.splits)
    then show ?thesis using that 3 4 5 Inr by simp
  qed
qed

lemma run_migration_succeeds:
  assumes "run_state (connect env (sourceIP f)) w = (Inr source, w1)"
    and "run_state (ExtractSystemState (env_json_order env) (env_config_paths env) (env_now env) (client_of env source) cfg) w1
      = (st, w2)"
    and "ValidateState st = None" and "run_state (connect env (targetIP f)) w2 = (Inr target, w3)"
    and "run_state (RunFullProvisioning (client_of env target) cfg) w3 = (None, w4)"
  shows "exit_code (fst (run_state (run_migration env f cfg) w)) = 0"
  using assms by (simp add: run_migration_def split: prod.splits)

lemma cmdMigrate_runs:
  assumes "run_state (cmdMigrate env args) w = (out, w')" "exit_code out = 0"
    and "load_config env (configFile (parse_flags args no_flags)) = Inr cfg"
  shows "run_state (run_migration env (parse_flags args no_flags) cfg) w = (out, w')"
  using assms by (auto simp: cmdMigrate_def Let_def split: if_splits)

subsection \<open>Packing in the command line\<close>

text \<open>
  What the two builds make of \<^verbatim>\<open>gs extract\<close>: with the streamer it never ends with exit code 0,
  and with the stub the server's state is thrown away and success is reported over an empty stream.
\<close>

lemma extract_with_streamer_never_succeeds:
  assumes "env_build env = Cgo_streamer lib oh yaml_marshal rand_key rand_nonce h"
  shows "exit_code (fst (run_state (cmdExtract env cfg) w)) \<noteq> 0"
  using pack_gives_no_stream[of lib oh yaml_marshal rand_key rand_nonce]
  by (auto simp: cmdExtract_def pack_state_def assms fail_with_def split: sum.splits prod.splits go_outcome.splits)

lemma extract_stub_loses_the_state:
  assumes "env_build env = Stub_build" "load_config env path = Inr cfg"
    and "run_state (connect env (node_IP (Node cfg))) w = (Inr conn, w1)"
    and "run_state (ExtractSystemState (env_json_order env) (env_config_paths env) (env_now env) (client_of env conn) cfg) w1
      = (st, w2)" "ValidateState st = None"
  shows "exit_code (fst (run_state (cmdExtract env path) w)) = 0"
    "pack_state (env_build env) st = Returned (Inr stream) h \<Longrightarrow> ss_Data stream = [] \<and> ss_Size stream = 0"
  using assms
  by (auto simp: cmdExtract_def pack_state_def stub_PackSystemState_def succeed_with_def split: prod.splits)

subsection \<open>A small laboratory\<close>

text \<open>
  A library with two kinds of server.  The source answers the first command that reads the file of
  the panel's database with the content \<^verbatim>\<open>db\<close> and all others with nothing, and never changes.  Every
  other server has a disk with the path of that file, empty at first, which is the state; it
  answers inspections and writes of it, and all other commands with nothing.
\<close>

definition lab_source :: string where "lab_source = ssh_addr ''1.1.1.1'' 22"

definition lab_output :: "string \<Rightarrow> string \<Rightarrow> (bytes option, bytes \<times> string option) state" where
  "lab_output sess cmd =
     (if sess = lab_source then State_Monad.return (if cmd = cat_cmd db_file then ''db'' else [], None)
      else if prefix ''echo '' cmd \<or> prefix ''sudo s'' cmd then Run (disk_client db_file True) cmd
      else State_Monad.return ([], None))"

definition lab_lib :: "(bytes, string, string, bytes option) ssh_lib" where
  "lab_lib =
     \<lparr>ReadFile = (\<lambda>p. State_Monad.return (Inr ''key'')), ParsePrivateKey = (\<lambda>k. Inr k),
      Dial = (\<lambda>net addr cc. State_Monad.return (Inr addr)), NewSession = (\<lambda>conn. State_Monad.return (Inr conn)),
      CombinedOutput = lab_output, CloseSession = (\<lambda>s. State_Monad.return None),
      CloseConn = (\<lambda>c. State_Monad.return None)\<rparr>"

definition lab :: "(bytes, string, string, bytes option, unit) env" where
  "lab =
     \<lparr>env_ssh = lab_lib, env_SSH_KEY = ''k'', env_read_file = (\<lambda>_. Inr ''x''), env_yaml = (\<lambda>_. Inr example_manifest),
      env_http = (\<lambda>_ _ _. State_Monad.return (Inl ''e'')), env_now = 0, env_json_order = (\<lambda>m. m),
      env_config_paths = configPaths, env_build = Stub_build\<rparr>"

lemmas lab_defs = lab_def lab_lib_def

lemma lab_run:
  "run_state (Run (client_of lab conn) cmd) f =
     (case run_state (lab_output conn cmd) f of ((out, err), f') \<Rightarrow> ((out, map_option ((@) ''command failed: '') err), f'))"
  unfolding client_of_def ssh_client_def SSHClient_Run_def lab_defs
  by (simp only: env.simps SSHRunner.simps ssh_lib.simps run_state_bind run_state_return prod.case sum.case split: prod.splits) simp

lemma lab_connect: "run_state (connect lab ip) f = (Inr (ssh_addr ip 22), f)"
  by (simp add: connect_def NewSSHClient_def lab_defs)

lemma lab_close: "run_state (Close (client_of lab conn)) f = (None, f)"
  by (simp add: client_of_def ssh_client_def SSHClient_Close_def lab_defs)

lemma lab_config: "load_config lab p = Inr (applyDefaults example_manifest)"
  by (simp add: load_config_def lab_defs Load_def validate_def example_manifest_def RoleRelay_def)

text \<open>A target fulfils the contract of a restore, and no server fails a command of provisioning.\<close>

lemma lab_shapes:
  "prefix ''sudo s'' (sha_cmd p True)" "prefix ''sudo s'' (stat_cmd p True)" "prefix ''echo '' (write_cmd p d True)"
  "\<not> prefix ''sudo s'' (parent_cmd p True)" "\<not> prefix ''echo '' (parent_cmd p True)"
  by (simp_all add: sha_cmd_def stat_cmd_def parent_cmd_def write_cmd_def sudo_prefix_def Let_def)

lemma lab_inspection:
  assumes "conn \<noteq> lab_source"
  shows "run_state (Run (client_of lab conn) (sha_cmd db_file True)) f =
     (case f of None \<Rightarrow> (([], Some (''command failed: '' @ ''exit status 1'')), f)
      | Some d \<Rightarrow> ((sha256_hex d @ ''  '' @ db_file @ NL, None), f))"
    "run_state (Run (client_of lab conn) (stat_cmd db_file True)) f =
     (case f of None \<Rightarrow> (([], Some (''command failed: '' @ ''exit status 1'')), f)
      | Some d \<Rightarrow> ((itoa (int (length d)) @ NL, None), f))"
  using command_shapes(1)[of db_file True db_file True, symmetric] assms
  by (simp_all add: lab_run lab_output_def lab_shapes disk_client_def split: option.split)

lemma lab_honest: "conn \<noteq> lab_source \<Longrightarrow> honest_inspection (client_of lab conn) db_file True (\<lambda>f. f)"
  unfolding honest_inspection_def by (auto simp: lab_inspection split: option.split)

lemma lab_target:
  assumes "conn \<noteq> lab_source"
  shows "file_target (client_of lab conn) [(db_file, d)] (\<lambda>f q. f)"
proof -
  have "run_state (Run (client_of lab conn) (parent_cmd db_file True)) f = (([], None), f)"
    "run_state (Run (client_of lab conn) (write_cmd db_file d True)) f = (([], None), Some d)" for f
    using disk_Run(2)[OF db_file_plain(2), of db_file True d True] assms
    by (simp_all add: lab_run lab_output_def lab_shapes)
  moreover have "snd (run_state (Run (client_of lab conn) cmd) f) = f" if "cmd \<in> {sha_cmd db_file True, stat_cmd db_file True}" for cmd f
    using that by (auto simp: lab_inspection[OF assms] split: option.split)
  ultimately show ?thesis
    using lab_honest[OF assms] by (auto simp: file_target_def file_steps_def plan_paths_def)
qed

lemma lab_succeeds:
  "cmd \<noteq> sha_cmd db_file True \<Longrightarrow> cmd \<noteq> stat_cmd db_file True \<Longrightarrow>
   snd (fst (run_state (Run (client_of lab conn) cmd) f)) = None"
  by (auto simp: lab_run lab_output_def disk_client_def split: prod.splits option.splits)

lemma lab_obliging: "obliging m (client_of lab conn)"
proof -
  have "cmd \<noteq> sha_cmd db_file True \<and> cmd \<noteq> stat_cmd db_file True" if "cmd \<in> provisioning_cmds m" for cmd
    using that
    by (auto simp: provisioning_cmds_def setup_cmds_def hardening_plan_def deploy_cmds_def sha_cmd_def stat_cmd_def
        sudo_prefix_def update_cmd_def which_docker_cmd_def install_docker_cmd_def allow_ssh_cmd_def allow_port_cmd_def
        enable_ufw_cmd_def mkdir_cmd_def read_cmd_def heredoc_cmd_def up_cmd_def Let_def split: if_splits)
  then show ?thesis using lab_succeeds by (simp add: obliging_def)
qed

lemma lab_compose: "\<exists>p. buildComposeProject (Services (applyDefaults example_manifest)) = Inr p"
proof -
  have "valid_services (Services (applyDefaults example_manifest))" by code_simp
  then show ?thesis by (auto simp: buildComposeProject_Inr_iff)
qed

text \<open>What the library amounts to as a client of the source, and what is extracted from it.\<close>

definition source_client :: "bytes option SSHRunner" where
  "source_client =
     \<lparr>Run = (\<lambda>cmd. State_Monad.return (if cmd = cat_cmd db_file then ''db'' else [], None)),
      Close = State_Monad.return None\<rparr>"

lemma lab_source_client: "client_of lab lab_source = source_client"
proof -
  have "SSHClient_Run lab_lib lab_source cmd = Run source_client cmd" for cmd
    by (rule state_ext) (simp add: SSHClient_Run_def lab_lib_def lab_output_def source_client_def)
  moreover have "SSHClient_Close lab_lib lab_source = State_Monad.return None"
    by (rule state_ext) (simp add: SSHClient_Close_def lab_lib_def)
  ultimately show ?thesis by (auto simp: client_of_def ssh_client_def lab_def source_client_def)
qed

lemma source_plan:
  "restore_plan (fst (run_state (ExtractSystemState (\<lambda>m. m) configPaths 0 source_client
     (applyDefaults example_manifest)) None)) = [(db_file, ''db'')]"
  by code_simp

lemma lab_plan:
  "restore_plan (fst (run_state (ExtractSystemState (env_json_order lab) (env_config_paths lab) (env_now lab)
     (client_of lab lab_source) (applyDefaults example_manifest)) None)) = [(db_file, ''db'')]"
proof -
  have "env_json_order lab = (\<lambda>m. m)" "env_config_paths lab = configPaths" "env_now lab = 0"
    by (simp_all add: lab_defs)
  then show ?thesis by (simp only: lab_source_client source_plan)
qed

subsection \<open>Properties\<close>

text \<open>
  C9: landing succeeds where it can: when the configuration loads, the connection is made, the
  backend is \<^verbatim>\<open>ufw\<close>, the services are valid and the server fails no command of provisioning (but
  \<^verbatim>\<open>which docker\<close>, perhaps), then \<^verbatim>\<open>gs land\<close> runs all of it and ends with exit code 0 after
  closing the connection.
\<close>

theorem land_succeeds:
  assumes "load_config env path = Inr cfg" and "run_state (connect env ip) w = (Inr conn, w1)"
    and "obliging cfg (client_of env conn)" and "fw_Backend (Firewall cfg) = ''ufw''"
    and "buildComposeProject (Services cfg) = Inr p"
  shows "\<exists>out w2. run_state (RunFullProvisioning (client_of env conn) cfg) w1 = (None, w2) \<and>
    run_state (main_cmd env [''land'', ip, path]) w = (out, snd (run_state (Close (client_of env conn)) w2)) \<and>
    exit_code out = 0"
proof -
  obtain e w2 where r: "run_state (RunFullProvisioning (client_of env conn) cfg) w1 = (e, w2)" by fastforce
  have "e = None" using RunFullProvisioning_succeeds[OF assms(3-5)] r by (metis succeeds_def fst_conv)
  then show ?thesis using r assms(1,2) by (simp add: main_cmd_def cmdLand_def split: prod.splits)
qed

theorem land_succeeds_witness:
  "\<exists>out w2. run_state (RunFullProvisioning (client_of lab lab_source) (applyDefaults example_manifest)) None = (None, w2) \<and>
    run_state (main_cmd lab [''land'', ''1.1.1.1'', ''c'']) None = (out, snd (run_state (Close (client_of lab lab_source)) w2)) \<and>
    exit_code out = 0"
proof -
  obtain p where p: "buildComposeProject (Services (applyDefaults example_manifest)) = Inr p" using lab_compose by blast
  show ?thesis
    by (rule land_succeeds[OF lab_config _ lab_obliging _ p])
      (simp_all add: lab_connect lab_source_def example_manifest_def)
qed

text \<open>
  C22: \<^verbatim>\<open>gs migrate\<close> needs both flags: without \<^verbatim>\<open>--from\<close> or without \<^verbatim>\<open>--to\<close> among its arguments, so
  also when the two servers are given the way the list of commands says, it ends with exit code 1
  and has touched nothing.
\<close>

theorem migrate_needs_flags:
  assumes "''--from'' \<notin> set args \<or> ''--to'' \<notin> set args"
  shows "\<exists>out. run_state (main_cmd env (''migrate'' # args)) w = (out, w) \<and> exit_code out = 1"
  using assms parse_flags_untouched[of args no_flags]
  by (auto simp: main_cmd_def cmdMigrate_def no_flags_def Let_def)

theorem migrate_needs_flags_witness:
  "\<exists>out. run_state (main_cmd lab [''migrate'', ''1.1.1.1'', ''2.2.2.2'', ''--config'', ''c'']) None = (out, None) \<and>
    exit_code out = 1"
  by (rule migrate_needs_flags) simp

text \<open>
  C2: a migration that reports success has delivered, from one server to another: when
  \<^verbatim>\<open>gs migrate\<close> ends with exit code 0, the state taken from the source was valid, and if the file
  commands of the target work, then there was a point at which every database, every certificate
  with a restore path and the Xray configuration of that state was on the target, with the digest
  and the size it had; all that was done after it is to restore Docker and Nomad and to close the
  two connections.  Nothing is asked of the source.  On a target whose file commands fail, the exit
  code says nothing: a restore only logs its failures.
\<close>

theorem migration_delivers:
  assumes "run_state (cmdMigrate env args) w = (out, w')" and "exit_code out = 0"
    and "f = parse_flags args no_flags" and "load_config env (configFile f) = Inr cfg"
    and "run_state (connect env (sourceIP f)) w = (Inr source, w1)"
    and "run_state (ExtractSystemState (env_json_order env) (env_config_paths env) (env_now env) (client_of env source) cfg) w1
      = (st, w2)"
    and "run_state (connect env (targetIP f)) w2 = (Inr target, w3)"
    and "file_target (client_of env target) (restore_plan st) file" and "plain_plan (restore_plan st)"
  shows "ValidateState st = None \<and>
    (\<exists>v. (\<forall>(p, d) \<in> set (restore_plan st). d \<noteq> [] \<longrightarrow>
        (\<exists>d'. file v p = Some d' \<and> sha256_hex d' = sha256_hex d \<and> length d' = length d)) \<and>
      w' = snd (run_state (do {
        _ \<leftarrow> restore_services (client_of env target) st;
        _ \<leftarrow> Close (client_of env target);
        Close (client_of env source) }) v))"
proof -
  have run: "run_state (run_migration env f cfg) w = (out, w')"
    using cmdMigrate_runs[OF assms(1,2)] assms(3,4) by simp
  obtain w4 u w5 where s: "ValidateState st = None"
    "run_state (RestoreSystemState (client_of env target) st) w4 = (u, w5)"
    "w' = snd (run_state (Close (client_of env source)) (snd (run_state (Close (client_of env target)) w5)))"
    by (rule run_migration_steps[OF run assms(2,5,6)]) (simp add: assms(7))
  have wf: "wf_state st" using ExtractSystemState_good[OF assms(6)] by (simp add: good_maps_def)
  obtain v where v: "delivered file v (restore_plan st)" "run_state (restore_services (client_of env target) st) v = (u, w5)"
    by (rule RestoreSystemState_delivers[OF assms(8) wf assms(9) s(2)]) (rule that)
  have "w' = snd (run_state (do {
        _ \<leftarrow> restore_services (client_of env target) st;
        _ \<leftarrow> Close (client_of env target);
        Close (client_of env source) }) v)"
    by (simp add: v(2) s(3) split: prod.split)
  with v(1) show ?thesis unfolding delivered_def using s(1) by blast
qed

text \<open>The source and the target of the laboratory are two servers, and only the target has the disk.\<close>

theorem migration_delivers_witness:
  "\<exists>w' st v. restore_plan st = [(db_file, ''db'')] \<and> ValidateState st = None \<and>
    (\<exists>d'. v = Some d' \<and> sha256_hex d' = sha256_hex ''db'' \<and> length d' = length ''db'') \<and>
    w' = snd (run_state (do {
        _ \<leftarrow> restore_services (client_of lab (ssh_addr ''2.2.2.2'' 22)) st;
        _ \<leftarrow> Close (client_of lab (ssh_addr ''2.2.2.2'' 22));
        Close (client_of lab lab_source) }) v)"
proof -
  let ?args = "[''--from'', ''1.1.1.1'', ''--to'', ''2.2.2.2'']"
  let ?cfg = "applyDefaults example_manifest"
  let ?f = "parse_flags ?args no_flags"
  let ?target = "ssh_addr ''2.2.2.2'' 22"
  obtain out w' where run: "run_state (cmdMigrate lab ?args) None = (out, w')" by fastforce
  obtain st w2 where st: "run_state (ExtractSystemState (env_json_order lab) (env_config_paths lab) (env_now lab)
      (client_of lab lab_source) ?cfg) None = (st, w2)" by fastforce
  have plan: "restore_plan st = [(db_file, ''db'')]" using lab_plan st by simp
  have valid: "ValidateState st = None"
    using extracted_hostname[OF st] by (simp add: ValidateState_def example_manifest_def)
  obtain p where p: "buildComposeProject (Services ?cfg) = Inr p" using lab_compose by blast
  have "succeeds (RunFullProvisioning (client_of lab ?target) ?cfg)"
    by (rule RunFullProvisioning_succeeds[OF lab_obliging _ p]) (simp add: example_manifest_def)
  then obtain w4 where "run_state (RunFullProvisioning (client_of lab ?target) ?cfg) w2 = (None, w4)"
    by (metis succeeds_def prod.collapse)
  then have "exit_code (fst (run_state (run_migration lab ?f ?cfg) None)) = 0"
    by (intro run_migration_succeeds[OF _ st valid]) (simp_all add: lab_connect lab_source_def no_flags_def)
  then have "exit_code (fst (run_state (cmdMigrate lab ?args) None)) = 0"
    by (simp add: cmdMigrate_def lab_config Let_def no_flags_def)
  then have ok: "exit_code out = 0" using run by simp
  have two: "?target \<noteq> lab_source" by (simp add: lab_source_def ssh_addr_def)
  have target: "file_target (client_of lab ?target) (restore_plan st) (\<lambda>f q. f)"
    unfolding plan by (rule lab_target[OF two])
  have plain: "plain_plan (restore_plan st)" using db_file_plain by (simp add: plan plain_plan_def)
  have conn: "run_state (connect lab (sourceIP ?f)) None = (Inr lab_source, None)"
    "run_state (connect lab (targetIP ?f)) w2 = (Inr ?target, w2)"
    by (simp_all add: lab_connect lab_source_def no_flags_def)
  from migration_delivers[OF run ok refl lab_config conn(1) st conn(2) target plain] obtain v where
    "\<forall>(p, d) \<in> set (restore_plan st). d \<noteq> [] \<longrightarrow>
       (\<exists>d'. v = Some d' \<and> sha256_hex d' = sha256_hex d \<and> length d' = length d)" and
    w': "w' = snd (run_state (do {
        _ \<leftarrow> restore_services (client_of lab ?target) st;
        _ \<leftarrow> Close (client_of lab ?target);
        Close (client_of lab lab_source) }) v)" by blast
  then have "\<exists>d'. v = Some d' \<and> sha256_hex d' = sha256_hex ''db'' \<and> length d' = length ''db''" by (simp add: plan)
  with plan valid w' show ?thesis by blast
qed

end
