(* ===== verification/Go_Json_Roundtrip.thy ===== *)
theory Go_Json_Roundtrip
  imports Go_Json_Decode
begin

text \<open>
  What \<^verbatim>\<open>json.Marshal\<close> writes, \<^verbatim>\<open>json.Unmarshal\<close> reads back: for a string of valid UTF-8, whatever
  has to be escaped in it, and for an object of such strings.
\<close>

function valid_utf8 :: "string \<Rightarrow> bool" where
  "valid_utf8 s \<longleftrightarrow> s = [] \<or> (case rune_size s of None \<Rightarrow> False | Some n \<Rightarrow> valid_utf8 (drop n s))"
  by pat_completeness auto
termination
proof (relation "measure length")
  fix s :: string and n
  assume r: "rune_size s = Some n"
  then have "s \<noteq> []" by auto
  then show "(drop n s, s) \<in> measure length" using rune_size_pos[OF r] by simp
qed simp

declare valid_utf8.simps [simp del]

subsection \<open>One item\<close>

lemma hex_value_hex: "n < 16 \<Longrightarrow> hex_value (json_hex n) = Some n"
proof -
  assume n: "n < 16"
  have "list_all (\<lambda>k. hex_value (json_hex k) = Some k) [0..<16]" by code_simp
  then show ?thesis using n by (simp add: list_all_iff)
qed

lemma hex4_byte:
  assumes "n < 256"
  shows "hex4 (CHR ''0'' # CHR ''0'' # json_hex (n div 16) # json_hex (n mod 16) # t) = Some n"
proof -
  have "hex_value CHR ''0'' = Some 0" by code_simp
  moreover have "n div 16 < 16" using assms by (rule less_mult_imp_div_less[of n 16 16, simplified])
  ultimately show ?thesis by (simp add: hex4_def hex_value_hex)
qed

lemma not_quote_append: "w \<noteq> [] \<Longrightarrow> hd w \<noteq> CHR 0x22 \<Longrightarrow> \<not> prefix [CHR 0x22] (w @ t)"
  by (cases w) auto

lemma parse_chars_item:
  assumes "char_item (w @ t) = Some (bs, length w)" "w \<noteq> []" "hd w \<noteq> CHR 0x22"
  shows "parse_chars (w @ t) = map_option (\<lambda>(u, r). (bs @ u, r)) (parse_chars t)"
  using assms not_quote_append[OF assms(2,3)] by (simp add: parse_chars.simps[of "w @ t"])

lemma char_of_of_char: "char_of (of_char c :: nat) = c"
  by simp

lemma unescape_ascii:
  assumes "(of_char c :: nat) < 0x80"
  shows "unescape_u (CHR ''0'' # CHR ''0'' # json_hex (of_char c div 16) # json_hex (of_char c mod 16) # t) = Some ([c], 4)"
proof -
  have "hex4 (CHR ''0'' # CHR ''0'' # json_hex (of_char c div 16) # json_hex (of_char c mod 16) # t) = Some (of_char c)"
    by (rule hex4_byte) (use assms in linarith)
  then show ?thesis
    using assms by (simp add: unescape_u_def high_surrogate_def low_surrogate_def encode_rune_def)
qed

lemma escape_byte_item:
  assumes "byte_in 0 0x7F c"
  shows "char_item (json_escape_byte c @ t) = Some ([c], length (json_escape_byte c))"
    "json_escape_byte c \<noteq> []" "hd (json_escape_byte c) \<noteq> CHR 0x22"
proof -
  have lt: "(of_char c :: nat) < 0x80" using assms by (simp add: byte_in_def)
  have se: "simple_escape c = Some c" if "c = CHR 0x5C \<or> c = CHR 0x22"
    using that by (auto simp: simple_escape_def)
  show "char_item (json_escape_byte c @ t) = Some ([c], length (json_escape_byte c))"
    using assms unescape_ascii[OF lt]
    by (auto simp: json_escape_byte_def char_item_def simple_escape_def)
  show "json_escape_byte c \<noteq> []" "hd (json_escape_byte c) \<noteq> CHR 0x22"
    by (auto simp: json_escape_byte_def)
qed

lemma rune_size_take:
  assumes "rune_size s = Some n"
  shows "rune_size (take n s @ t) = Some n"
proof (cases s)
  case Nil
  then show ?thesis using assms by simp
next
  case (Cons a r)
  then show ?thesis
    using assms by (auto simp: rune_size.simps(2) split: if_splits list.splits)
qed


subsection \<open>Strings\<close>

lemma rune_item:
  assumes "rune_size s = Some n" "s = c # cs" "\<not> byte_in 0 0x7F c"
  shows "char_item (take n s @ t) = Some (take n s, length (take n s))" "take n s \<noteq> []"
    "hd (take n s) \<noteq> CHR 0x22"
proof -
  obtain m where m: "n = Suc m" using rune_size_pos[OF assms(1)] by (cases n) auto
  have big: "\<not> (of_char c :: nat) < 0x80" using assms(3) by (simp add: byte_in_def)
  have ne: "c \<noteq> CHR 0x5C" "c \<noteq> CHR 0x22" using big by auto
  have len: "length (take n s) = n" using rune_size_le[OF assms(1)] by simp
  have "rune_size (take n s @ t) = Some n" using rune_size_take[OF assms(1)] .
  moreover have "take n (take n s @ t) = take n s" using len by simp
  ultimately show "char_item (take n s @ t) = Some (take n s, length (take n s))"
    using assms(2,3) big ne m len by (simp add: char_item_def)
  show "take n s \<noteq> []" "hd (take n s) \<noteq> CHR 0x22" using assms(2) ne m by simp_all
qed

lemma separator_bytes:
  "char_of (226 :: nat) = CHR 0xE2" "char_of (128 :: nat) = CHR 0x80" "char_of (168 :: nat) = CHR 0xA8"
  "char_of (169 :: nat) = CHR 0xA9"
  by code_simp+

lemma line_separator_items:
  "char_item (BS @ ''u2028'' @ t) = Some ([CHR 0xE2, CHR 0x80, CHR 0xA8], 6)"
  "char_item (BS @ ''u2029'' @ t) = Some ([CHR 0xE2, CHR 0x80, CHR 0xA9], 6)"
proof -
  have "hex4 (''2028'' @ t) = Some 0x2028" "hex4 (''2029'' @ t) = Some 0x2029"
    by (simp_all add: hex4_def hex_value_def)
  then show "char_item (BS @ ''u2028'' @ t) = Some ([CHR 0xE2, CHR 0x80, CHR 0xA8], 6)"
    "char_item (BS @ ''u2029'' @ t) = Some ([CHR 0xE2, CHR 0x80, CHR 0xA9], 6)"
    by (simp_all add: char_item_def unescape_u_def high_surrogate_def low_surrogate_def encode_rune_def separator_bytes)
qed

lemma parse_chars_escape:
  "valid_utf8 s \<Longrightarrow> parse_chars (json_escape s @ CHR 0x22 # r) = Some (s, r)"
proof (induction s rule: json_escape.induct)
  case (1 s)
  show ?case
  proof (cases s)
    case Nil
    then show ?thesis by (simp add: json_escape.simps parse_chars.simps)
  next
    case (Cons c cs)
    then obtain n where n: "rune_size s = Some n" "valid_utf8 (drop n s)"
      using 1(4)[unfolded valid_utf8.simps[of s]] by (cases "rune_size s") auto
    show ?thesis
    proof (cases "byte_in 0 0x7F c")
      case True
      then have "n = 1" using n(1) Cons by (simp add: rune_size.simps(2))
      then have ih: "parse_chars (json_escape cs @ CHR 0x22 # r) = Some (cs, r)"
        using 1(1)[OF Cons True] n(2) Cons by simp
      have esc: "json_escape s = json_escape_byte c @ json_escape cs"
        by (subst json_escape.simps) (use True Cons in simp)
      show ?thesis
        unfolding esc append_assoc
        using parse_chars_item[OF escape_byte_item[OF True]] ih Cons by simp
    next
      case False
      have ih: "parse_chars (json_escape (drop n s) @ CHR 0x22 # r) = Some (drop n s, r)"
        using 1(3)[OF Cons False n(1)] n(2) by simp
      let ?w = "if take n s = [CHR 0xE2, CHR 0x80, CHR 0xA8] then BS @ ''u2028''
                else if take n s = [CHR 0xE2, CHR 0x80, CHR 0xA9] then BS @ ''u2029'' else take n s"
      have esc: "json_escape s = ?w @ json_escape (drop n s)"
        by (subst json_escape.simps) (use False Cons n(1) in simp)
      have w: "char_item (?w @ t) = Some (take n s, length ?w)" "?w \<noteq> []" "hd ?w \<noteq> CHR 0x22" for t
        using rune_item[OF n(1) Cons False] line_separator_items[of t] by auto
      show ?thesis
        unfolding esc append_assoc
        using parse_chars_item[OF w] ih by simp
    qed
  qed
qed

subsection \<open>Objects of strings\<close>

lemma skip_ws_simps [simp]: "skip_ws (CHR 0x22 # s) = CHR 0x22 # s" "skip_ws (CHR '':'' # s) = CHR '':'' # s"
  "skip_ws (CHR '','' # s) = CHR '','' # s" "skip_ws (CHR ''}'' # s) = CHR ''}'' # s"
  "skip_ws (CHR ''{'' # s) = CHR ''{'' # s" "skip_ws [] = []"
  by (simp_all add: skip_ws_def json_ws_def)

lemma parse_string_value:
  "valid_utf8 v \<Longrightarrow> parse_value (Suc n) d (CHR 0x22 # json_escape v @ CHR 0x22 # r) = Some (JStr v, r)"
  by (simp add: parse_leaf_def parse_chars_escape)

lemma member_text:
  "json_string k @ '':'' @ json_string v @ c # X =
     CHR 0x22 # json_escape k @ CHR 0x22 # CHR '':'' # CHR 0x22 # json_escape v @ CHR 0x22 # c # X"
  by (simp add: json_string_def)

lemma parse_member_step:
  assumes "valid_utf8 k" "valid_utf8 v"
  shows "parse_members (Suc (Suc i)) d (json_string k @ '':'' @ json_string v @ CHR '','' # X) =
    map_option (\<lambda>(ms, r). ((k, JStr v) # ms, r)) (parse_members (Suc i) d X)"
  using assms unfolding member_text
  by (simp add: parse_chars_escape parse_string_value del: parse_value.simps parse_members.simps(2)
      add: parse_members.simps(2)[of "Suc i"])

lemma parse_member_last:
  assumes "valid_utf8 k" "valid_utf8 v"
  shows "parse_members (Suc (Suc i)) d (json_string k @ '':'' @ json_string v @ CHR ''}'' # X) =
    Some ([(k, JStr v)], X)"
  using assms unfolding member_text
  by (simp add: parse_chars_escape parse_string_value del: parse_value.simps parse_members.simps(2)
      add: parse_members.simps(2)[of "Suc i"])

definition member_str :: "string \<times> string \<Rightarrow> string" where
  "member_str f = json_string (fst f) @ '':'' @ json_string (snd f)"

lemma parse_members_strings:
  "fs \<noteq> [] \<Longrightarrow> \<forall>f \<in> set fs. valid_utf8 (fst f) \<and> valid_utf8 (snd f) \<Longrightarrow> length fs < n \<Longrightarrow>
   parse_members n d (Join (map member_str fs) '','' @ CHR ''}'' # r) =
     Some (map (\<lambda>f. (fst f, JStr (snd f))) fs, r)"
proof (induction fs arbitrary: n)
  case Nil
  then show ?case by simp
next
  case (Cons f fs)
  from Cons.prems(3) have "2 \<le> n" by simp
  then obtain i where n: "n = Suc (Suc i)" by (metis add_2_eq_Suc le_Suc_ex)
  have kv: "valid_utf8 (fst f)" "valid_utf8 (snd f)" using Cons.prems(2) by auto
  show ?case
  proof (cases fs)
    case Nil
    then show ?thesis
      using parse_member_last[OF kv, of i d r] n by (simp add: member_str_def del: parse_members.simps)
  next
    case c: (Cons g gs)
    then have ih: "parse_members (Suc i) d (Join (map member_str fs) '','' @ CHR ''}'' # r) =
        Some (map (\<lambda>f. (fst f, JStr (snd f))) fs, r)"
      using Cons.IH Cons.prems n by (simp del: parse_members.simps)
    have j: "Join (map member_str (f # fs)) '','' @ CHR ''}'' # r =
        json_string (fst f) @ '':'' @ json_string (snd f) @ CHR '','' # (Join (map member_str fs) '','' @ CHR ''}'' # r)"
      using c by (simp add: member_str_def)
    show ?thesis
      unfolding n j parse_member_step[OF kv] ih by simp
  qed
qed

lemma json_object_members: "json_object fs = CHR ''{'' # Join (map member_str fs) '','' @ CHR ''}'' # []"
  by (simp add: json_object_def member_str_def[abs_def] case_prod_unfold)

lemma member_starts: "skip_ws (Join (map member_str (f # fs)) '','' @ t) = Join (map member_str (f # fs)) '','' @ t"
  by (cases fs) (simp_all add: member_str_def json_string_def)

lemma member_not_closing: "\<not> prefix ''}'' (Join (map member_str (f # fs)) '','' @ t)"
  by (cases fs) (simp_all add: member_str_def json_string_def)

lemma json_object_parses:
  assumes "fs \<noteq> []" "\<forall>f \<in> set fs. valid_utf8 (fst f) \<and> valid_utf8 (snd f)"
  shows "json_parse (json_object fs) = Some (JObj (map (\<lambda>f. (fst f, JStr (snd f))) fs))"
proof (rule json_parse_fuel[where n = "Suc (Suc (length fs))" and r = "[]"])
  obtain g gs where fs: "fs = g # gs" using assms(1) by (cases fs) auto
  let ?t = "Join (map member_str fs) '','' @ CHR ''}'' # []"
  have m: "parse_members (Suc (length fs)) (max_nesting - 1) ?t =
      Some (map (\<lambda>f. (fst f, JStr (snd f))) fs, [])"
    by (rule parse_members_strings) (use assms in auto)
  have sk: "skip_ws ?t = ?t" "\<not> prefix ''}'' ?t"
    unfolding fs by (rule member_starts, rule member_not_closing)
  have d: "max_nesting \<noteq> 0" by (simp add: max_nesting_def)
  show "parse_value (Suc (Suc (length fs))) max_nesting (json_object fs) =
      Some (JObj (map (\<lambda>f. (fst f, JStr (snd f))) fs), [])"
    unfolding json_object_members parse_value.simps(2)[of "Suc (length fs)"] skip_ws_simps list.case
    using sk m d by (simp del: parse_members.simps)
qed simp

end
