(* ===== verification/Spec2Isabelle.thy ===== *)
theory Spec2Isabelle
  imports Main_Cmd Go_Json_Roundtrip
begin

text \<open>
  \<^bold>\<open>Ghost-Ship.\<close>  The program prepares, audits and migrates servers.  It never touches them but
  through shell commands sent over SSH, so the model of a component is a computation in the state
  monad over the world behind the SSH client, its result is what the Go function returns, and what
  is proved of it is about the commands it sends, the replies it uses, and the files that are on
  the server at the end.  \<^verbatim>\<open>cmd/gs/main.go\<close> calls \<^verbatim>\<open>internal/config\<close> for the manifest, \<^verbatim>\<open>pkg/sshutil\<close>
  for the connection, and then \<^verbatim>\<open>internal/provisioner\<close>, \<^verbatim>\<open>internal/audit\<close> or
  \<^verbatim>\<open>internal/extractor\<close>, which calls \<^verbatim>\<open>internal/nomad\<close>; the encryption of a state is in
  \<^verbatim>\<open>clib/streamer.cpp\<close>.
\<close>

section \<open>The theories\<close>

text \<open>
  \<^bold>\<open>Go's library.\<close>  \<open>Prelude\<close> has bytes, Go maps (association lists, whose order stands for the order
  in which Go ranges over a map), and the loops: \<open>for_each\<close> threads an accumulator,
  \<open>until_error\<close> and \<open>first_ok\<close> stop early.  \<open>Go_Strings\<close>, \<open>Go_Format\<close> and \<open>Go_Encoding\<close> have the
  functions of \<^verbatim>\<open>strings\<close>, \<^verbatim>\<open>strconv\<close>, \<^verbatim>\<open>path/filepath\<close>, \<^verbatim>\<open>encoding/hex\<close>, \<^verbatim>\<open>encoding/base64\<close> and
  \<^verbatim>\<open>crypto/sha256\<close> the program computes with, executable and over words where Go has words, with
  the round trip of base64.  \<open>Go_Json\<close>, \<open>Go_Json_Decode\<close> and \<open>Go_Json_Roundtrip\<close> have
  \<^verbatim>\<open>encoding/json\<close>; \<open>Go_Tar\<close> has the writer and the reader of \<^verbatim>\<open>archive/tar\<close> for plain headers,
  byte for byte, and that the reader inverts the writer.

  \<^bold>\<open>The connection.\<close>  \<open>Runner\<close> has the interface \<^verbatim>\<open>SSHRunner\<close> as a record of functions, the client
  over the SSH library (a record of the library's functions), and the scripted mock of the tests.
  Two locales state what a client that keeps a log of its commands, or of its commands and
  replies, lets its callers conclude; they are interpreted on the mock and on \<open>traced\<close>, which logs
  any client at all.  Every claim about what is sent, and after which reply, goes through \<open>traced\<close>.

  \<^bold>\<open>Provisioning.\<close>  \<open>Config\<close> is \<^verbatim>\<open>schema.go\<close> and \<^verbatim>\<open>manifest.go\<close>: records, defaults, validation.
  \<open>Hardening\<close> is \<^verbatim>\<open>hardening.go\<close>; \<open>Compose\<close> builds the compose file (\<^verbatim>\<open>buildComposeProject\<close>,
  \<^verbatim>\<open>writeComposeService\<close>) and relates it to a specification of its lines and of the services it
  accepts; \<open>Provisioner\<close> is the deployment and the whole sequence: no lock-out by the firewall,
  services only behind it, nothing written twice.

  \<^bold>\<open>Audit.\<close>  \<open>Telegram\<close> and \<open>Security_Audit\<close> are \<^verbatim>\<open>telegram.go\<close> and \<^verbatim>\<open>audit.go\<close>.  The report is shown
  to be a specified function of the replies, its counters to agree with its alerts (a locale for a
  stage of the audit and one for their composition), and the message to name what it should.

  \<^bold>\<open>The state of a server.\<close>  \<open>Remote_Read\<close> reads files (a locale for a reader, interpreted on both
  readers of the program); \<open>Databases\<close> is \<^verbatim>\<open>sqlite.go\<close>, \<open>Certs\<close> is \<^verbatim>\<open>certs.go\<close>, \<open>Docker\<close> and
  \<open>Nomad_Jobs\<close> are \<^verbatim>\<open>internal/nomad\<close>; \<open>Restore\<close> is \<^verbatim>\<open>restore.go\<close>, one file written and verified;
  \<open>Extractor\<close> puts the state of a server together and takes it apart again (\<^verbatim>\<open>extractor.go\<close>).
  \<open>System_Restore\<close> gives the restoration its specification: a plan, that is the list of the paths
  with their data.  On a server whose file commands work (\<open>file_target\<close>, a contract on the
  inspections, the parent directories and the writes of the entries of the plan, and on nothing
  else) there is a point at which the plan is fulfilled, and after it only Docker and Nomad are
  restored.  It also bounds the paths that the plan of an extracted state can have.
  \<open>Shell\<close> reads the text of a command into words, to tell commands that only print from others.

  \<^bold>\<open>Transport.\<close>  \<open>Streamer\<close> is \<^verbatim>\<open>clib/streamer.cpp\<close> over the calls of LZ4 and OpenSSL: the frame of
  whole messages, messages in pieces, keys, and the C interface with a heap, on which the use of
  freed memory is undefined.  \<open>Transport\<close> is \<^verbatim>\<open>transport.go\<close> and \<^verbatim>\<open>transport_stub.go\<close>: packing,
  unpacking and sending.

  \<^bold>\<open>The program.\<close>  \<open>Main_Cmd\<close> is \<^verbatim>\<open>main.go\<close>: arguments, exit code, output, and the calls of every
  command.  Its theorems compose the components: a migration that reports success has delivered
  the files of its plan to a target whose file commands work, and landing succeeds on a server
  that fails no command.  \<^verbatim>\<open>gs extract\<close> packs with the stub or with the streamer, after the build
  (\<open>pack_state\<close>).
\<close>

section \<open>Conventions\<close>

text \<open>
  A Go function of the source is a definition of the same name (with a prefix where two packages
  use one name, and with a field prefix where two records would share a field).  A Go \<^verbatim>\<open>string\<close> and
  a \<^verbatim>\<open>[]byte\<close> are lists of bytes.  Errors are values: \<^verbatim>\<open>Inl\<close> of a datatype with one constructor per
  \<^verbatim>\<open>fmt.Errorf\<close>, or an option where only an error is returned; the function that always returns
  \<^verbatim>\<open>nil\<close> has no error in its type.  A panic of Go and undefined behaviour of C++ are outcomes
  (\<open>go_outcome\<close>) where they can happen.  Bodies of loops, commands and tables of the source have
  definitions of their own, used by the loop.

  \<^bold>\<open>Bounds.\<close>  The JSON parser takes fuel, and \<open>json_parse_fuel\<close> shows that the length of the text is
  enough: whatever some amount of fuel parses, that one does.  The loop over an archive is a partial
  function, whose value is \<^term>\<open>None\<close> when it goes on for ever; it ends when every entry that the
  library reads beyond the plain form leaves less input than there was (\<open>advances\<close>), which is shown
  for plain entries (\<open>tar_next_advances\<close>).  All other recursion is structural or has its termination
  proof.  Words have their width in SHA-256, base64 and the length field of the streamer.  Its casts
  of sizes to \<^verbatim>\<open>int\<close> are there (\<open>c_int\<close>: the number modulo \<^verbatim>\<open>2^32\<close>, signed); the theorems are about
  data up to the limit of \<^verbatim>\<open>256 MB\<close> of the program for whole messages and below \<^verbatim>\<open>2^31\<close> bytes for
  messages in pieces.

  \<^bold>\<open>Parameters.\<close>  What is not under \<^verbatim>\<open>src\<close> is an argument: the SSH library and the server behind it,
  the YAML library, HTTP, the file system, the clock, the random source, LZ4 and OpenSSL, headers
  of \<^verbatim>\<open>archive/tar\<close> beyond the plain form, and the order of Go maps.  What a theorem needs of
  them is among its premises: \<open>lawful_crypto\<close> for the C libraries, \<open>advances\<close> for \<^verbatim>\<open>archive/tar\<close>,
  \<open>file_target\<close> and \<open>honest_inspection\<close> for the file commands of a server, \<open>obliging\<close> for one that
  fails no command of provisioning, \<open>compose_host\<close> for one that keeps the compose file;
  the witnesses fulfil them with concrete ones.
\<close>

section \<open>What the theorems show to be wrong\<close>

text \<open>
  The C interface returns memory that its destructor has freed, so neither packing nor unpacking
  ever succeeds when it is linked (\<open>PackSystemState_never_returns_a_stream\<close>), so \<^verbatim>\<open>gs extract\<close> never
  ends with exit code 0 (\<open>extract_with_streamer_never_succeeds\<close>); without it, it reports success over
  an empty stream (\<open>extract_stub_loses_the_state\<close>).  What the C++ function returns starts with the
  nonce, and unpacking puts the nonce in front once more (\<open>packed_nonce_is_repeated\<close>).  Names from
  the server are put into commands without quotes (\<open>hostile_cmd_is_sent\<close>).  A migration ends with
  exit code 0 whatever becomes of its restore (\<open>run_migration_succeeds\<close>), and a database or an Xray
  configuration goes to one fixed path wherever it was read from (\<open>extracted_state_goes_to\<close>).  The
  audit does not run the commands the documentation gives (\<open>RunSecurityAudit_refines_spec\<close>).  A
  missing configuration
  file is kept as the text that says so (\<open>extractConfigs_keeps_replies\<close>), the databases of four
  paths share one name (\<open>extracted_database_is_one\<close>), the lines of \<^verbatim>\<open>docker ps\<close> never decode
  (\<open>docker_ps_lines_are_dropped\<close>), a stopped Fail2Ban passes the audit
  (\<open>audit_accepts_inactive_fail2ban\<close>), and the restoration ignores SSH keys and all configuration
  but Xray's (\<open>RestoreSystemState_ignores\<close>).
\<close>

section \<open>Not modelled\<close>

text \<open>
  Log output and the banner; the text of numbers with decimals, which stay numbers; the time-outs
  of the network, and running out of memory; the effect of a command on a server, other than
  as a premise; the modification of a server by others during a run; the tests and the benchmark
  of the streamer.  The reply of an SSH command is one value, so the mixture of its two output
  streams is the library's.
\<close>

end
